(* ===== verification/Prelude.thy ===== *)
theory Prelude
  imports Main "HOL-Library.Sublist" "HOL-Library.Char_ord" "HOL-Library.List_Lexorder"
    "HOL-Library.Word"
begin

text \<open>
  Shared material: the theorem collections of the development and the generic lemmas on
  lists, options and 64-bit integers that several components use.

  \<^item> \<open>keepsI\<close> collects the introduction rules that walk over the control structure of an
    effectful operation (theory \<open>GoEffects\<close>); a component adds the rules for its own
    operations, so that the frame and trace lemmas of the next component are one call of
    \<open>intro\<close>.
\<close>

named_theorems keepsI "step-relation rules for effectful operations"

section \<open>Go's int\<close>

text \<open>
  A Go \<open>int\<close> (and an \<open>int64\<close>, such as \<open>time.Duration\<close>) is a 64-bit two's complement value.
  The model keeps it as an \<open>int\<close> and applies \<open>wrap64\<close> wherever the code's arithmetic
  can leave the range; \<open>wrap64_sint\<close> says that this is the arithmetic of \<open>64 word\<close>.
\<close>

definition min_int64 :: int where
  "min_int64 = - (2 ^ 63)"

definition max_int64 :: int where
  "max_int64 = 2 ^ 63 - 1"

definition wrap64 :: "int \<Rightarrow> int" where
  "wrap64 x = (x + 2 ^ 63) mod 2 ^ 64 - 2 ^ 63"

type_synonym uint64 = "64 word"

lemma wrap64_range: "min_int64 \<le> wrap64 x \<and> wrap64 x \<le> max_int64"
proof -
  have "0 \<le> (x + 2 ^ 63) mod 2 ^ 64 \<and> (x + 2 ^ 63) mod 2 ^ 64 < (2 ^ 64 :: int)"
    by simp
  then show ?thesis unfolding wrap64_def min_int64_def max_int64_def by simp
qed

lemma wrap64_id: "min_int64 \<le> x \<Longrightarrow> x \<le> max_int64 \<Longrightarrow> wrap64 x = x"
  by (simp add: wrap64_def min_int64_def max_int64_def)

lemma wrap64_sint: "wrap64 x = sint (word_of_int x :: 64 word)"
  by (simp add: wrap64_def signed_of_int signed_take_bit_eq_take_bit_shift take_bit_eq_mod)

lemma sint64_range: "min_int64 \<le> sint (v :: uint64) \<and> sint v \<le> max_int64"
  using sint_range_size [of v] by (simp add: min_int64_def max_int64_def word_size)

section \<open>Lists\<close>

lemma list_all_filter_iff: "list_all P (filter Q xs) \<longleftrightarrow> (\<forall>x. x \<in> set xs \<longrightarrow> Q x \<longrightarrow> P x)"
  by (auto simp: list_all_iff)

lemma filter_empty_if: "list_all (\<lambda>x. \<not> Q x) xs \<Longrightarrow> filter Q xs = []"
  by (induction xs) auto

lemma find_SomeD: "find P xs = Some x \<Longrightarrow> P x \<and> x \<in> set xs"
  by (auto simp: find_Some_iff)

lemma find_append: "find P (xs @ ys) = (case find P xs of None \<Rightarrow> find P ys | Some x \<Rightarrow> Some x)"
  by (induction xs) auto

lemma map_of_SomeD2: "map_of xs k = Some v \<Longrightarrow> (k, v) \<in> set xs"
  by (rule map_of_SomeD)

lemma sublist_trans3: "sublist a b \<Longrightarrow> sublist b c \<Longrightarrow> sublist a c"
  by (rule sublist_order.order_trans)


text \<open>The first element with a property, said without a loop.\<close>


lemma first_split_Cons:
  "(\<exists>pre x post. y # ys = pre @ x # post \<and> (\<forall>z \<in> set pre. \<not> Q z) \<and> R x) \<longleftrightarrow>
   R y \<or> (\<not> Q y \<and> (\<exists>pre x post. ys = pre @ x # post \<and> (\<forall>z \<in> set pre. \<not> Q z) \<and> R x))"
  (is "?L \<longleftrightarrow> R y \<or> ?M")
proof
  assume ?L
  then obtain pre x post where "y # ys = pre @ x # post" "\<forall>z \<in> set pre. \<not> Q z" "R x" by blast
  then show "R y \<or> ?M" by (cases pre) auto
next
  assume "R y \<or> ?M"
  then show ?L
  proof
    assume "R y"
    then show ?L by (intro exI [of _ "[]"] exI [of _ y] exI [of _ ys]) simp
  next
    assume ?M
    then obtain pre x post where "\<not> Q y" "ys = pre @ x # post" "\<forall>z \<in> set pre. \<not> Q z" "R x" by blast
    then show ?L by (intro exI [of _ "y # pre"] exI [of _ x] exI [of _ post]) simp
  qed
qed

end
