(* ===== verification/GoString.thy ===== *)
theory GoString
  imports Prelude
begin

text \<open>
  The parts of Go's packages \<open>strings\<close>, \<open>strconv\<close>, \<open>sort\<close> and \<open>fmt\<close> that the
  driver uses, as executable functions on byte strings. Case mapping, case folding, white
  space and quoting are modelled on ASCII bytes (every other byte is left alone); the driver
  applies them to MAC addresses, option values and PVE identifiers.
\<close>

section \<open>Package strings\<close>

text \<open>\<open>strings.Contains(s, sub)\<close>\<close>

fun contains :: "string \<Rightarrow> string \<Rightarrow> bool" where
  "contains [] sub = (sub = [])"
| "contains (c # cs) sub = (prefix sub (c # cs) \<or> contains cs sub)"

lemma contains_iff_sublist: "contains s sub \<longleftrightarrow> sublist sub s"
  by (induction s) (auto simp: sublist_Cons_right)

lemma contains_append1: "contains s sub \<Longrightarrow> contains (s @ t) sub"
  by (auto simp: contains_iff_sublist sublist_append)

lemma contains_append2: "contains t sub \<Longrightarrow> contains (s @ t) sub"
  by (auto simp: contains_iff_sublist sublist_append)

lemma contains_middle: "contains (a @ sub @ b) sub"
  by (auto simp: contains_iff_sublist)

text \<open>\<open>strings.Cut\<close> and \<open>strings.Split\<close> at a one-byte separator.\<close>

fun cut :: "char \<Rightarrow> string \<Rightarrow> string \<times> string \<times> bool" where
  "cut sep [] = ([], [], False)"
| "cut sep (c # cs) =
     (if c = sep then ([], cs, True)
      else (case cut sep cs of (before, after, found) \<Rightarrow> (c # before, after, found)))"

lemma cut_found: "cut sep s = (b, a, True) \<Longrightarrow> s = b @ sep # a \<and> sep \<notin> set b"
  by (induction sep s arbitrary: b a rule: cut.induct) (auto split: if_splits prod.splits)

lemma cut_not_found: "cut sep s = (b, a, False) \<Longrightarrow> b = s \<and> a = [] \<and> sep \<notin> set s"
  by (induction sep s arbitrary: b a rule: cut.induct) (auto split: if_splits prod.splits)

lemma cut_append: "sep \<notin> set b \<Longrightarrow> cut sep (b @ sep # a) = (b, a, True)"
  by (induction b) auto

lemma cut_absent: "sep \<notin> set s \<Longrightarrow> cut sep s = (s, [], False)"
  by (induction s) auto

fun split :: "char \<Rightarrow> string \<Rightarrow> string list" where
  "split sep [] = [[]]"
| "split sep (c # cs) =
     (if c = sep then [] # split sep cs
      else (case split sep cs of [] \<Rightarrow> [[c]] | p # ps \<Rightarrow> (c # p) # ps))"

lemma split_not_Nil [simp]: "split sep s \<noteq> []"
  by (induction sep s rule: split.induct) (auto split: list.splits)

lemma split_absent: "sep \<notin> set s \<Longrightarrow> split sep s = [s]"
  by (induction s) auto

lemma split_append: "sep \<notin> set s \<Longrightarrow> split sep (s @ sep # t) = s # split sep t"
  by (induction s) auto

lemma split_parts_no_sep: "p \<in> set (split sep s) \<Longrightarrow> sep \<notin> set p"
  by (induction sep s arbitrary: p rule: split.induct) (auto split: if_splits list.splits)

text \<open>\<open>strings.SplitN(s, sep, 2)\<close>: at most two parts.\<close>

definition split_n2 :: "char \<Rightarrow> string \<Rightarrow> string list" where
  "split_n2 sep s = (case cut sep s of (b, a, found) \<Rightarrow> if found then [b, a] else [s])"

text \<open>\<open>strings.Join\<close>\<close>

fun join :: "string \<Rightarrow> string list \<Rightarrow> string" where
  "join sep [] = []"
| "join sep [x] = x"
| "join sep (x # y # ys) = x @ sep @ join sep (y # ys)"

lemma split_join: 
  "xs \<noteq> [] \<Longrightarrow> list_all (\<lambda>x. sep \<notin> set x) xs \<Longrightarrow> split sep (join [sep] xs) = xs"
  by (induction "[sep]" xs rule: join.induct) (auto simp: split_absent split_append)

text \<open>\<open>strings.TrimSpace\<close> (ASCII white space) and \<open>strings.TrimRight(s, "/")\<close>\<close>

definition is_space :: "char \<Rightarrow> bool" where
  "is_space c = (c \<in> {CHR 0x20, CHR 0x09, CHR 0x0A, CHR 0x0B, CHR 0x0C, CHR 0x0D})"

definition trim_right_by :: "(char \<Rightarrow> bool) \<Rightarrow> string \<Rightarrow> string" where
  "trim_right_by p s = rev (dropWhile p (rev s))"

definition trim_space :: "string \<Rightarrow> string" where
  "trim_space s = trim_right_by is_space (dropWhile is_space s)"

lemma dropWhile_id: "list_all (\<lambda>c. \<not> p c) s \<Longrightarrow> dropWhile p s = s"
  by (cases s) auto

lemma trim_space_id: "list_all (\<lambda>c. \<not> is_space c) s \<Longrightarrow> trim_space s = s"
  by (simp add: trim_space_def trim_right_by_def dropWhile_id list_all_rev)

text \<open>\<open>strings.ToUpper\<close> and \<open>strings.EqualFold\<close> on ASCII\<close>

definition upper_char :: "char \<Rightarrow> char" where
  "upper_char c = (if 97 \<le> (of_char c :: nat) \<and> (of_char c :: nat) \<le> 122
     then char_of ((of_char c :: nat) - 32) else c)"

definition to_upper :: "string \<Rightarrow> string" where
  "to_upper s = map upper_char s"

definition equal_fold :: "string \<Rightarrow> string \<Rightarrow> bool" where
  "equal_fold s t = (to_upper s = to_upper t)"

lemma upper_char_idem [simp]: "upper_char (upper_char c) = upper_char c"
  by (auto simp: upper_char_def)

lemma to_upper_idem [simp]: "to_upper (to_upper s) = to_upper s"
  by (simp add: to_upper_def)

lemma equal_fold_upper [simp]: "equal_fold s (to_upper t) = equal_fold s t"
  by (simp add: equal_fold_def)

lemma equal_fold_refl [simp]: "equal_fold s s"
  by (simp add: equal_fold_def)

text \<open>\<open>strings.ReplaceAll\<close> of one byte by another\<close>

definition replace_char :: "char \<Rightarrow> char \<Rightarrow> string \<Rightarrow> string" where
  "replace_char a b s = map (\<lambda>c. if c = a then b else c) s"

section \<open>Package strconv\<close>

definition digit_val :: "char \<Rightarrow> nat option" where
  "digit_val c = (let n = (of_char c :: nat) in if 48 \<le> n \<and> n \<le> 57 then Some (n - 48) else None)"

definition is_digit :: "char \<Rightarrow> bool" where
  "is_digit c = (digit_val c \<noteq> None)"

definition digit_char :: "nat \<Rightarrow> char" where
  "digit_char n = char_of (48 + n)"

lemma digit_val_digit_char [simp]: "n < 10 \<Longrightarrow> digit_val (digit_char n) = Some n"
  by (simp add: digit_val_def digit_char_def)

text \<open>\<open>strconv.Itoa\<close> and \<open>%d\<close>\<close>

function dec_digits :: "int \<Rightarrow> string" where
  "dec_digits n =
     (if n < 10 then [digit_char (nat n)]
      else dec_digits (n div 10) @ [digit_char (nat (n mod 10))])"
  by pat_completeness auto
termination
  by (relation "measure nat") auto

declare dec_digits.simps [simp del]

definition itoa :: "int \<Rightarrow> string" where
  "itoa i = (if i < 0 then CHR ''-'' # dec_digits (- i) else dec_digits i)"

definition utoa :: "uint64 \<Rightarrow> string" where
  "utoa v = dec_digits (uint v)"

text \<open>
  \<open>strconv.Atoi\<close>. Go returns a value next to the error: 0 on a syntax error, the nearest
  \<open>int64\<close> on a range error. The accumulation follows \<open>ParseUint\<close>: the overflow of
  64 bits is reported as soon as it happens.
\<close>

datatype num_error = ErrSyntax | ErrRange

fun parse_uint :: "string \<Rightarrow> int \<Rightarrow> num_error + int" where
  "parse_uint [] n = Inr n"
| "parse_uint (c # cs) n =
     (case digit_val c of
        None \<Rightarrow> Inl ErrSyntax
      | Some v \<Rightarrow>
          if 2 ^ 64 \<le> 10 * n + int v then Inl ErrRange else parse_uint cs (10 * n + int v))"

lemma parse_uint_nonneg: "0 \<le> n \<Longrightarrow> parse_uint cs n = Inr m \<Longrightarrow> 0 \<le> m"
  by (induction cs n rule: parse_uint.induct) (auto split: option.splits if_splits)

definition parse_signed :: "bool \<Rightarrow> string \<Rightarrow> int \<times> num_error option" where
  "parse_signed neg ds =
     (let clamp = (if neg then (min_int64, Some ErrRange) else (max_int64, Some ErrRange)) in
      if ds = [] then (0, Some ErrSyntax)
      else case parse_uint ds 0 of
          Inl ErrSyntax \<Rightarrow> (0, Some ErrSyntax)
        | Inl ErrRange \<Rightarrow> clamp
        | Inr n \<Rightarrow>
            if neg then (if 2 ^ 63 < n then clamp else (- n, None))
            else (if 2 ^ 63 \<le> n then clamp else (n, None)))"

definition atoi :: "string \<Rightarrow> int \<times> num_error option" where
  "atoi s =
     (case s of
        [] \<Rightarrow> (0, Some ErrSyntax)
      | c # cs \<Rightarrow>
          if c = CHR ''-'' then parse_signed True cs
          else if c = CHR ''+'' then parse_signed False cs
          else parse_signed False s)"

lemma parse_signed_range:
  "parse_signed neg ds = (i, e) \<Longrightarrow> min_int64 \<le> i \<and> i \<le> max_int64"
  using parse_uint_nonneg [of 0 ds]
  by (fastforce simp: parse_signed_def Let_def min_int64_def max_int64_def
      split: if_splits sum.splits num_error.splits)

lemma atoi_range: "atoi s = (i, e) \<Longrightarrow> min_int64 \<le> i \<and> i \<le> max_int64"
  by (auto simp: atoi_def min_int64_def max_int64_def split: list.splits if_splits
      dest: parse_signed_range [unfolded min_int64_def max_int64_def])

lemma parse_uint_digits:
  "0 \<le> m \<Longrightarrow> m < 2 ^ 64 \<Longrightarrow> parse_uint (dec_digits m @ cs) 0 = parse_uint cs m"
proof (induction m arbitrary: cs rule: dec_digits.induct)
  case (1 m)
  show ?case
  proof (cases "m < 10")
    case True
    then show ?thesis using "1.prems" by (simp add: dec_digits.simps [of m])
  next
    case False
    have small: "0 \<le> m div 10" "m div 10 < 2 ^ 64" using "1.prems" by simp_all
    have whole: "10 * (m div 10) + m mod 10 = m" by simp
    have "parse_uint (dec_digits m @ cs) 0
        = parse_uint (dec_digits (m div 10) @ (digit_char (nat (m mod 10)) # cs)) 0"
      using False by (simp add: dec_digits.simps [of m])
    also have "\<dots> = parse_uint (digit_char (nat (m mod 10)) # cs) (m div 10)"
      by (rule "1.IH" [OF False small])
    also have "\<dots> = parse_uint cs m"
      using "1.prems" whole by (simp add: nat_less_iff del: mult_div_mod_eq)
    finally show ?thesis .
  qed
qed

lemma dec_digits_all_digits: "0 \<le> n \<Longrightarrow> list_all is_digit (dec_digits n)"
proof (induction n rule: dec_digits.induct)
  case (1 n)
  then show ?case
    by (cases "n < 10") (simp_all add: dec_digits.simps [of n] is_digit_def nat_less_iff)
qed

lemma dec_digits_not_Nil [simp]: "dec_digits n \<noteq> []"
  by (subst dec_digits.simps) simp

lemma is_digit_not_sign: "is_digit c \<Longrightarrow> c \<noteq> CHR ''-'' \<and> c \<noteq> CHR ''+'' \<and> \<not> is_space c"
  by (auto simp: is_digit_def digit_val_def is_space_def Let_def)

lemma dec_digits_chars:
  "0 \<le> n \<Longrightarrow> c \<in> set (dec_digits n) \<Longrightarrow> c \<noteq> CHR ''-'' \<and> c \<noteq> CHR ''+'' \<and> \<not> is_space c"
  using dec_digits_all_digits [of n] is_digit_not_sign by (auto simp: list_all_iff)

text \<open>Printing a number and parsing it back gives the number, over the whole range of \<open>int\<close>.\<close>

lemma atoi_dec_digits:
  assumes "0 \<le> m" and "m \<le> max_int64"
  shows "atoi (dec_digits m) = (m, None)"
proof -
  obtain c cs where c: "dec_digits m = c # cs" by (cases "dec_digits m") auto
  then have "c \<noteq> CHR ''-'' \<and> c \<noteq> CHR ''+''"
    using dec_digits_chars [of m c] assms by simp
  moreover have "parse_uint (dec_digits m) 0 = Inr m"
    using parse_uint_digits [of m "[]"] assms by (simp add: max_int64_def)
  ultimately show ?thesis
    using c assms by (simp add: atoi_def parse_signed_def max_int64_def)
qed

lemma atoi_itoa:
  assumes "min_int64 \<le> i" and "i \<le> max_int64"
  shows "atoi (itoa i) = (i, None)"
proof (cases "i < 0")
  case True
  then have "parse_uint (dec_digits (- i)) 0 = Inr (- i)"
    using parse_uint_digits [of "- i" "[]"] assms by (simp add: min_int64_def)
  with True assms show ?thesis
    by (simp add: itoa_def atoi_def parse_signed_def min_int64_def)
next
  case False
  with assms show ?thesis by (simp add: itoa_def atoi_dec_digits)
qed

lemma trim_space_dec_digits: "0 \<le> n \<Longrightarrow> trim_space (dec_digits n) = dec_digits n"
  using dec_digits_chars [of n] by (intro trim_space_id) (auto simp: list_all_iff)

section \<open>Package fmt\<close>

text \<open>\<open>%q\<close> (\<open>strconv.Quote\<close>): the quoted form of a byte string.\<close>

definition hex_char :: "nat \<Rightarrow> char" where
  "hex_char n = (if n < 10 then char_of (48 + n) else char_of (87 + n))"

definition quote_char :: "char \<Rightarrow> string" where
  "quote_char c =
     (let n = (of_char c :: nat) in
      if n = 34 \<or> n = 92 then [CHR 0x5C, c]
      else if n = 7 then [CHR 0x5C, CHR ''a'']
      else if n = 8 then [CHR 0x5C, CHR ''b'']
      else if n = 9 then [CHR 0x5C, CHR ''t'']
      else if n = 10 then [CHR 0x5C, CHR ''n'']
      else if n = 11 then [CHR 0x5C, CHR ''v'']
      else if n = 12 then [CHR 0x5C, CHR ''f'']
      else if n = 13 then [CHR 0x5C, CHR ''r'']
      else if n < 32 \<or> n = 127
      then [CHR 0x5C, CHR ''x'', hex_char (n div 16), hex_char (n mod 16)]
      else [c])"

definition quote :: "string \<Rightarrow> string" where
  "quote s = CHR 0x22 # concat (map quote_char s) @ [CHR 0x22]"

text \<open>The UTF-8 bytes of the dash that the driver's messages use.\<close>

definition dash :: string where
  "dash = [CHR 0xE2, CHR 0x80, CHR 0x94]"

text \<open>
  \<open>time.Duration\<close> is a count of nanoseconds; \<open>%s\<close> prints it with \<open>Duration.String\<close>:
  below a second in the largest unit that leaves an integer part, otherwise hours, minutes
  and seconds, the fraction without trailing zeros.
\<close>

definition second :: int where
  "second = 1000000000"

definition minute :: int where
  "minute = 60 * second"

fun pad_digits :: "nat \<Rightarrow> int \<Rightarrow> string" where
  "pad_digits 0 n = []"
| "pad_digits (Suc k) n = pad_digits k (n div 10) @ [digit_char (nat (n mod 10))]"

definition fraction :: "nat \<Rightarrow> int \<Rightarrow> string" where
  "fraction width n =
     (let ds = trim_right_by (\<lambda>c. c = CHR ''0'') (pad_digits width n)
      in if ds = [] then [] else CHR ''.'' # ds)"

definition duration_abs :: "int \<Rightarrow> string" where
  "duration_abs n =
     (if n = 0 then ''0s''
      else if n < 1000 then dec_digits n @ ''ns''
      else if n < 1000000
      then dec_digits (n div 1000) @ fraction 3 (n mod 1000) @ [CHR 0xC2, CHR 0xB5, CHR ''s'']
      else if n < 1000000000
      then dec_digits (n div 1000000) @ fraction 6 (n mod 1000000) @ ''ms''
      else
        (let t = n div 1000000000;
             secs = dec_digits (t mod 60) @ fraction 9 (n mod 1000000000) @ ''s'';
             mins = (t div 60) mod 60;
             hours = t div 3600
         in if t < 60 then secs
            else if hours = 0 then dec_digits mins @ ''m'' @ secs
            else dec_digits hours @ ''h'' @ dec_digits mins @ ''m'' @ secs))"

definition duration_string :: "int \<Rightarrow> string" where
  "duration_string d = (if d < 0 then CHR ''-'' # duration_abs (- d) else duration_abs d)"

end
