(* ===== verification/GoEffects.thy ===== *)
theory GoEffects
  imports GoString
begin

text \<open>
  Go's error values and the effects of the driver's functions.

  \<^item> \<open>goerr\<close>: an error is a fresh one (\<open>errors.New\<close>, \<open>fmt.Errorf\<close> without \<open>%w\<close>), one
    that wraps another (\<open>fmt.Errorf\<close> with \<open>%w\<close>), or a value made by a library, of which
    the driver can only see the text and whether it implements \<open>net.Error\<close>.
  \<^item> \<open>'a go\<close>: a function with results \<open>(T, error)\<close> returns \<open>Ok\<close> of the value or \<open>Err\<close>; a
    run-time panic is the third constructor.
  \<^item> \<open>('s, 'a) eff\<close>: the state is threaded explicitly; \<open>None\<close> is a call that never returns
    (the loops of \<open>randomFreeVMID\<close> and \<open>WaitForIP\<close>).
  \<^item> \<open>bindE\<close> is the idiom \<open>x, err := f(); if err != nil { return err }\<close>; \<open>attemptE\<close> is a
    call whose error the caller inspects.
\<close>

section \<open>Errors\<close>

datatype goerr =
    ErrorString string
  | WrapError string goerr
  | LibError nat string bool

primrec err_text :: "goerr \<Rightarrow> string" where
  "err_text (ErrorString m) = m"
| "err_text (WrapError m e) = m"
| "err_text (LibError i m b) = m"

text \<open>\<open>errors.As(err, &netErr)\<close> for \<open>var netErr net.Error\<close>: along the chain of wrapped errors.\<close>

primrec is_net_error :: "goerr \<Rightarrow> bool" where
  "is_net_error (ErrorString m) = False"
| "is_net_error (WrapError m e) = is_net_error e"
| "is_net_error (LibError i m b) = b"

text \<open>\<open>fmt.Errorf(pre + "%w" + post, err)\<close>\<close>

definition wrapw :: "string \<Rightarrow> string \<Rightarrow> goerr \<Rightarrow> goerr" where
  "wrapw pre post e = WrapError (pre @ err_text e @ post) e"

lemma err_text_wrapw [simp]: "err_text (wrapw pre post e) = pre @ err_text e @ post"
  by (simp add: wrapw_def)

lemma is_net_error_wrapw [simp]: "is_net_error (wrapw pre post e) = is_net_error e"
  by (simp add: wrapw_def)

definition num_goerr :: "string \<Rightarrow> num_error \<Rightarrow> goerr" where
  "num_goerr s e = ErrorString (''strconv.Atoi: parsing '' @ quote s @ '': '' @
     (case e of ErrSyntax \<Rightarrow> ''invalid syntax'' | ErrRange \<Rightarrow> ''value out of range''))"

section \<open>Results and effects\<close>

datatype 'a go = Ok 'a | Err goerr | Panic string

type_synonym ('s, 'a) eff = "'s \<Rightarrow> ('a go \<times> 's) option"

definition okE :: "'a \<Rightarrow> ('s, 'a) eff" where
  "okE x s = Some (Ok x, s)"

definition errE :: "goerr \<Rightarrow> ('s, 'a) eff" where
  "errE e s = Some (Err e, s)"

definition panicE :: "string \<Rightarrow> ('s, 'a) eff" where
  "panicE m s = Some (Panic m, s)"

definition liftE :: "'a go \<Rightarrow> ('s, 'a) eff" where
  "liftE r s = Some (r, s)"

definition bindE :: "('s, 'a) eff \<Rightarrow> ('a \<Rightarrow> ('s, 'b) eff) \<Rightarrow> ('s, 'b) eff" where
  "bindE m f s =
     (case m s of
        None \<Rightarrow> None
      | Some (r, s') \<Rightarrow>
          (case r of Ok x \<Rightarrow> f x s' | Err e \<Rightarrow> Some (Err e, s') | Panic p \<Rightarrow> Some (Panic p, s')))"

definition attemptE :: "('s, 'a) eff \<Rightarrow> ('s, goerr + 'a) eff" where
  "attemptE m s =
     (case m s of
        None \<Rightarrow> None
      | Some (r, s') \<Rightarrow>
          Some (case r of Ok x \<Rightarrow> Ok (Inr x) | Err e \<Rightarrow> Ok (Inl e) | Panic p \<Rightarrow> Panic p, s'))"

text \<open>\<open>if err != nil { return fmt.Errorf("...: %w", err) }\<close>\<close>

definition mapErrE :: "(goerr \<Rightarrow> goerr) \<Rightarrow> ('s, 'a) eff \<Rightarrow> ('s, 'a) eff" where
  "mapErrE g m s =
     (case m s of
        None \<Rightarrow> None
      | Some (r, s') \<Rightarrow> Some (case r of Ok x \<Rightarrow> Ok x | Err e \<Rightarrow> Err (g e) | Panic p \<Rightarrow> Panic p, s'))"

text \<open>Reading and writing the state (the receiver \<open>d *Driver\<close> lives there).\<close>

definition getsE :: "('s \<Rightarrow> 'a) \<Rightarrow> ('s, 'a) eff" where
  "getsE f s = Some (Ok (f s), s)"

definition modifyE :: "('s \<Rightarrow> 's) \<Rightarrow> ('s, unit) eff" where
  "modifyE f s = Some (Ok (), f s)"

lemmas eff_defs = okE_def errE_def panicE_def liftE_def bindE_def attemptE_def mapErrE_def
  getsE_def modifyE_def

lemma bindE_okE [simp]: "bindE (okE x) f = f x"
  by (simp add: fun_eq_iff eff_defs)

lemma bindE_errE [simp]: "bindE (errE e) f = errE e"
  by (simp add: fun_eq_iff eff_defs)

lemma bindE_right [simp]: "bindE m okE = m"
  by (auto simp: fun_eq_iff eff_defs split: option.splits go.splits)

lemma bindE_assoc: "bindE (bindE m f) g = bindE m (\<lambda>x. bindE (f x) g)"
  by (auto simp: fun_eq_iff eff_defs split: option.splits go.splits)

text \<open>Inversion: how a sequence can have ended.\<close>

lemma bindE_SomeE:
  assumes "bindE m f s = Some (r, s')"
  obtains (ok) x t where "m s = Some (Ok x, t)" "f x t = Some (r, s')"
    | (err) e where "m s = Some (Err e, s')" "r = Err e"
    | (panic) p where "m s = Some (Panic p, s')" "r = Panic p"
  using assms by (auto simp: bindE_def split: option.splits go.splits)

lemma bindE_OkE:
  assumes "bindE m f s = Some (Ok y, s')"
  obtains x t where "m s = Some (Ok x, t)" "f x t = Some (Ok y, s')"
  using assms by (auto elim: bindE_SomeE)

lemma bindE_Ok_iff:
  "bindE m f s = Some (Ok y, s') \<longleftrightarrow> (\<exists>x t. m s = Some (Ok x, t) \<and> f x t = Some (Ok y, s'))"
  by (auto simp: bindE_def split: option.splits go.splits)

lemma attemptE_SomeE:
  assumes "attemptE m s = Some (r, s')"
  obtains (ok) x where "m s = Some (Ok x, s')" "r = Ok (Inr x)"
    | (err) e where "m s = Some (Err e, s')" "r = Ok (Inl e)"
    | (panic) p where "m s = Some (Panic p, s')" "r = Panic p"
  using assms by (auto simp: attemptE_def split: option.splits go.splits)

lemma attemptE_OkE:
  assumes "attemptE m s = Some (Ok x, s')"
  obtains (ok) y where "m s = Some (Ok y, s')" "x = Inr y"
    | (err) e where "m s = Some (Err e, s')" "x = Inl e"
  using assms by (auto elim: attemptE_SomeE)

lemma mapErrE_OkE:
  assumes "mapErrE g m s = Some (Ok x, s')"
  obtains "m s = Some (Ok x, s')"
  using assms by (auto simp: mapErrE_def split: option.splits go.splits)

lemma bind_mapErrE_SomeE:
  assumes "bindE (mapErrE g m) f s = Some (r, s')"
  obtains (ok) x t where "m s = Some (Ok x, t)" "f x t = Some (r, s')"
    | (err) e where "m s = Some (Err e, s')" "r = Err (g e)"
    | (panic) p where "m s = Some (Panic p, s')" "r = Panic p"
  using assms by (auto simp: bindE_def mapErrE_def split: option.splits go.splits)

lemma okE_iff [simp]: "okE x s = Some (r, s') \<longleftrightarrow> r = Ok x \<and> s' = s"
  by (auto simp: okE_def)

lemma errE_iff [simp]: "errE e s = Some (r, s') \<longleftrightarrow> r = Err e \<and> s' = s"
  by (auto simp: errE_def)

lemma panicE_iff [simp]: "panicE m s = Some (r, s') \<longleftrightarrow> r = Panic m \<and> s' = s"
  by (auto simp: panicE_def)

lemma liftE_iff [simp]: "liftE x s = Some (r, s') \<longleftrightarrow> x = r \<and> s' = s"
  by (auto simp: liftE_def)

lemma getsE_iff [simp]: "getsE f s = Some (r, s') \<longleftrightarrow> r = Ok (f s) \<and> s' = s"
  by (auto simp: getsE_def)

lemma modifyE_iff [simp]: "modifyE f s = Some (r, s') \<longleftrightarrow> r = Ok () \<and> s' = f s"
  by (auto simp: modifyE_def)

section \<open>What an operation does to the state\<close>

text \<open>
  \<open>keeps R m\<close>: every run of \<open>m\<close> that returns relates its first and last state by \<open>R\<close>. For
  a reflexive and transitive \<open>R\<close> this follows from the steps of \<open>m\<close>, whatever its control
  flow: the locale proves the rules once, its interpretations are the trace relation and the
  frame relation of the model. \<open>ensures m Q\<close>: a returned value satisfies \<open>Q\<close>.
\<close>

definition keeps :: "('s \<Rightarrow> 's \<Rightarrow> bool) \<Rightarrow> ('s, 'a) eff \<Rightarrow> bool" where
  "keeps R m \<longleftrightarrow> (\<forall>s r s'. m s = Some (r, s') \<longrightarrow> R s s')"

definition ensures :: "('s, 'a) eff \<Rightarrow> ('a \<Rightarrow> bool) \<Rightarrow> bool" where
  "ensures m Q \<longleftrightarrow> (\<forall>s x s'. m s = Some (Ok x, s') \<longrightarrow> Q x)"

lemma keepsD: "keeps R m \<Longrightarrow> m s = Some (r, s') \<Longrightarrow> R s s'"
  by (auto simp: keeps_def)

lemma keeps_intro: "(\<And>s r s'. m s = Some (r, s') \<Longrightarrow> R s s') \<Longrightarrow> keeps R m"
  by (auto simp: keeps_def)

lemma keeps_mono: "keeps R m \<Longrightarrow> (\<And>s t. R s t \<Longrightarrow> R' s t) \<Longrightarrow> keeps R' m"
  by (auto simp: keeps_def)

lemma ensuresD: "ensures m Q \<Longrightarrow> m s = Some (Ok x, s') \<Longrightarrow> Q x"
  by (auto simp: ensures_def)

lemma keeps_if [keepsI]:
  "(b \<Longrightarrow> keeps R m) \<Longrightarrow> (\<not> b \<Longrightarrow> keeps R n) \<Longrightarrow> keeps R (if b then m else n)"
  by simp

lemma keeps_option [keepsI]:
  "(x = None \<Longrightarrow> keeps R m) \<Longrightarrow> (\<And>y. x = Some y \<Longrightarrow> keeps R (f y)) \<Longrightarrow>
   keeps R (case x of None \<Rightarrow> m | Some y \<Rightarrow> f y)"
  by (cases x) auto

lemma keeps_sum [keepsI]:
  "(\<And>e. x = Inl e \<Longrightarrow> keeps R (f e)) \<Longrightarrow> (\<And>y. x = Inr y \<Longrightarrow> keeps R (g y)) \<Longrightarrow>
   keeps R (case x of Inl e \<Rightarrow> f e | Inr y \<Rightarrow> g y)"
  by (cases x) auto

lemma keeps_prod [keepsI]:
  "(\<And>a b. x = (a, b) \<Longrightarrow> keeps R (f a b)) \<Longrightarrow> keeps R (case x of (a, b) \<Rightarrow> f a b)"
  by (cases x) auto

lemma keeps_let [keepsI]: "(\<And>x. x = a \<Longrightarrow> keeps R (f x)) \<Longrightarrow> keeps R (let x = a in f x)"
  by simp

locale step_rel =
  fixes R :: "'s \<Rightarrow> 's \<Rightarrow> bool"
  assumes R_refl: "R s s"
    and R_trans: "R s t \<Longrightarrow> R t u \<Longrightarrow> R s u"
begin

lemma keeps_okE: "keeps R (okE x)"
  by (simp add: keeps_def okE_def R_refl)

lemma keeps_errE: "keeps R (errE e)"
  by (simp add: keeps_def errE_def R_refl)

lemma keeps_panicE: "keeps R (panicE m)"
  by (simp add: keeps_def panicE_def R_refl)

lemma keeps_liftE: "keeps R (liftE r)"
  by (simp add: keeps_def liftE_def R_refl)

lemma keeps_getsE: "keeps R (getsE f)"
  by (simp add: keeps_def getsE_def R_refl)

lemma keeps_bindE:
  assumes m: "keeps R m" and f: "\<And>x. keeps R (f x)"
  shows "keeps R (bindE m f)"
proof (rule keeps_intro)
  fix s r s'
  assume "bindE m f s = Some (r, s')"
  then show "R s s'"
  proof (cases rule: bindE_SomeE)
    case (ok x t)
    show ?thesis by (rule R_trans [OF keepsD [OF m ok(1)] keepsD [OF f ok(2)]])
  qed (auto dest: keepsD [OF m])
qed

text \<open>The same when the continuation may rely on what the first operation returns.\<close>

lemma keeps_bindE_ensures:
  assumes m: "keeps R m" and Q: "ensures m Q" and f: "\<And>x. Q x \<Longrightarrow> keeps R (f x)"
  shows "keeps R (bindE m f)"
proof (rule keeps_intro)
  fix s r s'
  assume "bindE m f s = Some (r, s')"
  then show "R s s'"
  proof (cases rule: bindE_SomeE)
    case (ok x t)
    have fx: "keeps R (f x)" by (rule f) (rule ensuresD [OF Q ok(1)])
    show ?thesis by (rule R_trans [OF keepsD [OF m ok(1)] keepsD [OF fx ok(2)]])
  qed (auto dest: keepsD [OF m])
qed

lemma keeps_attemptE:
  assumes m: "keeps R m"
  shows "keeps R (attemptE m)"
proof (rule keeps_intro)
  fix s r s'
  assume "attemptE m s = Some (r, s')"
  then show "R s s'"
    by (cases rule: attemptE_SomeE) (rule keepsD [OF m], assumption)+
qed

lemma keeps_mapErrE:
  assumes m: "keeps R m"
  shows "keeps R (mapErrE g m)"
proof (rule keeps_intro)
  fix s r s'
  assume "mapErrE g m s = Some (r, s')"
  then obtain q where "m s = Some (q, s')"
    by (auto simp: mapErrE_def split: option.splits)
  then show "R s s'" by (rule keepsD [OF m])
qed

lemmas keeps_basic = keeps_okE keeps_errE keeps_panicE keeps_liftE keeps_getsE keeps_bindE
  keeps_attemptE keeps_mapErrE

end

lemma ensures_okE: "Q x \<Longrightarrow> ensures (okE x) Q"
  by (simp add: ensures_def okE_def)

lemma ensures_errE: "ensures (errE e) Q"
  by (simp add: ensures_def errE_def)

lemma ensures_bindE: "(\<And>x. ensures (f x) Q) \<Longrightarrow> ensures (bindE m f) Q"
  unfolding ensures_def by (blast elim: bindE_OkE)

lemma ensures_mapErrE: "ensures m Q \<Longrightarrow> ensures (mapErrE g m) Q"
  unfolding ensures_def by (blast elim: mapErrE_OkE)

section \<open>Operations that return\<close>

text \<open>\<open>proper m\<close>: \<open>m\<close> always returns, with a value or an error, and never panics.\<close>

definition proper :: "('s, 'a) eff \<Rightarrow> bool" where
  "proper m \<longleftrightarrow> (\<forall>s. \<exists>r s'. m s = Some (r, s') \<and> (\<forall>p. r \<noteq> Panic p))"

named_theorems properI "operations that always return and never panic"

lemma properE:
  assumes "proper m"
  obtains (ok) x s' where "m s = Some (Ok x, s')" | (err) e s' where "m s = Some (Err e, s')"
  using assms unfolding proper_def by (metis go.exhaust)

lemma proper_okE [properI]: "proper (okE x)"
  by (simp add: proper_def okE_def)

lemma proper_errE [properI]: "proper (errE e)"
  by (simp add: proper_def errE_def)

lemma proper_getsE [properI]: "proper (getsE f)"
  by (simp add: proper_def getsE_def)

lemma proper_modifyE [properI]: "proper (modifyE f)"
  by (simp add: proper_def modifyE_def)

lemma proper_bindE_ensures:
  assumes m: "proper m" and Q: "ensures m Q" and f: "\<And>x. Q x \<Longrightarrow> proper (f x)"
  shows "proper (bindE m f)"
  unfolding proper_def
proof
  fix s
  show "\<exists>r s'. bindE m f s = Some (r, s') \<and> (\<forall>p. r \<noteq> Panic p)"
  proof (cases rule: properE [OF m, of s, case_names ok err])
    case (ok x t)
    then show ?thesis using f [OF ensuresD [OF Q ok]] by (simp add: bindE_def proper_def)
  next
    case (err e t)
    then show ?thesis by (simp add: bindE_def)
  qed
qed

lemma ensures_True: "ensures m (\<lambda>_. True)"
  by (simp add: ensures_def)

lemma proper_bindE [properI]: "proper m \<Longrightarrow> (\<And>x. proper (f x)) \<Longrightarrow> proper (bindE m f)"
  by (rule proper_bindE_ensures [OF _ ensures_True])

lemma proper_attemptE [properI]:
  assumes "proper m"
  shows "proper (attemptE m)"
  unfolding proper_def
proof
  fix s
  show "\<exists>r s'. attemptE m s = Some (r, s') \<and> (\<forall>p. r \<noteq> Panic p)"
    by (cases rule: properE [OF assms, of s, case_names ok err]) (simp_all add: attemptE_def)
qed

lemma proper_mapErrE [properI]:
  assumes "proper m"
  shows "proper (mapErrE g m)"
  unfolding proper_def
proof
  fix s
  show "\<exists>r s'. mapErrE g m s = Some (r, s') \<and> (\<forall>p. r \<noteq> Panic p)"
    by (cases rule: properE [OF assms, of s, case_names ok err]) (simp_all add: mapErrE_def)
qed

lemma proper_if [properI]:
  "(b \<Longrightarrow> proper m) \<Longrightarrow> (\<not> b \<Longrightarrow> proper n) \<Longrightarrow> proper (if b then m else n)"
  by simp

lemma proper_option [properI]:
  "(x = None \<Longrightarrow> proper m) \<Longrightarrow> (\<And>y. x = Some y \<Longrightarrow> proper (f y)) \<Longrightarrow>
   proper (case x of None \<Rightarrow> m | Some y \<Rightarrow> f y)"
  by (cases x) auto

lemma proper_sum [properI]:
  "(\<And>e. x = Inl e \<Longrightarrow> proper (f e)) \<Longrightarrow> (\<And>y. x = Inr y \<Longrightarrow> proper (g y)) \<Longrightarrow>
   proper (case x of Inl e \<Rightarrow> f e | Inr y \<Rightarrow> g y)"
  by (cases x) auto

lemma proper_prod [properI]:
  "(\<And>a b. x = (a, b) \<Longrightarrow> proper (f a b)) \<Longrightarrow> proper (case x of (a, b) \<Rightarrow> f a b)"
  by (cases x) auto

lemma proper_let [properI]: "(\<And>x. x = a \<Longrightarrow> proper (f x)) \<Longrightarrow> proper (let x = a in f x)"
  by simp


section \<open>Operations that do not panic\<close>

text \<open>\<open>calm m\<close>: no run of \<open>m\<close> that returns is a panic; \<open>m\<close> may run forever.\<close>

definition calm :: "('s, 'a) eff \<Rightarrow> bool" where
  "calm m \<longleftrightarrow> (\<forall>s r s' p. m s = Some (r, s') \<longrightarrow> r \<noteq> Panic p)"

named_theorems calmI "operations that never panic"

lemma calmD: "calm m \<Longrightarrow> m s \<noteq> Some (Panic p, s')"
  unfolding calm_def by blast

lemma proper_calm: "proper m \<Longrightarrow> calm m"
  unfolding proper_def calm_def by (metis option.inject prod.inject)

lemma proper_no_panic: "proper m \<Longrightarrow> m s \<noteq> Some (Panic p, s')"
  by (rule calmD [OF proper_calm])

lemma calm_bindE_ensures:
  "calm m \<Longrightarrow> ensures m Q \<Longrightarrow> (\<And>x. Q x \<Longrightarrow> calm (f x)) \<Longrightarrow> calm (bindE m f)"
  unfolding calm_def ensures_def by (blast elim: bindE_SomeE)

lemma calm_bindE [calmI]: "calm m \<Longrightarrow> (\<And>x. calm (f x)) \<Longrightarrow> calm (bindE m f)"
  by (rule calm_bindE_ensures [OF _ ensures_True])

lemma calm_okE [calmI]: "calm (okE x)"
  by (simp add: calm_def)

lemma calm_errE [calmI]: "calm (errE e)"
  by (simp add: calm_def)

lemma calm_getsE [calmI]: "calm (getsE f)"
  by (simp add: calm_def)

lemma calm_modifyE [calmI]: "calm (modifyE f)"
  by (simp add: calm_def)

lemma calm_attemptE [calmI]: "calm m \<Longrightarrow> calm (attemptE m)"
  unfolding calm_def by (blast elim: attemptE_SomeE)

lemma calm_mapErrE [calmI]: "calm m \<Longrightarrow> calm (mapErrE g m)"
  by (auto simp: calm_def mapErrE_def split: option.splits go.splits)

lemma calm_if [calmI]: "(b \<Longrightarrow> calm m) \<Longrightarrow> (\<not> b \<Longrightarrow> calm n) \<Longrightarrow> calm (if b then m else n)"
  by simp

lemma calm_option [calmI]:
  "(x = None \<Longrightarrow> calm m) \<Longrightarrow> (\<And>y. x = Some y \<Longrightarrow> calm (f y)) \<Longrightarrow>
   calm (case x of None \<Rightarrow> m | Some y \<Rightarrow> f y)"
  by (cases x) auto

lemma calm_sum [calmI]:
  "(\<And>e. x = Inl e \<Longrightarrow> calm (f e)) \<Longrightarrow> (\<And>y. x = Inr y \<Longrightarrow> calm (g y)) \<Longrightarrow>
   calm (case x of Inl e \<Rightarrow> f e | Inr y \<Rightarrow> g y)"
  by (cases x) auto

lemma calm_prod [calmI]: "(\<And>a b. x = (a, b) \<Longrightarrow> calm (f a b)) \<Longrightarrow> calm (case x of (a, b) \<Rightarrow> f a b)"
  by (cases x) auto

lemma calm_let [calmI]: "(\<And>x. x = a \<Longrightarrow> calm (f x)) \<Longrightarrow> calm (let x = a in f x)"
  by simp


section \<open>Concrete runs\<close>

text \<open>How a run that has been evaluated is used: its final state is named, not computed.\<close>

definition fails :: "('a go \<times> 's) option \<Rightarrow> bool" where
  "fails x = (case x of Some (Err e, s') \<Rightarrow> True | _ \<Rightarrow> False)"

lemma run_ends: "map_option fst x = Some r \<Longrightarrow> \<exists>s'. x = Some (r, s')"
  by auto

lemma run_fails: "fails x \<Longrightarrow> \<exists>e s'. x = Some (Err e, s')"
  by (auto simp: fails_def split: option.splits go.splits)

end
