(* ===== verification/Api.thy ===== *)
theory Api
  imports GoEffects
begin

text \<open>
  The interface to the code the driver calls but does not contain: the client library
  \<open>go-proxmox\<close> with the PVE server behind it, \<open>rancher/machine\<close>, and the parts of Go's
  runtime whose results are not determined by the program (random numbers, the clock, TCP).

  All of it is one parameter, the record \<open>'w px\<close>: each field is a call, which reads and
  changes an arbitrary world of type \<open>'w\<close>. Nothing is assumed about these functions; the
  world may also contain other driver processes and other users of the PVE cluster, whose
  activity between two calls is part of what a call does to the world. Where a theorem needs
  a documented behaviour (a random number is in its range), it is a hypothesis of the theorem.

  Every call also appends an event to a trace, a record of what the driver asked for. The
  trace is not visible to the model's operations; the safety theorems are about it.
\<close>

section \<open>Data of the client library that the driver reads\<close>

text \<open>
  \<open>proxmox.VirtualMachineConfig\<close>: a Go map is the list of its entries in the order in
  which a \<open>range\<close> loop meets them, which Go does not determine.
\<close>

record vm_config =
  cfg_agent :: string
  cfg_boot :: string
  cfg_nets :: "(string \<times> string) list"
  cfg_ides :: "(string \<times> string) list"
  cfg_scsis :: "(string \<times> string) list"
  cfg_satas :: "(string \<times> string) list"
  cfg_virtios :: "(string \<times> string) list"

record vm =
  vm_vmid :: uint64
  vm_name :: string
  vm_node :: string
  vm_status :: string
  vm_lock :: string
  vm_template :: bool
  vm_tags :: string
  vm_config :: "vm_config option"

record task =
  task_upid :: string
  task_is_failed :: bool
  task_exit_status :: string

record clone_options =
  co_newid :: int
  co_name :: string
  co_full :: bool
  co_pool :: string
  co_storage :: string
  co_target :: string

datatype opt_value = VInt int | VStr string

record vm_option =
  opt_name :: string
  opt_value :: opt_value

record delete_options =
  do_purge :: bool
  do_unreferenced :: bool

record agent_address =
  aa_type :: string
  aa_address :: string

record agent_iface =
  ai_hwaddr :: string
  ai_addresses :: "agent_address list"

type_synonym permissions = "(string \<times> (string \<times> bool) list) list"

text \<open>\<open>int(vm.VMID)\<close>: the conversion of a \<open>uint64\<close> keeps the 64 bits.\<close>

definition vm_id :: "vm \<Rightarrow> int" where
  "vm_id v = sint (vm_vmid v)"

text \<open>The rows of the three raw GET requests (package pve declares their types).\<close>

record vm_resource =
  res_vmid :: uint64
  res_name :: string
  res_node :: string
  res_type :: string
  res_status :: string
  res_template :: int

record storage_row =
  sr_storage :: string
  sr_type :: string
  sr_content :: string
  sr_shared :: int
  sr_active :: int

record network_row =
  nr_iface :: string
  nr_type :: string

text \<open>The handle made by \<open>proxmox.NewClient(base, opts...)\<close>.\<close>

datatype client_opt = WithAPIToken string string | WithTimeout int | WithRootCAs string
  | WithInsecureSkipVerify

record client =
  cl_base :: string
  cl_opts :: "client_opt list"

section \<open>Events\<close>

datatype event =
    EVersion | EPermissions | EResources | EStorages string | ENetworks string
  | ENode string | EGetVM string int
  | EClone vm clone_options | EConfig vm "vm_option list" | EResize vm string string
  | EStart vm | EShutdown vm | EStop vm | EReboot vm | EDelete vm delete_options
  | EPing vm | EAgent vm | EWait string int
  | EDial string | ESleep int | ENow | ERand int
  | EKeyGen string | EReadFile string

text \<open>The calls that change the PVE cluster.\<close>

fun mutating :: "event \<Rightarrow> bool" where
  "mutating (EClone v opts) = True"
| "mutating (EConfig v opts) = True"
| "mutating (EResize v disk s) = True"
| "mutating (EStart v) = True"
| "mutating (EShutdown v) = True"
| "mutating (EStop v) = True"
| "mutating (EReboot v) = True"
| "mutating (EDelete v opts) = True"
| "mutating _ = False"

section \<open>The parameter record and the state\<close>

record 'w px =
  px_version :: "client \<Rightarrow> 'w \<Rightarrow> (goerr + string) \<times> 'w"
  px_permissions :: "client \<Rightarrow> 'w \<Rightarrow> (goerr + permissions) \<times> 'w"
  px_resources :: "client \<Rightarrow> 'w \<Rightarrow> (goerr + vm_resource list) \<times> 'w"
  px_storages :: "client \<Rightarrow> string \<Rightarrow> 'w \<Rightarrow> (goerr + storage_row list) \<times> 'w"
  px_networks :: "client \<Rightarrow> string \<Rightarrow> 'w \<Rightarrow> (goerr + network_row list) \<times> 'w"
  px_node :: "client \<Rightarrow> string \<Rightarrow> 'w \<Rightarrow> (goerr + unit) \<times> 'w"
  px_vm :: "client \<Rightarrow> string \<Rightarrow> int \<Rightarrow> 'w \<Rightarrow> (goerr + vm) \<times> 'w"
  px_clone :: "vm \<Rightarrow> clone_options \<Rightarrow> 'w \<Rightarrow> (goerr + (int \<times> task option)) \<times> 'w"
  px_config :: "vm \<Rightarrow> vm_option list \<Rightarrow> 'w \<Rightarrow> (goerr + task option) \<times> 'w"
  px_resize :: "vm \<Rightarrow> string \<Rightarrow> string \<Rightarrow> 'w \<Rightarrow> (goerr + task option) \<times> 'w"
  px_start :: "vm \<Rightarrow> 'w \<Rightarrow> (goerr + task option) \<times> 'w"
  px_shutdown :: "vm \<Rightarrow> 'w \<Rightarrow> (goerr + task option) \<times> 'w"
  px_stop :: "vm \<Rightarrow> 'w \<Rightarrow> (goerr + task option) \<times> 'w"
  px_reboot :: "vm \<Rightarrow> 'w \<Rightarrow> (goerr + task option) \<times> 'w"
  px_delete :: "vm \<Rightarrow> delete_options \<Rightarrow> 'w \<Rightarrow> (goerr + task option) \<times> 'w"
  px_ping :: "vm \<Rightarrow> 'w \<Rightarrow> (goerr + vm) \<times> 'w"
  px_agent :: "vm \<Rightarrow> 'w \<Rightarrow> (goerr + agent_iface list) \<times> 'w"
  px_wait :: "task \<Rightarrow> int \<Rightarrow> int \<Rightarrow> 'w \<Rightarrow> (goerr + task) \<times> 'w"
  px_has_tag :: "vm \<Rightarrow> string \<Rightarrow> bool"
  px_is_not_found :: "goerr \<Rightarrow> bool"
  px_is_timeout :: "goerr \<Rightarrow> bool"
  px_is_not_authorized :: "goerr \<Rightarrow> bool"
  px_encode_ssh_keys :: "string \<Rightarrow> string"
  rt_append_certs :: "string \<Rightarrow> bool"
  rt_intn :: "int \<Rightarrow> 'w \<Rightarrow> int \<times> 'w"
  rt_sleep :: "int \<Rightarrow> 'w \<Rightarrow> goerr option \<times> 'w"
  rt_now :: "'w \<Rightarrow> int \<times> 'w"
  rt_dial :: "string \<Rightarrow> int \<Rightarrow> 'w \<Rightarrow> (goerr + unit) \<times> 'w"
  rt_keygen :: "string \<Rightarrow> 'w \<Rightarrow> (goerr + unit) \<times> 'w"
  rt_read_file :: "string \<Rightarrow> 'w \<Rightarrow> (goerr + string) \<times> 'w"
  bd_ssh_key_path :: "string \<Rightarrow> string \<Rightarrow> 'w \<Rightarrow> string \<times> 'w"
  bd_ssh_username :: "string \<Rightarrow> string"

record 'w st =
  world :: 'w
  trace :: "event list"

text \<open>A call: the library's answer, and the event in the trace.\<close>

definition of_sum :: "goerr + 'a \<Rightarrow> 'a go" where
  "of_sum r = (case r of Inl e \<Rightarrow> Err e | Inr x \<Rightarrow> Ok x)"

definition callE ::
  "event \<Rightarrow> ('w \<Rightarrow> (goerr + 'a) \<times> 'w) \<Rightarrow> (('w, 'x) st_scheme, 'a) eff" where
  "callE ev f s =
     (case f (world s) of (r, w) \<Rightarrow>
        Some (of_sum r, s\<lparr>world := w, trace := trace s @ [ev]\<rparr>))"

definition drawE :: "event \<Rightarrow> ('w \<Rightarrow> 'a \<times> 'w) \<Rightarrow> (('w, 'x) st_scheme, 'a) eff" where
  "drawE ev f s =
     (case f (world s) of (x, w) \<Rightarrow> Some (Ok x, s\<lparr>world := w, trace := trace s @ [ev]\<rparr>))"

text \<open>
  A call that asks nothing of PVE or of the runtime but may keep something of its own:
  \<open>BaseDriver.GetSSHKeyPath\<close> returns a path it has stored before, or stores the default one.
  What it stores is a part of the world, and the call leaves no event.
\<close>

definition quietE :: "('w \<Rightarrow> 'a \<times> 'w) \<Rightarrow> (('w, 'x) st_scheme, 'a) eff" where
  "quietE f s = (case f (world s) of (x, w) \<Rightarrow> Some (Ok x, s\<lparr>world := w\<rparr>))"

text \<open>
  \<open>math/rand\<close>: \<open>Intn\<close> and \<open>Int63n\<close> panic unless the bound is positive; \<open>select\<close> on
  \<open>ctx.Done()\<close> and \<open>time.After(d)\<close> gives \<open>Some (ctx.Err())\<close> when the context ends first.
\<close>

definition intnE :: "'w px \<Rightarrow> int \<Rightarrow> (('w, 'x) st_scheme, int) eff" where
  "intnE P n = (if n \<le> 0 then panicE ''invalid argument to Intn'' else drawE (ERand n) (rt_intn P n))"

definition int63nE :: "'w px \<Rightarrow> int \<Rightarrow> (('w, 'x) st_scheme, int) eff" where
  "int63nE P n = (if n \<le> 0 then panicE ''invalid argument to Int63n'' else drawE (ERand n) (rt_intn P n))"

definition sleepE :: "'w px \<Rightarrow> int \<Rightarrow> (('w, 'x) st_scheme, goerr option) eff" where
  "sleepE P d = drawE (ESleep d) (rt_sleep P d)"

definition nowE :: "'w px \<Rightarrow> (('w, 'x) st_scheme, int) eff" where
  "nowE P = drawE ENow (rt_now P)"

lemmas call_defs = callE_def drawE_def intnE_def int63nE_def sleepE_def nowE_def
  of_sum_def

text \<open>The documented range of the random numbers, as the hypothesis theorems name.\<close>

definition rand_in_range :: "'w px \<Rightarrow> bool" where
  "rand_in_range P \<longleftrightarrow>
     (\<forall>n w. 0 < n \<longrightarrow> 0 \<le> fst (rt_intn P n w) \<and> fst (rt_intn P n w) < n)"

lemma rand_in_rangeD: "rand_in_range P \<Longrightarrow> 0 < n \<Longrightarrow> rt_intn P n w = (k, w') \<Longrightarrow> 0 \<le> k \<and> k < n"
  unfolding rand_in_range_def by (metis fst_conv)

lemma callE_SomeE:
  assumes "callE ev f s = Some (r, s')"
  obtains a w where "f (world s) = (a, w)" "r = of_sum a"
    "s' = s\<lparr>world := w, trace := trace s @ [ev]\<rparr>"
  using assms by (auto simp: callE_def split: prod.splits)

lemma drawE_SomeE:
  assumes "drawE ev f s = Some (r, s')"
  obtains a w where "f (world s) = (a, w)" "r = Ok a"
    "s' = s\<lparr>world := w, trace := trace s @ [ev]\<rparr>"
  using assms by (auto simp: drawE_def split: prod.splits)

lemma quietE_SomeE:
  assumes "quietE f s = Some (r, s')"
  obtains a w where "f (world s) = (a, w)" "r = Ok a" "s' = s\<lparr>world := w\<rparr>"
  using assms by (auto simp: quietE_def split: prod.splits)

lemma of_sum_eqs [simp]:
  "of_sum (Inl e) = Err e" "of_sum (Inr x) = Ok x"
  "(of_sum a = Ok x) = (a = Inr x)" "(of_sum a = Err e) = (a = Inl e)"
  "of_sum a \<noteq> Panic p" "Panic p \<noteq> of_sum a"
  "(Ok x = of_sum a) = (a = Inr x)" "(Err e = of_sum a) = (a = Inl e)"
  by (auto simp: of_sum_def split: sum.splits)

section \<open>The two relations between states\<close>

text \<open>
  \<open>emits A\<close>: the trace only grows, by events that satisfy \<open>A\<close>. \<open>same_ext\<close>: the part of the
  state beyond world and trace (the driver's own fields, theory \<open>Driver\<close>) is unchanged.
\<close>

definition emits :: "(event \<Rightarrow> bool) \<Rightarrow> ('w, 'x) st_scheme \<Rightarrow> ('w, 'x) st_scheme \<Rightarrow> bool" where
  "emits A s s' \<longleftrightarrow> (\<exists>evs. trace s' = trace s @ evs \<and> list_all A evs)"

definition same_ext :: "('w, 'x) st_scheme \<Rightarrow> ('w, 'x) st_scheme \<Rightarrow> bool" where
  "same_ext s s' \<longleftrightarrow> st.more s' = st.more s"

interpretation emits: step_rel "emits A" for A
proof unfold_locales
  show "emits A s s" for s :: "('a, 'b) st_scheme"
    by (simp add: emits_def)
  show "emits A s t \<Longrightarrow> emits A t u \<Longrightarrow> emits A s u" for s t u :: "('a, 'b) st_scheme"
    by (auto simp: emits_def)
qed

interpretation frame: step_rel same_ext
  by unfold_locales (auto simp: same_ext_def)

lemma emits_mono: "emits A s t \<Longrightarrow> (\<And>e. A e \<Longrightarrow> B e) \<Longrightarrow> emits B s t"
  by (auto simp: emits_def list_all_iff)

lemma keeps_emits_mono: "keeps (emits A) m \<Longrightarrow> (\<And>e. A e \<Longrightarrow> B e) \<Longrightarrow> keeps (emits B) m"
  unfolding keeps_def by (blast intro: emits_mono)

lemma keeps_emits_callE: "A ev \<Longrightarrow> keeps (emits A) (callE ev f)"
  by (rule keeps_intro) (auto simp: emits_def elim!: callE_SomeE)

lemma keeps_emits_drawE: "A ev \<Longrightarrow> keeps (emits A) (drawE ev f)"
  by (rule keeps_intro) (auto simp: emits_def elim!: drawE_SomeE)

lemma keeps_quietE: "keeps (emits A) (quietE f)" "keeps same_ext (quietE f)"
  by (rule keeps_intro; auto simp: emits_def same_ext_def elim!: quietE_SomeE)+

lemma keeps_frame_callE: "keeps same_ext (callE ev f)"
  by (rule keeps_intro) (auto simp: same_ext_def elim!: callE_SomeE)

lemma keeps_frame_drawE: "keeps same_ext (drawE ev f)"
  by (rule keeps_intro) (auto simp: same_ext_def elim!: drawE_SomeE)

lemma keeps_emits_intnE: "A (ERand n) \<Longrightarrow> keeps (emits A) (intnE P n)"
  by (simp add: intnE_def emits.keeps_panicE keeps_emits_drawE)

lemma keeps_emits_int63nE: "A (ERand n) \<Longrightarrow> keeps (emits A) (int63nE P n)"
  by (simp add: int63nE_def emits.keeps_panicE keeps_emits_drawE)

lemma keeps_emits_sleepE: "A (ESleep d) \<Longrightarrow> keeps (emits A) (sleepE P d)"
  by (simp add: sleepE_def keeps_emits_drawE)

lemma keeps_emits_nowE: "A ENow \<Longrightarrow> keeps (emits A) (nowE P)"
  by (simp add: nowE_def keeps_emits_drawE)

lemma keeps_frame_intnE: "keeps same_ext (intnE P n)"
  by (simp add: intnE_def frame.keeps_panicE keeps_frame_drawE)

lemma keeps_frame_int63nE: "keeps same_ext (int63nE P n)"
  by (simp add: int63nE_def frame.keeps_panicE keeps_frame_drawE)

lemma keeps_frame_sleepE: "keeps same_ext (sleepE P d)"
  by (simp add: sleepE_def keeps_frame_drawE)

lemma keeps_frame_nowE: "keeps same_ext (nowE P)"
  by (simp add: nowE_def keeps_frame_drawE)

lemmas [keepsI] = emits.keeps_basic frame.keeps_basic
  keeps_emits_callE keeps_emits_drawE keeps_emits_intnE keeps_emits_int63nE
  keeps_emits_sleepE keeps_emits_nowE
  keeps_frame_callE keeps_frame_drawE keeps_frame_intnE keeps_frame_int63nE
  keeps_frame_sleepE keeps_frame_nowE keeps_quietE

text \<open>What \<open>emits\<close> says of the events that do not satisfy a predicate: there are none.\<close>

lemma emits_filter:
  "emits (\<lambda>e. \<not> B e) s s' \<Longrightarrow> filter B (trace s') = filter B (trace s)"
  by (auto simp: emits_def filter_empty_if)

section \<open>Calls always return\<close>

lemma proper_callE [properI]: "proper (callE ev f)"
  by (simp add: proper_def callE_def split: prod.split)

lemma proper_quietE [properI]: "proper (quietE f)"
  by (simp add: proper_def quietE_def split: prod.split)

lemma proper_drawE [properI]: "proper (drawE ev f)"
  by (simp add: proper_def drawE_def split: prod.split)

lemma proper_sleepE [properI]: "proper (sleepE P d)"
  by (simp add: sleepE_def proper_drawE)

lemma proper_nowE [properI]: "proper (nowE P)"
  by (simp add: nowE_def proper_drawE)

lemma proper_intnE [properI]: "0 < n \<Longrightarrow> proper (intnE P n)"
  by (simp add: intnE_def proper_drawE)

lemma proper_int63nE [properI]: "0 < n \<Longrightarrow> proper (int63nE P n)"
  by (simp add: int63nE_def proper_drawE)

section \<open>Counting events\<close>

text \<open>\<open>grew B n\<close>: the trace grew, with at most \<open>n\<close> events that satisfy \<open>B\<close>.\<close>

definition grew :: "(event \<Rightarrow> bool) \<Rightarrow> nat \<Rightarrow> ('w, 'x) st_scheme \<Rightarrow> ('w, 'x) st_scheme \<Rightarrow> bool" where
  "grew B n s s' \<longleftrightarrow> (\<exists>evs. trace s' = trace s @ evs \<and> length (filter B evs) \<le> n)"

lemma grew_refl: "grew B n s s"
  by (simp add: grew_def)

lemma grew_trans: "grew B i s t \<Longrightarrow> grew B j t u \<Longrightarrow> grew B (i + j) s u"
  by (fastforce simp: grew_def)

lemma grew_mono: "grew B i s t \<Longrightarrow> i \<le> j \<Longrightarrow> grew B j s t"
  by (auto simp: grew_def)

lemma keeps_grew_mono: "keeps (grew B i) m \<Longrightarrow> i \<le> j \<Longrightarrow> keeps (grew B j) m"
  unfolding keeps_def by (blast intro: grew_mono)

lemma keeps_grew_none: "keeps (emits (\<lambda>e. \<not> B e)) m \<Longrightarrow> keeps (grew B 0) m"
  unfolding keeps_def emits_def grew_def by (fastforce simp: filter_empty_if)

lemma keeps_grew_one: "keeps (grew B 1) (callE ev f)"
  by (rule keeps_intro) (auto simp: grew_def elim!: callE_SomeE)

lemma keeps_grew_bindE:
  assumes m: "keeps (grew B i) m" and f: "\<And>x. keeps (grew B j) (f x)"
  shows "keeps (grew B (i + j)) (bindE m f)"
proof (rule keeps_intro)
  fix s r s'
  assume "bindE m f s = Some (r, s')"
  then show "grew B (i + j) s s'"
  proof (cases rule: bindE_SomeE)
    case (ok x t)
    show ?thesis by (rule grew_trans [OF keepsD [OF m ok(1)] keepsD [OF f ok(2)]])
  qed (auto intro: grew_mono dest: keepsD [OF m])
qed

lemma keeps_grew_attemptE:
  assumes m: "keeps (grew B i) m"
  shows "keeps (grew B i) (attemptE m)"
proof (rule keeps_intro)
  fix s r s'
  assume "attemptE m s = Some (r, s')"
  then show "grew B i s s'"
    by (cases rule: attemptE_SomeE) (rule keepsD [OF m], assumption)+
qed

end
