(* ===== verification/Sim.thy ===== *)
theory Sim
  imports Api
begin

text \<open>
  One concrete environment, a small PVE cluster with a scripted random source, scripted
  failures, VMs that the listing does not show (another user's, or created a moment ago) and a
  clock that advances only by sleeping. The parameter record \<open>sim\<close> is what the
  witnesses instantiate the parameter of the model with; it plays the part of the fake API
  server of the repository's own tests. No property of the driver is proved about it alone.
\<close>

record sim_world =
  sw_vms :: "(int \<times> vm) list"
  sw_clock :: int
  sw_rand :: "int list"
  sw_clone_faults :: "string list"
  sw_task_faults :: "string list"
  sw_agent_faults :: "string list"
  sw_delete_faults :: "string list"
  sw_hidden :: "int list"

definition net_cfg :: vm_config where
  "net_cfg = \<lparr>cfg_agent = ''1'', cfg_boot = ''order=scsi0'',
     cfg_nets = [(''net0'', ''virtio=BC:24:11:2A:00:01,bridge=vmbr0'')],
     cfg_ides = [(''ide2'', ''local-lvm:vm-9000-cloudinit,media=cdrom'')],
     cfg_scsis = [(''scsi0'', ''local-lvm:base-9000-disk-0,size=10G'')],
     cfg_satas = [], cfg_virtios = []\<rparr>"

definition tmpl_vm :: vm where
  "tmpl_vm = \<lparr>vm_vmid = 9000, vm_name = ''ubuntu'', vm_node = ''pve1'', vm_status = ''stopped'',
     vm_lock = [], vm_template = True, vm_tags = [], vm_config = Some net_cfg\<rparr>"

definition other_vm :: vm where
  "other_vm = \<lparr>vm_vmid = 10001, vm_name = ''db'', vm_node = ''pve1'', vm_status = ''running'',
     vm_lock = [], vm_template = False, vm_tags = ''prod'', vm_config = Some net_cfg\<rparr>"

definition owned_vm :: vm where
  "owned_vm = \<lparr>vm_vmid = 10002, vm_name = ''node-1'', vm_node = ''pve1'', vm_status = ''running'',
     vm_lock = [], vm_template = False, vm_tags = ''rancher-pvenode;k8s'', vm_config = Some net_cfg\<rparr>"

definition sim0 :: sim_world where
  "sim0 = \<lparr>sw_vms = [(9000, tmpl_vm), (10001, other_vm), (10002, owned_vm)], sw_clock = 0,
     sw_rand = [], sw_clone_faults = [], sw_task_faults = [], sw_agent_faults = [],
     sw_delete_faults = [], sw_hidden = []\<rparr>"

definition sim_err :: "string \<Rightarrow> goerr" where
  "sim_err m = LibError 1 m False"

definition upd_vm :: "int \<Rightarrow> (vm \<Rightarrow> vm) \<Rightarrow> sim_world \<Rightarrow> sim_world" where
  "upd_vm i f w = w\<lparr>sw_vms := map (\<lambda>(j, v). (j, if i = j then f v else v)) (sw_vms w)\<rparr>"

definition ok_task :: task where
  "ok_task = \<lparr>task_upid = ''UPID:pve1:0000AB12'', task_is_failed = False, task_exit_status = ''OK''\<rparr>"

definition sim_resources :: "sim_world \<Rightarrow> vm_resource list" where
  "sim_resources w = map (\<lambda>(i, v). \<lparr>res_vmid = vm_vmid v, res_name = vm_name v, res_node = vm_node v,
     res_type = ''qemu'', res_status = vm_status v, res_template = (if vm_template v then 1 else 0)\<rparr>)
     (filter (\<lambda>(i, v). i \<notin> set (sw_hidden w)) (sw_vms w))"

definition sim_clone :: "vm \<Rightarrow> clone_options \<Rightarrow> sim_world \<Rightarrow> (goerr + (int \<times> task option)) \<times> sim_world" where
  "sim_clone t opts w =
     (case sw_clone_faults w of
        m # ms \<Rightarrow> (Inl (sim_err m), w\<lparr>sw_clone_faults := ms\<rparr>)
      | [] \<Rightarrow>
          if map_of (sw_vms w) (co_newid opts) \<noteq> None
          then (Inr (co_newid opts, Some ok_task),
                w\<lparr>sw_task_faults := [''unable to create VM: config file already exists'']\<rparr>)
          else (Inr (co_newid opts, Some ok_task),
                w\<lparr>sw_vms := sw_vms w @ [(co_newid opts, t\<lparr>vm_vmid := word_of_int (co_newid opts),
                  vm_name := co_name opts, vm_template := False\<rparr>)]\<rparr>))"

definition sim_config :: "vm \<Rightarrow> vm_option list \<Rightarrow> sim_world \<Rightarrow> (goerr + task option) \<times> sim_world" where
  "sim_config v opts w =
     (Inr (Some ok_task),
      case find (\<lambda>opt. opt_name opt = ''tags'') opts of
        None \<Rightarrow> w
      | Some opt \<Rightarrow> (case opt_value opt of VInt i \<Rightarrow> w
                      | VStr t \<Rightarrow> upd_vm (vm_id v) (\<lambda>u. u\<lparr>vm_tags := t\<rparr>) w))"

definition sim_delete :: "vm \<Rightarrow> delete_options \<Rightarrow> sim_world \<Rightarrow> (goerr + task option) \<times> sim_world" where
  "sim_delete v opts w =
     (case sw_delete_faults w of
        m # ms \<Rightarrow> (Inl (sim_err m), w\<lparr>sw_delete_faults := ms\<rparr>)
      | [] \<Rightarrow> (Inr (Some ok_task), w\<lparr>sw_vms := filter (\<lambda>(i, u). i \<noteq> vm_id v) (sw_vms w)\<rparr>))"

definition sim_agent :: "vm \<Rightarrow> sim_world \<Rightarrow> (goerr + agent_iface list) \<times> sim_world" where
  "sim_agent v w =
     (case sw_agent_faults w of
        m # ms \<Rightarrow> (Inl (sim_err m), w\<lparr>sw_agent_faults := ms\<rparr>)
      | [] \<Rightarrow> (Inr [
          \<lparr>ai_hwaddr = ''02:42:00:00:00:01'', ai_addresses = [\<lparr>aa_type = ''ipv4'', aa_address = ''172.17.0.1''\<rparr>]\<rparr>,
          \<lparr>ai_hwaddr = ''bc:24:11:2a:00:01'', ai_addresses = [
             \<lparr>aa_type = ''ipv6'', aa_address = ''fe80::1''\<rparr>,
             \<lparr>aa_type = ''ipv4'', aa_address = ''169.254.3.4''\<rparr>,
             \<lparr>aa_type = ''ipv4'', aa_address = ''10.0.0.5''\<rparr>]\<rparr>], w))"

definition sim_wait :: "task \<Rightarrow> sim_world \<Rightarrow> (goerr + task) \<times> sim_world" where
  "sim_wait t w =
     (case sw_task_faults w of
        m # ms \<Rightarrow> (Inr (t\<lparr>task_is_failed := True, task_exit_status := m\<rparr>), w\<lparr>sw_task_faults := ms\<rparr>)
      | [] \<Rightarrow> (Inr t, w))"

definition sim_rand :: "int \<Rightarrow> sim_world \<Rightarrow> int \<times> sim_world" where
  "sim_rand n w = (case sw_rand w of [] \<Rightarrow> (0, w) | k # ks \<Rightarrow> (k mod n, w\<lparr>sw_rand := ks\<rparr>))"

definition all_privs :: "string list" where
  "all_privs = [''VM.Clone'', ''VM.Allocate'', ''VM.Audit'', ''VM.PowerMgmt'', ''VM.Config.Disk'',
     ''VM.Config.CPU'', ''VM.Config.Memory'', ''VM.Config.Network'', ''VM.Config.Cloudinit'',
     ''VM.Config.Options'', ''VM.GuestAgent.Audit'', ''Datastore.AllocateSpace'', ''Datastore.Audit'',
     ''SDN.Use'', ''Pool.Allocate'']"

definition set_status :: "string \<Rightarrow> vm \<Rightarrow> sim_world \<Rightarrow> (goerr + task option) \<times> sim_world" where
  "set_status st v w = (Inr (Some ok_task), upd_vm (vm_id v) (\<lambda>u. u\<lparr>vm_status := st\<rparr>) w)"

definition sim :: "sim_world px" where
  "sim = \<lparr>
     px_version = (\<lambda>c w. (Inr ''9.0.3'', w)),
     px_permissions = (\<lambda>c w. (Inr [(''/vms'', map (\<lambda>p. (p, True)) all_privs)], w)),
     px_resources = (\<lambda>c w. (Inr (sim_resources w), w)),
     px_storages = (\<lambda>c path w. (Inr [\<lparr>sr_storage = ''local-lvm'', sr_type = ''lvmthin'',
        sr_content = ''images,rootdir'', sr_shared = 0, sr_active = 1\<rparr>], w)),
     px_networks = (\<lambda>c path w. (Inr [\<lparr>nr_iface = ''vmbr1'', nr_type = ''bridge''\<rparr>,
        \<lparr>nr_iface = ''eno1'', nr_type = ''eth''\<rparr>, \<lparr>nr_iface = ''vmbr0'', nr_type = ''bridge''\<rparr>], w)),
     px_node = (\<lambda>c n w. (Inr (), w)),
     px_vm = (\<lambda>c n i w. (case map_of (sw_vms w) i of
        None \<Rightarrow> Inl (sim_err ''500 Configuration file does not exist'') | Some v \<Rightarrow> Inr (v\<lparr>vm_vmid := word_of_int i\<rparr>), w)),
     px_clone = sim_clone,
     px_config = sim_config,
     px_resize = (\<lambda>v d s w. (Inr (Some ok_task), w)),
     px_start = set_status ''running'',
     px_shutdown = set_status ''stopped'',
     px_stop = set_status ''stopped'',
     px_reboot = set_status ''running'',
     px_delete = sim_delete,
     px_ping = (\<lambda>v w. (case map_of (sw_vms w) (vm_id v) of
        None \<Rightarrow> Inl (sim_err ''500 Configuration file does not exist'') | Some u \<Rightarrow> Inr u, w)),
     px_agent = sim_agent,
     px_wait = (\<lambda>t i timeout w. sim_wait t w),
     px_has_tag = (\<lambda>v t. t \<in> set (split (CHR '';'') (vm_tags v))),
     px_is_not_found = (\<lambda>e. False),
     px_is_timeout = (\<lambda>e. False),
     px_is_not_authorized = (\<lambda>e. False),
     px_encode_ssh_keys = (\<lambda>k. k),
     rt_append_certs = (\<lambda>pem. contains pem ''BEGIN CERTIFICATE''),
     rt_intn = sim_rand,
     rt_sleep = (\<lambda>d w. (None, w\<lparr>sw_clock := sw_clock w + d\<rparr>)),
     rt_now = (\<lambda>w. (sw_clock w, w)),
     rt_dial = (\<lambda>a d w. (Inr (), w)),
     rt_keygen = (\<lambda>p w. (Inr (), w)),
     rt_read_file = (\<lambda>p w. (Inr ''ssh-rsa AAAA rancher '', w)),
     bd_ssh_key_path = (\<lambda>store name w. (store @ ''/machines/'' @ name @ ''/id_rsa'', w)),
     bd_ssh_username = (\<lambda>u. if u = [] then ''root'' else u)\<rparr>"

definition st0 :: "sim_world st" where
  "st0 = \<lparr>world = sim0, trace = []\<rparr>"

definition cl0 :: client where
  "cl0 = \<lparr>cl_base = ''https://pve:8006/api2/json'', cl_opts = []\<rparr>"

lemma sim_rand_in_range: "rand_in_range sim"
  by (auto simp: rand_in_range_def sim_def sim_rand_def split: list.splits)

lemma other_vm_id: "other_vm\<lparr>vm_vmid := 10001\<rparr> = other_vm"
  by (simp add: other_vm_def)

text \<open>A delete that first meets two lock failures, and one that is refused for good.\<close>

definition sim_op :: "(sim_world st, task option) eff" where
  "sim_op = callE (EDelete owned_vm \<lparr>do_purge = True, do_unreferenced = True\<rparr>)
     (px_delete sim owned_vm \<lparr>do_purge = True, do_unreferenced = True\<rparr>)"

definition busy_st :: "sim_world st" where
  "busy_st = st0\<lparr>world := sim0\<lparr>sw_delete_faults := [''can't lock file'', ''can't lock file'']\<rparr>\<rparr>"

definition drawn_st :: "sim_world st" where
  "drawn_st = st0\<lparr>world := sim0\<lparr>sw_rand := [0, 1, 5]\<rparr>\<rparr>"

definition denied_st :: "sim_world st" where
  "denied_st = st0\<lparr>world := sim0\<lparr>sw_delete_faults := [''403 permission check failed'']\<rparr>\<rparr>"

end
