(* ===== verification/Errors.thy ===== *)
theory Errors
  imports Sim
begin

text \<open>
  Error classification, \<open>pkg/pve/errors.go\<close>: PVE reports failures as texts, so the driver
  decides by substrings whether to retry, to wait, or to treat a VM as gone. \<open>None\<close> is Go's
  nil error.
\<close>

definition IsVMIDConflict :: "goerr option \<Rightarrow> bool" where
  "IsVMIDConflict err =
     (case err of None \<Rightarrow> False | Some e \<Rightarrow> contains (err_text e) ''config file already exists'')"

definition lock_messages :: "string list" where
  "lock_messages = [''can't lock file'', ''got lock request timeout'', ''cfs-lock'',
     ''can't acquire lock'', ''Maximum number of retries'']"

definition IsLockErr :: "goerr option \<Rightarrow> bool" where
  "IsLockErr err =
     (case err of None \<Rightarrow> False
      | Some e \<Rightarrow> list_ex (\<lambda>s. contains (err_text e) s) lock_messages)"

definition IsAgentNotRunning :: "goerr option \<Rightarrow> bool" where
  "IsAgentNotRunning err =
     (case err of None \<Rightarrow> False | Some e \<Rightarrow> contains (err_text e) ''QEMU guest agent is not running'')"

definition IsNotFoundErr :: "'w px \<Rightarrow> goerr option \<Rightarrow> bool" where
  "IsNotFoundErr P err =
     (case err of None \<Rightarrow> False
      | Some e \<Rightarrow> px_is_not_found P e \<or> contains (err_text e) ''does not exist''
          \<or> contains (err_text e) ''no such'')"

definition transient_messages :: "string list" where
  "transient_messages = [''connection refused'', ''connection reset'', ''unexpected EOF'',
     ''595'', ''i/o timeout'']"

definition IsTransient :: "goerr option \<Rightarrow> bool" where
  "IsTransient err =
     (case err of None \<Rightarrow> False
      | Some e \<Rightarrow> is_net_error e \<or> list_ex (\<lambda>s. contains (err_text e) s) transient_messages)"

lemmas classifier_defs = IsVMIDConflict_def IsLockErr_def IsAgentNotRunning_def
  IsNotFoundErr_def IsTransient_def

end
