(* ===== verification/Retrying.thy ===== *)
theory Retrying
  imports Errors
begin

text \<open>
  \<open>Retry\<close>, \<open>pkg/pve/retry.go\<close>: bounded attempts with exponential backoff and jitter. The
  closure \<open>fn\<close> of the code returns only an error and leaves its result in a captured
  variable; here \<open>fn\<close> returns that result and \<open>Retry\<close> passes it on.
\<close>

definition maxBackoff :: int where
  "maxBackoff = 30 * second"

definition next_delay :: "int \<Rightarrow> int" where
  "next_delay delay = (let d = wrap64 (delay * 2) in if maxBackoff < d then maxBackoff else d)"

definition jittered :: "'w px \<Rightarrow> int \<Rightarrow> (('w, 'x) st_scheme, int) eff" where
  "jittered P delay = bindE (int63nE P delay) (\<lambda>r. okE (wrap64 (delay div 2 + r)))"

definition after_attempts :: "int \<Rightarrow> goerr \<Rightarrow> goerr" where
  "after_attempts attempts err = wrapw (''after '' @ itoa attempts @ '' attempts: '') [] err"

text \<open>
  One unit of the counter is one iteration of \<open>for i := 1; i <= attempts; i++\<close>; \<open>k = 0\<close>
  below is \<open>i == attempts\<close>. With \<open>attempts <= 0\<close> the loop is not entered and the code wraps
  a nil error.
\<close>

primrec retry_loop ::
  "'w px \<Rightarrow> int \<Rightarrow> (goerr option \<Rightarrow> bool) \<Rightarrow> (('w, 'x) st_scheme, 'a) eff \<Rightarrow> nat \<Rightarrow> int
   \<Rightarrow> (('w, 'x) st_scheme, 'a) eff" where
  "retry_loop P attempts retryable fn 0 delay =
     errE (ErrorString (''after '' @ itoa attempts @ '' attempts: %!w(<nil>)''))"
| "retry_loop P attempts retryable fn (Suc k) delay =
     bindE (attemptE fn) (\<lambda>res. case res of
         Inr x \<Rightarrow> okE x
       | Inl err \<Rightarrow>
           if \<not> retryable (Some err) then errE err
           else if k = 0 then errE (after_attempts attempts err)
           else bindE (jittered P delay) (\<lambda>j.
                bindE (sleepE P j) (\<lambda>ctx. case ctx of
                    Some cerr \<Rightarrow> errE cerr
                  | None \<Rightarrow> retry_loop P attempts retryable fn k (next_delay delay))))"

definition Retry ::
  "'w px \<Rightarrow> int \<Rightarrow> int \<Rightarrow> (goerr option \<Rightarrow> bool) \<Rightarrow> (('w, 'x) st_scheme, 'a) eff
   \<Rightarrow> (('w, 'x) st_scheme, 'a) eff" where
  "Retry P attempts base retryable fn = retry_loop P attempts retryable fn (nat attempts) base"

section \<open>Frame, trace and result\<close>

lemma keeps_emits_jittered [keepsI]: "A (ERand delay) \<Longrightarrow> keeps (emits A) (jittered P delay)"
  unfolding jittered_def by (intro keepsI) auto

lemma keeps_frame_jittered [keepsI]: "keeps same_ext (jittered P delay)"
  unfolding jittered_def by (intro keepsI)

lemma keeps_emits_retry_loop:
  assumes fn: "keeps (emits A) fn" and A: "\<And>n. A (ERand n)" "\<And>d. A (ESleep d)"
  shows "keeps (emits A) (retry_loop P attempts retryable fn k delay)"
  by (induction k arbitrary: delay) (auto intro!: keepsI intro: fn A)

lemma keeps_emits_Retry [keepsI]:
  "keeps (emits A) fn \<Longrightarrow> (\<And>n. A (ERand n)) \<Longrightarrow> (\<And>d. A (ESleep d)) \<Longrightarrow>
   keeps (emits A) (Retry P attempts base retryable fn)"
  unfolding Retry_def by (rule keeps_emits_retry_loop)

lemma keeps_frame_retry_loop:
  assumes fn: "keeps same_ext fn"
  shows "keeps same_ext (retry_loop P attempts retryable fn k delay)"
  by (induction k arbitrary: delay) (auto intro!: keepsI intro: fn)

lemma keeps_frame_Retry [keepsI]:
  "keeps same_ext fn \<Longrightarrow> keeps same_ext (Retry P attempts base retryable fn)"
  unfolding Retry_def by (rule keeps_frame_retry_loop)

text \<open>
  A success of \<open>Retry\<close> is the success of the last attempt, and it ends there: nothing is
  called after it.
\<close>

lemma retry_loop_Ok:
  "retry_loop P attempts retryable fn k delay s = Some (Ok x, s') \<Longrightarrow>
   \<exists>t. fn t = Some (Ok x, s')"
proof (induction k arbitrary: delay s)
  case 0
  then show ?case by simp
next
  case (Suc k)
  from Suc.prems obtain res t where first: "attemptE fn s = Some (Ok res, t)"
    and rest: "(case res of Inr x \<Rightarrow> okE x
       | Inl err \<Rightarrow> if \<not> retryable (Some err) then errE err
           else if k = 0 then errE (after_attempts attempts err)
           else bindE (jittered P delay) (\<lambda>j. bindE (sleepE P j) (\<lambda>ctx. case ctx of
               Some cerr \<Rightarrow> errE cerr
             | None \<Rightarrow> retry_loop P attempts retryable fn k (next_delay delay)))) t
       = Some (Ok x, s')"
    by (auto elim: bindE_OkE)
  show ?case
  proof (cases res)
    case (Inr y)
    with first rest show ?thesis by (auto elim: attemptE_OkE)
  next
    case (Inl err)
    with rest Suc.IH show ?thesis
      by (auto split: if_splits option.splits elim!: bindE_OkE)
  qed
qed

lemma Retry_Ok:
  "Retry P attempts base retryable fn s = Some (Ok x, s') \<Longrightarrow> \<exists>t. fn t = Some (Ok x, s')"
  unfolding Retry_def by (rule retry_loop_Ok)

lemma ensures_Retry: "ensures fn Q \<Longrightarrow> ensures (Retry P attempts base retryable fn) Q"
  unfolding ensures_def by (blast dest: Retry_Ok)

lemma sleepE_not_Err [simp]: "sleepE P d s \<noteq> Some (Err e, s')"
  by (auto simp: sleepE_def elim: drawE_SomeE)

lemma jittered_not_Err [simp]: "jittered P d s \<noteq> Some (Err e, s')"
  by (auto simp: jittered_def int63nE_def elim!: bindE_SomeE drawE_SomeE split: if_splits)

section \<open>How often, and how long\<close>

text \<open>
  The contract of an operation that is run under \<open>Retry\<close>: it makes at most one of the
  calls singled out by \<open>B\<close> (the delete, the clone), and those are not the sleeps and draws
  of \<open>Retry\<close> itself. Then the number of such calls is bounded by the number of attempts.
\<close>

locale retried_op =
  fixes fn :: "(('w, 'x) st_scheme, 'a) eff"
    and B :: "event \<Rightarrow> bool"
  assumes one_call: "keeps (grew B 1) fn"
    and not_sleep: "\<not> B (ESleep d)"
    and not_rand: "\<not> B (ERand n)"
begin

lemma no_call_between:
  "keeps (grew B 0) (jittered P delay)" "keeps (grew B 0) (sleepE P j)"
  using not_sleep not_rand by (auto intro!: keeps_grew_none keepsI)

lemma loop_bounded: "keeps (grew B k) (retry_loop P attempts retryable fn k delay)"
proof (induction k arbitrary: delay)
  case 0
  show ?case by (simp add: keeps_def errE_def grew_refl)
next
  case (Suc k)
  have tail: "keeps (grew B k) (bindE (jittered P delay) (\<lambda>j. bindE (sleepE P j) (\<lambda>ctx.
      case ctx of Some cerr \<Rightarrow> errE cerr
      | None \<Rightarrow> retry_loop P attempts retryable fn k (next_delay delay))))"
  proof -
    have "keeps (grew B k) (case ctx of Some cerr \<Rightarrow> errE cerr
        | None \<Rightarrow> retry_loop P attempts retryable fn k (next_delay delay))" for ctx
      using Suc.IH by (cases ctx) (auto simp: keeps_def errE_def grew_refl)
    from keeps_grew_bindE [OF no_call_between(1) keeps_grew_bindE [OF no_call_between(2) this]]
    show ?thesis by simp
  qed
  have "keeps (grew B k) (case res of Inr x \<Rightarrow> okE x
      | Inl err \<Rightarrow> if \<not> retryable (Some err) then errE err
          else if k = 0 then errE (after_attempts attempts err)
          else bindE (jittered P delay) (\<lambda>j. bindE (sleepE P j) (\<lambda>ctx. case ctx of
              Some cerr \<Rightarrow> errE cerr
            | None \<Rightarrow> retry_loop P attempts retryable fn k (next_delay delay))))" for res
    using tail by (cases res) (auto simp: keeps_def errE_def okE_def grew_refl)
  from keeps_grew_bindE [OF keeps_grew_attemptE [OF one_call] this]
  show ?case by simp
qed

lemma calls_bounded: "keeps (grew B (nat attempts)) (Retry P attempts base retryable fn)"
  unfolding Retry_def by (rule loop_bounded)

end

text \<open>The waiting times: the sleeps of a trace.\<close>

fun sleeps :: "event list \<Rightarrow> int list" where
  "sleeps [] = []"
| "sleeps (ESleep d # evs) = d # sleeps evs"
| "sleeps (_ # evs) = sleeps evs"

fun is_sleep :: "event \<Rightarrow> bool" where
  "is_sleep (ESleep d) = True"
| "is_sleep _ = False"

lemma sleeps_append [simp]: "sleeps (xs @ ys) = sleeps xs @ sleeps ys"
  by (induction xs rule: sleeps.induct) auto

lemma sleeps_none: "list_all (\<lambda>e. \<not> is_sleep e) evs \<Longrightarrow> sleeps evs = []"
  by (induction evs rule: sleeps.induct) auto

lemma emits_no_sleep: "emits (\<lambda>e. \<not> is_sleep e) s s' \<Longrightarrow> sleeps (trace s') = sleeps (trace s)"
  by (auto simp: emits_def sleeps_none)

definition backoff :: "int \<Rightarrow> nat \<Rightarrow> int" where
  "backoff base i = min (base * 2 ^ i) maxBackoff"

lemma next_delay_bounds:
  "0 < delay \<Longrightarrow> delay \<le> maxBackoff \<Longrightarrow> 0 < next_delay delay \<and> next_delay delay \<le> maxBackoff"
  by (auto simp: next_delay_def maxBackoff_def second_def wrap64_def Let_def)

lemma backoff_next:
  assumes "0 < delay" and "delay \<le> maxBackoff"
  shows "backoff (next_delay delay) i = backoff delay (Suc i)"
proof -
  have eq: "next_delay delay = min (delay * 2) maxBackoff"
    using assms by (auto simp: next_delay_def maxBackoff_def second_def wrap64_def Let_def)
  have "maxBackoff * 1 \<le> maxBackoff * 2 ^ i"
    by (rule mult_left_mono) (simp_all add: maxBackoff_def second_def)
  then have big: "maxBackoff \<le> maxBackoff * 2 ^ i" by simp
  show ?thesis
  proof (cases "delay * 2 \<le> maxBackoff")
    case True
    with eq show ?thesis by (simp add: backoff_def mult.assoc)
  next
    case False
    have "maxBackoff * 1 \<le> delay * 2 * 2 ^ i"
      using False by (intro mult_mono) (simp_all add: maxBackoff_def second_def)
    with False eq big show ?thesis by (simp add: backoff_def mult.assoc)
  qed
qed

definition backs_off :: "int \<Rightarrow> nat \<Rightarrow> ('w, 'x) st_scheme \<Rightarrow> ('w, 'x) st_scheme \<Rightarrow> bool" where
  "backs_off base n s s' \<longleftrightarrow>
     (\<exists>ds. sleeps (trace s') = sleeps (trace s) @ ds \<and> length ds \<le> n \<and>
        (\<forall>i < length ds. backoff base i div 2 \<le> ds ! i
           \<and> ds ! i < backoff base i div 2 + backoff base i))"

lemma backs_off_0: "sleeps (trace s') = sleeps (trace s) \<Longrightarrow> backs_off base n s s'"
  by (auto simp: backs_off_def)

lemma backs_off_Suc:
  assumes d: "0 < delay" "delay \<le> maxBackoff"
    and first: "sleeps (trace t) = sleeps (trace s) @ [j]"
    and j: "delay div 2 \<le> j" "j < delay div 2 + delay"
    and rest: "backs_off (next_delay delay) n t u"
  shows "backs_off delay (Suc n) s u"
proof -
  from rest obtain ds where ds: "sleeps (trace u) = sleeps (trace t) @ ds" "length ds \<le> n"
    "\<forall>i < length ds. backoff (next_delay delay) i div 2 \<le> ds ! i
       \<and> ds ! i < backoff (next_delay delay) i div 2 + backoff (next_delay delay) i"
    unfolding backs_off_def by blast
  have zero: "backoff delay 0 = delay" using d by (simp add: backoff_def)
  have "backoff delay i div 2 \<le> (j # ds) ! i
      \<and> (j # ds) ! i < backoff delay i div 2 + backoff delay i" if "i < length (j # ds)" for i
    using that ds(3) j zero backoff_next [OF d] by (cases i) simp_all
  with ds(1,2) first show ?thesis unfolding backs_off_def by (intro exI [of _ "j # ds"]) simp
qed

lemma retry_loop_backs_off:
  assumes rnd: "rand_in_range P"
    and quiet: "\<And>s r s'. fn s = Some (r, s') \<Longrightarrow> sleeps (trace s') = sleeps (trace s)"
  shows "0 < delay \<Longrightarrow> delay \<le> maxBackoff \<Longrightarrow>
    retry_loop P attempts retryable fn (Suc k) delay s = Some (r, s') \<Longrightarrow> backs_off delay k s s'"
proof (induction k arbitrary: delay s)
  case 0
  then show ?case
    by (auto intro!: backs_off_0 dest: quiet elim!: bindE_SomeE attemptE_SomeE split: if_splits)
next
  case (Suc k)
  let ?rest = "retry_loop P attempts retryable fn (Suc k) (next_delay delay)"
  let ?again = "bindE (jittered P delay) (\<lambda>j. bindE (sleepE P j) (\<lambda>ctx. case ctx of
      Some cerr \<Rightarrow> errE cerr | None \<Rightarrow> ?rest))"
  from Suc.prems(3) have "bindE (attemptE fn) (\<lambda>res. case res of Inr x \<Rightarrow> okE x
      | Inl err \<Rightarrow> if \<not> retryable (Some err) then errE err else ?again) s = Some (r, s')"
    by (simp only: retry_loop.simps(2) [of P attempts retryable fn "Suc k"] nat.simps if_False)
  then obtain t where t: "sleeps (trace t) = sleeps (trace s)"
    and "s' = t \<or> ?again t = Some (r, s')"
    by (auto dest: quiet elim!: bindE_SomeE attemptE_SomeE split: if_splits
        simp del: retry_loop.simps)
  then consider "s' = t" | "?again t = Some (r, s')" by blast
  then show ?case
  proof cases
    case 1
    with t show ?thesis by (simp add: backs_off_0)
  next
    case 2
    then obtain q w where q: "rt_intn P delay (world t) = (q, w)"
      using Suc.prems(1) by (cases "rt_intn P delay (world t)") auto
    from rand_in_rangeD [OF rnd Suc.prems(1) q] have qr: "0 \<le> q" "q < delay" by auto
    define j where "j = delay div 2 + q"
    have wrap: "wrap64 (delay div 2 + q) = j"
      using qr Suc.prems(1,2) by (simp add: j_def wrap64_def maxBackoff_def second_def)
    obtain ctx v where v: "rt_sleep P j w = (ctx, v)" by (cases "rt_sleep P j w") auto
    define u where "u = t\<lparr>world := v, trace := trace t @ [ERand delay, ESleep j]\<rparr>"
    have u: "sleeps (trace u) = sleeps (trace t) @ [j]" by (simp add: u_def)
    from 2 q v wrap Suc.prems(1)
    have rest: "(case ctx of Some cerr \<Rightarrow> errE cerr | None \<Rightarrow> ?rest) u = Some (r, s')"
      by (simp add: jittered_def int63nE_def drawE_def sleepE_def bindE_def okE_def u_def
          del: retry_loop.simps)
    have "backs_off (next_delay delay) k u s'"
    proof (cases ctx)
      case None
      with rest Suc.IH next_delay_bounds [OF Suc.prems(1,2)] show ?thesis by simp
    next
      case (Some e)
      with rest show ?thesis by (auto intro: backs_off_0)
    qed
    then show ?thesis
      using backs_off_Suc [OF Suc.prems(1,2), of u s j k s'] u t qr by (simp add: j_def)
  qed
qed

section \<open>Properties\<close>

text \<open>
  The abstract view of a retried operation: \<open>failed_runs n\<close> relates a state to the one reached
  by \<open>n\<close> consecutive attempts that failed with a retryable error, each followed by its
  jittered sleep, the delay growing as the code says.
\<close>

inductive failed_runs ::
  "'w px \<Rightarrow> (goerr option \<Rightarrow> bool) \<Rightarrow> (('w, 'x) st_scheme, 'a) eff \<Rightarrow> int \<Rightarrow> nat
   \<Rightarrow> ('w, 'x) st_scheme \<Rightarrow> ('w, 'x) st_scheme \<Rightarrow> bool"
  for P retryable fn where
  no_failure: "failed_runs P retryable fn delay 0 s s"
| one_more: "fn s = Some (Err err, s1) \<Longrightarrow> retryable (Some err) \<Longrightarrow>
     jittered P delay s1 = Some (Ok j, s2) \<Longrightarrow> sleepE P j s2 = Some (Ok None, t) \<Longrightarrow>
     failed_runs P retryable fn (next_delay delay) n t u \<Longrightarrow>
     failed_runs P retryable fn delay (Suc n) s u"

inductive_simps failed_runs_0 [simp]: "failed_runs P retryable fn delay 0 s u"
inductive_simps failed_runs_Suc: "failed_runs P retryable fn delay (Suc n) s u"

lemma retry_loop_Ok_iff:
  "retry_loop P attempts retryable fn k delay s = Some (Ok x, u) \<longleftrightarrow>
   (\<exists>n t. n < k \<and> failed_runs P retryable fn delay n s t \<and> fn t = Some (Ok x, u))"
proof (induction k arbitrary: delay s)
  case 0
  show ?case by simp
next
  case (Suc k)
  let ?rest = "retry_loop P attempts retryable fn k (next_delay delay)"
  have step: "retry_loop P attempts retryable fn (Suc k) delay s = Some (Ok x, u) \<longleftrightarrow>
      fn s = Some (Ok x, u) \<or>
      (\<exists>err s1 j s2 t. fn s = Some (Err err, s1) \<and> retryable (Some err) \<and> k \<noteq> 0
        \<and> jittered P delay s1 = Some (Ok j, s2) \<and> sleepE P j s2 = Some (Ok None, t)
        \<and> ?rest t = Some (Ok x, u))" (is "_ \<longleftrightarrow> _ \<or> ?failed")
    by (auto simp: bindE_def attemptE_def okE_def errE_def split: option.splits go.splits if_splits)
  have "(\<exists>n t. n < Suc k \<and> failed_runs P retryable fn delay n s t \<and> fn t = Some (Ok x, u)) \<longleftrightarrow>
      fn s = Some (Ok x, u) \<or>
      (\<exists>n t. n < k \<and> failed_runs P retryable fn delay (Suc n) s t \<and> fn t = Some (Ok x, u))"
    by (auto simp: less_Suc_eq_0_disj)
  also have "\<dots> \<longleftrightarrow> fn s = Some (Ok x, u) \<or> ?failed"
    unfolding failed_runs_Suc Suc.IH by (auto; blast)
  finally show ?case using step by simp
qed

text \<open>
  C17. \<open>Retry\<close> succeeds exactly when one of its \<open>attempts\<close> runs does: the result and the final
  state are those of the first successful attempt, reached through fewer than \<open>attempts\<close>
  retryable failures with their backoff sleeps, and nothing happens after it.
\<close>

theorem Retry_succeeds_iff:
  "Retry P attempts base retryable fn s = Some (Ok x, u) \<longleftrightarrow>
   (\<exists>n t. n < nat attempts \<and> failed_runs P retryable fn base n s t \<and> fn t = Some (Ok x, u))"
  unfolding Retry_def by (rule retry_loop_Ok_iff)

text \<open>
  The three ways in which \<open>Retry\<close> gives up, from the first state to the last: an attempt fails
  for good (its error is reported unchanged), all attempts fail (the last error is wrapped with
  their number), or the context ends in the pause after a failed attempt.
\<close>

inductive retry_failure ::
  "'w px \<Rightarrow> int \<Rightarrow> (goerr option \<Rightarrow> bool) \<Rightarrow> (('w, 'x) st_scheme, 'a) eff
   \<Rightarrow> nat \<Rightarrow> int \<Rightarrow> ('w, 'x) st_scheme \<Rightarrow> goerr \<Rightarrow> ('w, 'x) st_scheme \<Rightarrow> bool"
  for P attempts retryable fn k delay s where
  permanent: "failed_runs P retryable fn delay n s t \<Longrightarrow> n \<le> k \<Longrightarrow>
     fn t = Some (Err e, s') \<Longrightarrow> \<not> retryable (Some e) \<Longrightarrow>
     retry_failure P attempts retryable fn k delay s e s'"
| exhausted: "failed_runs P retryable fn delay k s t \<Longrightarrow>
     fn t = Some (Err e, s') \<Longrightarrow> retryable (Some e) \<Longrightarrow>
     retry_failure P attempts retryable fn k delay s (after_attempts attempts e) s'"
| cancelled: "failed_runs P retryable fn delay n s t \<Longrightarrow> n < k \<Longrightarrow>
     fn t = Some (Err e, u) \<Longrightarrow> retryable (Some e) \<Longrightarrow>
     jittered P d u = Some (Ok j, v) \<Longrightarrow> sleepE P j v = Some (Ok (Some cerr), s') \<Longrightarrow>
     retry_failure P attempts retryable fn k delay s cerr s'"

text \<open>A failure of the first attempt, and one more failed attempt before a failure.\<close>

lemmas retry_failure_first =
  retry_failure.permanent [OF failed_runs.no_failure le0]
  retry_failure.exhausted [OF failed_runs.no_failure]
  retry_failure.cancelled [OF failed_runs.no_failure zero_less_Suc]

lemma retry_failure_Suc:
  assumes one: "\<And>n z. failed_runs P retryable fn (next_delay delay) n t z \<Longrightarrow>
      failed_runs P retryable fn delay (Suc n) s z"
    and rest: "retry_failure P attempts retryable fn k (next_delay delay) t e s'"
  shows "retry_failure P attempts retryable fn (Suc k) delay s e s'"
  using rest
proof cases
  case (permanent n z)
  show ?thesis by (rule retry_failure.permanent [OF one]) (use permanent in simp_all)
next
  case (exhausted z err)
  show ?thesis unfolding exhausted(1) by (rule retry_failure.exhausted [OF one]) (use exhausted in simp_all)
next
  case (cancelled n z err u d j v)
  show ?thesis by (rule retry_failure.cancelled [OF one]) (use cancelled in simp_all)
qed

lemma retry_loop_Err:
  "retry_loop P attempts retryable fn (Suc k) delay s = Some (Err e, s') \<Longrightarrow>
   retry_failure P attempts retryable fn k delay s e s'"
proof (induction k arbitrary: delay s)
  case 0
  then show ?case
    by (auto elim!: bindE_SomeE attemptE_SomeE split: if_splits
        intro: retry_failure_first)
next
  case (Suc k)
  let ?rest = "retry_loop P attempts retryable fn (Suc k) (next_delay delay)"
  let ?again = "bindE (jittered P delay) (\<lambda>j. bindE (sleepE P j) (\<lambda>ctx. case ctx of
      Some cerr \<Rightarrow> errE cerr | None \<Rightarrow> ?rest))"
  from Suc.prems have "bindE (attemptE fn) (\<lambda>res. case res of Inr x \<Rightarrow> okE x
      | Inl err \<Rightarrow> if \<not> retryable (Some err) then errE err else ?again) s = Some (Err e, s')"
    by (simp only: retry_loop.simps(2) [of P attempts retryable fn "Suc k"] nat.simps if_False)
  then obtain err t where fn: "fn s = Some (Err err, t)"
    and go: "(if \<not> retryable (Some err) then errE err else ?again) t = Some (Err e, s')"
    by (auto elim!: bindE_SomeE attemptE_SomeE simp del: retry_loop.simps)
  show ?case
  proof (cases "retryable (Some err)")
    case False
    with go fn show ?thesis by (auto intro: retry_failure_first)
  next
    case True
    with go obtain j u ctx v where j: "jittered P delay t = Some (Ok j, u)"
      and sl: "sleepE P j u = Some (Ok ctx, v)"
      and rest: "(case ctx of Some cerr \<Rightarrow> errE cerr | None \<Rightarrow> ?rest) v = Some (Err e, s')"
      by (auto elim!: bindE_SomeE simp del: retry_loop.simps)
    show ?thesis
    proof (cases ctx)
      case (Some cerr)
      with rest sl fn True j show ?thesis by (auto intro: retry_failure_first)
    next
      case None
      with sl have sl: "sleepE P j u = Some (Ok None, v)" by simp
      from rest None have "?rest v = Some (Err e, s')" by simp
      from Suc.IH [OF this] show ?thesis
        by (rule retry_failure_Suc [rotated]) (rule failed_runs.one_more [where fn = fn and retryable = retryable, OF fn True j sl])
    qed
  qed
qed

lemma Retry_fails_with:
  assumes "1 \<le> attempts" and "Retry P attempts base retryable fn s = Some (Err e, s')"
  shows "retry_failure P attempts retryable fn (nat attempts - 1) base s e s'"
proof -
  obtain k where "nat attempts = Suc k" using assms(1) by (cases "nat attempts") auto
  with assms(2) show ?thesis unfolding Retry_def by (auto intro: retry_loop_Err simp del: retry_loop.simps)
qed

lemma Retry_backs_off:
  assumes "rand_in_range P" and "0 < base" and "base \<le> maxBackoff"
    and "keeps (emits (\<lambda>e. \<not> is_sleep e)) fn"
    and "Retry P attempts base retryable fn s = Some (r, s')"
  shows "backs_off base (nat attempts - 1) s s'"
proof (cases "nat attempts")
  case 0
  with assms(5) show ?thesis by (simp add: Retry_def backs_off_0)
next
  case (Suc k)
  have quiet: "fn s = Some (r, s') \<Longrightarrow> sleeps (trace s') = sleeps (trace s)" for s r s'
    using keepsD [OF assms(4)] emits_no_sleep by blast
  from assms(5) Suc have "retry_loop P attempts retryable fn (Suc k) base s = Some (r, s')"
    by (simp add: Retry_def del: retry_loop.simps)
  from retry_loop_backs_off [OF assms(1) quiet assms(2,3) this] Suc show ?thesis by simp
qed

text \<open>
  C18. The waiting of \<open>Retry\<close>: fewer sleeps than attempts, and the \<open>i\<close>-th one is within half of
  the nominal delay \<open>min (base * 2^i) 30s\<close> around it, for every random source.
\<close>

theorem Retry_backoff:
  assumes "rand_in_range P" and "0 < base" and "base \<le> maxBackoff"
    and "keeps (emits (\<lambda>e. \<not> is_sleep e)) fn"
    and "Retry P attempts base retryable fn s = Some (r, s')"
  shows "backs_off base (nat attempts - 1) s s'"
  using assms by (rule Retry_backs_off)

theorem Retry_backoff_witness:
  "\<exists>s'. Retry sim 5 (2 * second) IsLockErr sim_op busy_st = Some (Ok (Some ok_task), s')
     \<and> backs_off (2 * second) 4 busy_st s'"
proof -
  have "map_option fst (Retry sim 5 (2 * second) IsLockErr sim_op busy_st) = Some (Ok (Some ok_task))"
    by code_simp
  then obtain s' where run: "Retry sim 5 (2 * second) IsLockErr sim_op busy_st
      = Some (Ok (Some ok_task), s')" by auto
  have quiet: "keeps (emits (\<lambda>e. \<not> is_sleep e)) sim_op"
    unfolding sim_op_def by (intro keepsI) simp
  have "backs_off (2 * second) (nat 5 - 1) busy_st s'"
    by (rule Retry_backoff [OF sim_rand_in_range _ _ quiet run]) (simp_all add: second_def maxBackoff_def)
  with run show ?thesis by auto
qed

lemma proper_jittered: "0 < delay \<Longrightarrow> proper (jittered P delay)"
  unfolding jittered_def by (intro properI)

lemma proper_retry_loop:
  assumes fn: "proper fn"
  shows "0 < delay \<Longrightarrow> delay \<le> maxBackoff \<Longrightarrow> proper (retry_loop P attempts retryable fn k delay)"
  by (induction k arbitrary: delay)
     (auto intro!: properI proper_jittered fn simp: next_delay_bounds)

lemma proper_Retry:
  "proper fn \<Longrightarrow> 0 < base \<Longrightarrow> base \<le> maxBackoff \<Longrightarrow> proper (Retry P attempts base retryable fn)"
  unfolding Retry_def by (rule proper_retry_loop)


lemma calm_retry_loop:
  assumes fn: "calm fn"
  shows "0 < delay \<Longrightarrow> delay \<le> maxBackoff \<Longrightarrow> calm (retry_loop P attempts retryable fn k delay)"
  by (induction k arbitrary: delay)
     (auto intro!: calmI proper_calm [OF proper_jittered] proper_calm [OF proper_sleepE] fn
        simp: next_delay_bounds)

lemma calm_Retry:
  "calm fn \<Longrightarrow> 0 < base \<Longrightarrow> base \<le> maxBackoff \<Longrightarrow> calm (Retry P attempts base retryable fn)"
  unfolding Retry_def by (rule calm_retry_loop)

end
