(* ===== verification/Client.thy ===== *)
theory Client
  imports Retrying
begin

text \<open>
  The client handle, task waiting and the two access queries of package \<open>pve\<close>:
  \<open>client.go\<close>, \<open>task.go\<close>, \<open>access.go\<close>.
\<close>

section \<open>New (client.go)\<close>

record Config =
  cf_URL :: string
  cf_TokenID :: string
  cf_TokenSecret :: string
  cf_InsecureTLS :: bool
  cf_CACertPEM :: string

definition api_base :: "string \<Rightarrow> string" where
  "api_base url =
     (let base = trim_right_by (\<lambda>c. c = CHR ''/'') url
      in if suffix ''/api2/json'' base then base else base @ ''/api2/json'')"

definition New :: "'w px \<Rightarrow> Config \<Rightarrow> client go" where
  "New P cfg =
     (let base = api_base (cf_URL cfg);
          opts = [WithAPIToken (cf_TokenID cfg) (cf_TokenSecret cfg), WithTimeout (90 * second)]
      in if cf_CACertPEM cfg \<noteq> [] \<and> \<not> rt_append_certs P (cf_CACertPEM cfg)
         then Err (ErrorString ''pvenode: --pvenode-ca-cert does not contain a valid PEM certificate'')
         else Ok \<lparr>cl_base = base,
                  cl_opts = opts
                    @ (if cf_CACertPEM cfg \<noteq> [] then [WithRootCAs (cf_CACertPEM cfg)] else [])
                    @ (if cf_InsecureTLS cfg then [WithInsecureSkipVerify] else [])\<rparr>)"

section \<open>WaitTask (task.go)\<close>

definition taskPollInterval :: int where
  "taskPollInterval = 2 * second"

definition WaitTask :: "'w px \<Rightarrow> task option \<Rightarrow> int \<Rightarrow> (('w, 'x) st_scheme, unit) eff" where
  "WaitTask P task timeout =
     (case task of
        None \<Rightarrow> okE ()
      | Some t \<Rightarrow>
          bindE (attemptE (callE (EWait (task_upid t) timeout) (px_wait P t taskPollInterval timeout)))
            (\<lambda>res. case res of
                Inl err \<Rightarrow>
                  if px_is_timeout P err
                  then errE (ErrorString (''pve task '' @ task_upid t @ '' did not finish within ''
                         @ duration_string timeout))
                  else errE (wrapw (''waiting for pve task '' @ task_upid t @ '': '') [] err)
              | Inr done \<Rightarrow>
                  if task_is_failed done
                  then errE (ErrorString (''pve task '' @ task_upid done @ '' failed: ''
                         @ task_exit_status done))
                  else okE ()))"

section \<open>PVEMajorVersion and TokenPermissions (access.go)\<close>

definition PVEMajorVersion :: "'w px \<Rightarrow> client \<Rightarrow> (('w, 'x) st_scheme, int) eff" where
  "PVEMajorVersion P c =
     bindE (mapErrE (wrapw ''querying PVE version (is the URL correct and the token valid?): '' [])
              (callE EVersion (px_version P c)))
       (\<lambda>release.
          case cut (CHR ''.'') release of (majorStr, rest, found) \<Rightarrow>
            (case atoi majorStr of
               (major, None) \<Rightarrow> okE major
             | (major, Some e) \<Rightarrow>
                 errE (ErrorString (''unexpected PVE release string '' @ quote release))))"

definition TokenPermissions :: "'w px \<Rightarrow> client \<Rightarrow> (('w, 'x) st_scheme, permissions) eff" where
  "TokenPermissions P c = callE EPermissions (px_permissions P c)"

section \<open>Frame, trace and totality\<close>

lemma keeps_num_result [keepsI]:
  "(\<And>n. keeps R (f n)) \<Longrightarrow> (\<And>n e. keeps R (g n e)) \<Longrightarrow>
   keeps R (case x of (n, None) \<Rightarrow> f n | (n, Some e) \<Rightarrow> g n e)"
  by (cases x; cases "snd x") auto

lemma proper_num_result [properI]:
  "(\<And>n. proper (f n)) \<Longrightarrow> (\<And>n e. proper (g n e)) \<Longrightarrow>
   proper (case x of (n, None) \<Rightarrow> f n | (n, Some e) \<Rightarrow> g n e)"
  by (cases x; cases "snd x") auto

lemma keeps_WaitTask [keepsI]:
  "(\<And>u d. A (EWait u d)) \<Longrightarrow> keeps (emits A) (WaitTask P task timeout)"
  "keeps same_ext (WaitTask P task timeout)"
  unfolding WaitTask_def by (intro keepsI | simp)+

lemma proper_WaitTask [properI]: "proper (WaitTask P task timeout)"
  unfolding WaitTask_def by (intro properI)

lemma keeps_PVEMajorVersion [keepsI]:
  "A EVersion \<Longrightarrow> keeps (emits A) (PVEMajorVersion P c)"
  "keeps same_ext (PVEMajorVersion P c)"
  unfolding PVEMajorVersion_def by (intro keepsI | simp)+

lemma proper_PVEMajorVersion [properI]: "proper (PVEMajorVersion P c)"
  unfolding PVEMajorVersion_def by (intro properI)

lemma keeps_TokenPermissions [keepsI]:
  "A EPermissions \<Longrightarrow> keeps (emits A) (TokenPermissions P c)"
  "keeps same_ext (TokenPermissions P c)"
  unfolding TokenPermissions_def by (intro keepsI | simp)+

lemma proper_TokenPermissions [properI]: "proper (TokenPermissions P c)"
  unfolding TokenPermissions_def by (intro properI)

section \<open>Properties\<close>

lemma trim_right_by_snoc: "\<not> p c \<Longrightarrow> trim_right_by p (s @ [c]) = s @ [c]"
  by (simp add: trim_right_by_def)

lemma trim_right_api:
  assumes "suffix ''/api2/json'' s"
  shows "trim_right_by (\<lambda>c. c = CHR ''/'') s = s"
proof -
  from assms obtain b where "s = (b @ ''/api2/jso'') @ [CHR ''n'']" by (auto simp: suffix_def)
  then show ?thesis by (simp only: trim_right_by_snoc char.inject simp_thms)
qed

text \<open>
  The base URL of the API always ends in \<open>/api2/json\<close>, however the user wrote it, and
  normalising it again changes nothing; in particular trailing slashes make no difference.
\<close>

lemma api_base_normal:
  "suffix ''/api2/json'' (api_base url) \<and> api_base (api_base url) = api_base url
   \<and> api_base (url @ ''/'') = api_base url"
proof -
  have "suffix ''/api2/json'' (api_base url)"
    by (simp add: api_base_def Let_def suffix_def)
  then show ?thesis
    by (simp add: api_base_def [of "api_base url"] trim_right_api)
       (simp add: api_base_def trim_right_by_def)
qed

text \<open>
  A task result is trusted only if the task did not fail: \<open>WaitTask\<close> succeeds exactly when
  there is no task, or waiting for it returned and it is not marked failed.
\<close>

lemma WaitTask_Ok_iff:
  "WaitTask P task timeout s = Some (Ok (), s') \<longleftrightarrow>
   (case task of
      None \<Rightarrow> s' = s
    | Some t \<Rightarrow> \<exists>done w. px_wait P t taskPollInterval timeout (world s) = (Inr done, w)
        \<and> \<not> task_is_failed done
        \<and> s' = s\<lparr>world := w, trace := trace s @ [EWait (task_upid t) timeout]\<rparr>)"
  by (auto simp: WaitTask_def bindE_def attemptE_def callE_def okE_def errE_def of_sum_def
      split: option.splits sum.splits if_splits prod.splits)

end
