(* ===== verification/Resources.thy ===== *)
theory Resources
  imports Client
begin

text \<open>
  Lookups in the cluster, \<open>pkg/pve/resources.go\<close>: VM listing and reading, the resolution of
  the clone template, the orphan-recovery search by name and ownership tag, storages and
  bridges of a node.
\<close>

section \<open>Operations\<close>

record StorageInfo =
  si_Name :: string
  si_Type :: string
  si_Content :: string
  si_Shared :: bool
  si_Active :: bool

definition nodeQemuPath :: "string \<Rightarrow> int \<Rightarrow> string" where
  "nodeQemuPath node vmid = ''/nodes/'' @ node @ ''/qemu/'' @ itoa vmid"

text \<open>\<open>int(row.VMID)\<close>\<close>

definition row_id :: "vm_resource \<Rightarrow> int" where
  "row_id row = sint (res_vmid row)"

definition ListVMs :: "'w px \<Rightarrow> client \<Rightarrow> (('w, 'x) st_scheme, vm_resource list) eff" where
  "ListVMs P c = mapErrE (wrapw ''listing cluster VMs: '' []) (callE EResources (px_resources P c))"

definition GetVM :: "'w px \<Rightarrow> client \<Rightarrow> string \<Rightarrow> int \<Rightarrow> (('w, 'x) st_scheme, vm) eff" where
  "GetVM P c node vmid =
     bindE (mapErrE (wrapw (''getting PVE node '' @ quote node @ '': '') [])
              (callE (ENode node) (px_node P c node)))
       (\<lambda>_. mapErrE (wrapw (''getting VM '' @ itoa vmid @ '' on node '' @ quote node @ '': '') [])
              (callE (EGetVM node vmid) (px_vm P c node vmid)))"

definition ambiguous_template :: "string \<Rightarrow> vm_resource \<Rightarrow> vm_resource \<Rightarrow> goerr" where
  "ambiguous_template ref m row =
     ErrorString (''template name '' @ quote ref @ '' is ambiguous (VMIDs '' @ utoa (res_vmid m)
       @ '' and '' @ utoa (res_vmid row) @ '') '' @ dash @ '' use the VMID instead'')"

text \<open>
  The loop of \<open>ResolveTemplate\<close>: \<open>match\<close> is the row found so far, \<open>names\<close> the names of the
  templates seen; a second match is an error at once.
\<close>

definition template_ref :: "string \<Rightarrow> vm_resource \<Rightarrow> bool" where
  "template_ref ref row =
     (case atoi ref of
        (refVMID, None) \<Rightarrow> row_id row = refVMID
      | (refVMID, Some e) \<Rightarrow> res_name row = ref)"

fun scan_templates ::
  "string \<Rightarrow> vm_resource option \<Rightarrow> string list \<Rightarrow> vm_resource list
   \<Rightarrow> goerr + (vm_resource option \<times> string list)" where
  "scan_templates ref match names [] = Inr (match, names)"
| "scan_templates ref match names (row # rows) =
     (if res_type row \<noteq> ''qemu'' then scan_templates ref match names rows
      else
        (let names' = (if res_template row = 1 then names @ [res_name row] else names) in
         if template_ref ref row then
           (case match of
              Some m \<Rightarrow> Inl (ambiguous_template ref m row)
            | None \<Rightarrow> scan_templates ref (Some row) names' rows)
         else scan_templates ref match names' rows))"

definition ResolveTemplate :: "'w px \<Rightarrow> client \<Rightarrow> string \<Rightarrow> (('w, 'x) st_scheme, vm) eff" where
  "ResolveTemplate P c ref =
     bindE (ListVMs P c) (\<lambda>rows.
       case scan_templates ref None [] rows of
         Inl err \<Rightarrow> errE err
       | Inr (None, names) \<Rightarrow>
           errE (ErrorString (''template '' @ quote ref @ '' not found; available templates: ''
             @ join '', '' (sort names)))
       | Inr (Some m, names) \<Rightarrow>
           if res_template m \<noteq> 1
           then errE (ErrorString (''VM '' @ quote (res_name m) @ '' (VMID '' @ utoa (res_vmid m)
             @ '') is not a template '' @ dash
             @ '' convert it in PVE first (right-click > Convert to template)''))
           else GetVM P c (res_node m) (row_id m))"

fun find_rows ::
  "'w px \<Rightarrow> client \<Rightarrow> string \<Rightarrow> string \<Rightarrow> vm_resource list \<Rightarrow> (('w, 'x) st_scheme, vm option) eff" where
  "find_rows P c name tag [] = okE None"
| "find_rows P c name tag (row # rows) =
     (if res_type row \<noteq> ''qemu'' \<or> res_template row = 1 \<or> res_name row \<noteq> name
      then find_rows P c name tag rows
      else
        bindE (attemptE (GetVM P c (res_node row) (row_id row))) (\<lambda>res. case res of
            Inl err \<Rightarrow>
              if IsNotFoundErr P (Some err) then find_rows P c name tag rows else errE err
          | Inr v \<Rightarrow>
              if px_has_tag P v tag then okE (Some v) else find_rows P c name tag rows))"

definition FindVMByNameAndTag ::
  "'w px \<Rightarrow> client \<Rightarrow> string \<Rightarrow> string \<Rightarrow> (('w, 'x) st_scheme, vm option) eff" where
  "FindVMByNameAndTag P c name tag = bindE (ListVMs P c) (\<lambda>rows. find_rows P c name tag rows)"

definition storage_info :: "storage_row \<Rightarrow> StorageInfo" where
  "storage_info r = \<lparr>si_Name = sr_storage r, si_Type = sr_type r, si_Content = sr_content r,
     si_Shared = (sr_shared r = 1), si_Active = (sr_active r = 1)\<rparr>"

definition NodeStorages :: "'w px \<Rightarrow> client \<Rightarrow> string \<Rightarrow> (('w, 'x) st_scheme, StorageInfo list) eff" where
  "NodeStorages P c node =
     bindE (mapErrE (wrapw (''listing storages on node '' @ quote node @ '': '') [])
              (callE (EStorages (''/nodes/'' @ node @ ''/storage''))
                 (px_storages P c (''/nodes/'' @ node @ ''/storage''))))
       (\<lambda>rows. okE (map storage_info rows))"

definition bridges_of :: "network_row list \<Rightarrow> string list" where
  "bridges_of rows = sort (map nr_iface (filter (\<lambda>r. nr_type r = ''bridge'') rows))"

definition NodeBridges :: "'w px \<Rightarrow> client \<Rightarrow> string \<Rightarrow> (('w, 'x) st_scheme, string list) eff" where
  "NodeBridges P c node =
     bindE (mapErrE (wrapw (''listing networks on node '' @ quote node @ '': '') [])
              (callE (ENetworks (''/nodes/'' @ node @ ''/network''))
                 (px_networks P c (''/nodes/'' @ node @ ''/network''))))
       (\<lambda>rows. okE (bridges_of rows))"

section \<open>Frame, trace and totality\<close>

text \<open>The events of the lookups; none of them changes the cluster.\<close>

fun reading :: "event \<Rightarrow> bool" where
  "reading EVersion = True"
| "reading EPermissions = True"
| "reading EResources = True"
| "reading (EStorages p) = True"
| "reading (ENetworks p) = True"
| "reading (ENode n) = True"
| "reading (EGetVM n i) = True"
| "reading _ = False"

lemma reading_not_mutating: "reading e \<Longrightarrow> \<not> mutating e"
  by (cases e) auto

lemma keeps_ListVMs [keepsI]:
  "A EResources \<Longrightarrow> keeps (emits A) (ListVMs P c)"
  "keeps same_ext (ListVMs P c)"
  unfolding ListVMs_def by (intro keepsI | simp)+

lemma keeps_GetVM [keepsI]:
  "A (ENode node) \<Longrightarrow> A (EGetVM node vmid) \<Longrightarrow> keeps (emits A) (GetVM P c node vmid)"
  "keeps same_ext (GetVM P c node vmid)"
  unfolding GetVM_def by (intro keepsI | simp)+

lemma keeps_find_rows:
  "(\<And>n. A (ENode n)) \<Longrightarrow> (\<And>n i. A (EGetVM n i)) \<Longrightarrow> keeps (emits A) (find_rows P c name tag rows)"
  "keeps same_ext (find_rows P c name tag rows)"
  by (induction rows) (auto intro!: keepsI)

lemma keeps_FindVMByNameAndTag [keepsI]:
  "A EResources \<Longrightarrow> (\<And>n. A (ENode n)) \<Longrightarrow> (\<And>n i. A (EGetVM n i)) \<Longrightarrow>
   keeps (emits A) (FindVMByNameAndTag P c name tag)"
  "keeps same_ext (FindVMByNameAndTag P c name tag)"
  unfolding FindVMByNameAndTag_def by (intro keepsI keeps_find_rows | simp)+

lemma keeps_ResolveTemplate [keepsI]:
  "A EResources \<Longrightarrow> (\<And>n. A (ENode n)) \<Longrightarrow> (\<And>n i. A (EGetVM n i)) \<Longrightarrow>
   keeps (emits A) (ResolveTemplate P c ref)"
  "keeps same_ext (ResolveTemplate P c ref)"
  unfolding ResolveTemplate_def by (intro keepsI | simp)+

lemma keeps_NodeStorages [keepsI]:
  "(\<And>p. A (EStorages p)) \<Longrightarrow> keeps (emits A) (NodeStorages P c node)"
  "keeps same_ext (NodeStorages P c node)"
  unfolding NodeStorages_def by (intro keepsI | simp)+

lemma keeps_NodeBridges [keepsI]:
  "(\<And>p. A (ENetworks p)) \<Longrightarrow> keeps (emits A) (NodeBridges P c node)"
  "keeps same_ext (NodeBridges P c node)"
  unfolding NodeBridges_def by (intro keepsI | simp)+

lemma proper_ListVMs [properI]: "proper (ListVMs P c)"
  unfolding ListVMs_def by (intro properI)

lemma proper_GetVM [properI]: "proper (GetVM P c node vmid)"
  unfolding GetVM_def by (intro properI)

lemma proper_find_rows: "proper (find_rows P c name tag rows)"
  by (induction rows) (auto intro!: properI)

lemma proper_FindVMByNameAndTag [properI]: "proper (FindVMByNameAndTag P c name tag)"
  unfolding FindVMByNameAndTag_def by (intro properI proper_find_rows)

lemma proper_ResolveTemplate [properI]: "proper (ResolveTemplate P c ref)"
  unfolding ResolveTemplate_def by (intro properI | simp split: prod.split)+

lemma proper_NodeStorages [properI]: "proper (NodeStorages P c node)"
  unfolding NodeStorages_def by (intro properI)

lemma proper_NodeBridges [properI]: "proper (NodeBridges P c node)"
  unfolding NodeBridges_def by (intro properI)

section \<open>Properties\<close>

text \<open>
  What the template scan computes, without its loop: the rows that match the reference, and
  the names of all templates.
\<close>

definition template_candidates :: "string \<Rightarrow> vm_resource list \<Rightarrow> vm_resource list" where
  "template_candidates ref rows = filter (\<lambda>r. res_type r = ''qemu'' \<and> template_ref ref r) rows"

definition template_names :: "vm_resource list \<Rightarrow> string list" where
  "template_names rows = map res_name (filter (\<lambda>r. res_type r = ''qemu'' \<and> res_template r = 1) rows)"

lemma scan_templates_eq:
  "scan_templates ref match names rows =
     (case (case match of None \<Rightarrow> [] | Some m \<Rightarrow> [m]) @ template_candidates ref rows of
        [] \<Rightarrow> Inr (None, names @ template_names rows)
      | [m] \<Rightarrow> Inr (Some m, names @ template_names rows)
      | m # row # rest \<Rightarrow> Inl (ambiguous_template ref m row))"
  by (induction rows arbitrary: match names)
     (auto simp: template_candidates_def template_names_def Let_def split: option.splits list.splits)


lemma find_rows_Some:
  "find_rows P c name tag rows s = Some (Ok (Some v), s') \<Longrightarrow>
   px_has_tag P v tag \<and> (\<exists>row \<in> set rows. res_type row = ''qemu'' \<and> res_template row \<noteq> 1
     \<and> res_name row = name \<and> (\<exists>u. GetVM P c (res_node row) (row_id row) u = Some (Ok v, s')))"
proof (induction rows arbitrary: s)
  case Nil
  then show ?case by simp
next
  case (Cons row rows)
  show ?case
  proof (cases "res_type row \<noteq> ''qemu'' \<or> res_template row = 1 \<or> res_name row \<noteq> name")
    case True
    with Cons show ?thesis by auto
  next
    case False
    with Cons.prems obtain res t where res: "attemptE (GetVM P c (res_node row) (row_id row)) s = Some (Ok res, t)"
      and rest: "(case res of
            Inl err \<Rightarrow> if IsNotFoundErr P (Some err) then find_rows P c name tag rows else errE err
          | Inr v \<Rightarrow> if px_has_tag P v tag then okE (Some v) else find_rows P c name tag rows) t
          = Some (Ok (Some v), s')"
      by (auto elim: bindE_OkE)
    from res show ?thesis
    proof (cases rule: attemptE_OkE)
      case (ok y)
      with False rest Cons.IH show ?thesis by (auto split: if_splits)
    next
      case (err e)
      with False rest Cons.IH show ?thesis by (auto split: if_splits)
    qed
  qed
qed

lemma find_rows_None:
  fixes s s' :: "('w, 'x) st_scheme"
  shows "find_rows P c name tag rows s = Some (Ok None, s') \<Longrightarrow> row \<in> set rows \<Longrightarrow>
   res_type row = ''qemu'' \<Longrightarrow> res_template row \<noteq> 1 \<Longrightarrow> res_name row = name \<Longrightarrow>
   \<exists>t r (t' :: ('w, 'x) st_scheme). GetVM P c (res_node row) (row_id row) t = Some (r, t') \<and>
     (case r of Ok v \<Rightarrow> \<not> px_has_tag P v tag | Err e \<Rightarrow> IsNotFoundErr P (Some e) | Panic p \<Rightarrow> False)"
proof (induction rows arbitrary: s)
  case Nil
  then show ?case by simp
next
  case (Cons r0 rows)
  show ?case
  proof (cases "res_type r0 \<noteq> ''qemu'' \<or> res_template r0 = 1 \<or> res_name r0 \<noteq> name")
    case True
    with Cons show ?thesis by auto
  next
    case False
    with Cons.prems(1) obtain res t where res: "attemptE (GetVM P c (res_node r0) (row_id r0)) s = Some (Ok res, t)"
      and rest: "(case res of
            Inl err \<Rightarrow> if IsNotFoundErr P (Some err) then find_rows P c name tag rows else errE err
          | Inr v \<Rightarrow> if px_has_tag P v tag then okE (Some v) else find_rows P c name tag rows) t
          = Some (Ok None, s')"
      by (auto elim: bindE_OkE)
    from res rest have later: "find_rows P c name tag rows t = Some (Ok None, s')"
      by (auto elim!: attemptE_OkE split: if_splits)
    show ?thesis
    proof (cases "row = r0")
      case True
      from res show ?thesis
      proof (cases rule: attemptE_OkE)
        case (ok y)
        have "case Ok y of Ok v \<Rightarrow> \<not> px_has_tag P v tag | Err e \<Rightarrow> IsNotFoundErr P (Some e)
            | Panic p \<Rightarrow> False"
          using rest ok by (auto split: if_splits)
        with True ok(1) show ?thesis by blast
      next
        case (err e)
        have "case Err e of Ok v \<Rightarrow> \<not> px_has_tag P v tag | Err e \<Rightarrow> IsNotFoundErr P (Some e)
            | Panic p \<Rightarrow> False"
          using rest err by (auto split: if_splits)
        with True err(1) show ?thesis by blast
      qed
    next
      case False
      with Cons.prems have "row \<in> set rows" by simp
      with Cons.IH [OF later] Cons.prems show ?thesis by blast
    qed
  qed
qed

text \<open>
  C31. The orphan search: a VM it returns carries the tag and was read for a listed QEMU row of
  that name which is no template; and when it returns nothing, every such row was read and
  either is gone or carries no tag. The name alone is never enough.
\<close>

theorem FindVMByNameAndTag_sound_complete:
  fixes s s' :: "('w, 'x) st_scheme"
  assumes "FindVMByNameAndTag P c name tag s = Some (Ok found, s')"
  shows "\<exists>rows t. ListVMs P c s = Some (Ok rows, t) \<and>
    (case found of
       Some v \<Rightarrow> px_has_tag P v tag \<and> (\<exists>row \<in> set rows. res_type row = ''qemu''
          \<and> res_template row \<noteq> 1 \<and> res_name row = name
          \<and> (\<exists>u. GetVM P c (res_node row) (row_id row) u = Some (Ok v, s')))
     | None \<Rightarrow> (\<forall>row \<in> set rows. res_type row = ''qemu'' \<and> res_template row \<noteq> 1 \<and> res_name row = name
          \<longrightarrow> (\<exists>u r (u' :: ('w, 'x) st_scheme). GetVM P c (res_node row) (row_id row) u = Some (r, u') \<and>
                 (case r of Ok v \<Rightarrow> \<not> px_has_tag P v tag | Err e \<Rightarrow> IsNotFoundErr P (Some e)
                  | Panic p \<Rightarrow> False))))"
proof -
  from assms obtain rows t where rows: "ListVMs P c s = Some (Ok rows, t)"
    and find: "find_rows P c name tag rows t = Some (Ok found, s')"
    unfolding FindVMByNameAndTag_def by (auto elim: bindE_OkE)
  show ?thesis
  proof (cases found)
    case (Some v)
    with find find_rows_Some [of P c name tag rows t v s'] rows show ?thesis by auto
  next
    case None
    with find have "find_rows P c name tag rows t = Some (Ok None, s')" by simp
    note none = find_rows_None [OF this]
    have "\<forall>row \<in> set rows. res_type row = ''qemu'' \<and> res_template row \<noteq> 1 \<and> res_name row = name
        \<longrightarrow> (\<exists>u r (u' :: ('w, 'x) st_scheme). GetVM P c (res_node row) (row_id row) u = Some (r, u') \<and>
               (case r of Ok v \<Rightarrow> \<not> px_has_tag P v tag | Err e \<Rightarrow> IsNotFoundErr P (Some e)
                | Panic p \<Rightarrow> False))"
      by (intro ballI impI none) auto
    with rows None show ?thesis by auto
  qed
qed

theorem FindVMByNameAndTag_sound_complete_witness:
  "\<exists>s' rows t. FindVMByNameAndTag sim cl0 ''node-1'' ''rancher-pvenode'' st0 = Some (Ok (Some owned_vm), s')
     \<and> ListVMs sim cl0 st0 = Some (Ok rows, t) \<and> px_has_tag sim owned_vm ''rancher-pvenode''"
proof -
  have "map_option fst (FindVMByNameAndTag sim cl0 ''node-1'' ''rancher-pvenode'' st0)
      = Some (Ok (Some owned_vm))" by code_simp
  then obtain s' where
    run: "FindVMByNameAndTag sim cl0 ''node-1'' ''rancher-pvenode'' st0 = Some (Ok (Some owned_vm), s')"
    by auto
  from FindVMByNameAndTag_sound_complete [OF run] run show ?thesis by auto
qed

text \<open>
  \<open>NodeBridges\<close> returns the interfaces of type bridge, each as often as it is listed, in
  lexicographic order.
\<close>

lemma bridges_sorted_complete:
  "sorted (bridges_of rows) \<and>
   set (bridges_of rows) = {nr_iface r | r. r \<in> set rows \<and> nr_type r = ''bridge''} \<and>
   length (bridges_of rows) = length (filter (\<lambda>r. nr_type r = ''bridge'') rows)"
  by (auto simp: bridges_of_def)

text \<open>
  The contract of a search for this machine's VM, as the driver uses it: it only reads, and
  what it finds is owned. Whatever is then done with the VM is done to an owned VM.
\<close>

locale owned_search =
  fixes search :: "(('w, 'x) st_scheme, vm option) eff"
    and owned :: "vm \<Rightarrow> bool"
  assumes found_owned: "search s = Some (Ok (Some v), s') \<Longrightarrow> owned v"
    and reads_only: "keeps (emits reading) search"
begin

lemma ensures_owned: "ensures search (\<lambda>r. \<forall>v. r = Some v \<longrightarrow> owned v)"
  using found_owned by (auto simp: ensures_def)

lemma then_only_owned:
  assumes A: "\<And>e. reading e \<Longrightarrow> A e" and f: "\<And>r. (\<And>v. r = Some v \<Longrightarrow> owned v) \<Longrightarrow> keeps (emits A) (f r)"
  shows "keeps (emits A) (bindE search f)"
proof (rule emits.keeps_bindE_ensures [OF _ ensures_owned])
  show "keeps (emits A) search" by (rule keeps_emits_mono [OF reads_only A])
qed (use f in blast)

end

interpretation by_tag: owned_search "FindVMByNameAndTag P c name tag" "\<lambda>v. px_has_tag P v tag"
  for P c name tag
proof unfold_locales
  show "FindVMByNameAndTag P c name tag s = Some (Ok (Some v), s') \<Longrightarrow> px_has_tag P v tag"
    for s s' :: "('a, 'b) st_scheme" and v
    unfolding FindVMByNameAndTag_def by (auto elim!: bindE_OkE dest: find_rows_Some)
  show "keeps (emits reading) (FindVMByNameAndTag P c name tag)"
    by (intro keepsI) simp_all
qed

end
