(* ===== verification/VmOps.thy ===== *)
theory VmOps
  imports Resources
begin

text \<open>
  The operations on one VM, \<open>pkg/pve/vmops.go\<close>: each asks PVE for a task and waits for it.
  They share a contract, the locale \<open>task_op\<close>, of which every operation is an interpretation.
\<close>

section \<open>Operations\<close>

definition configTaskTimeout :: int where "configTaskTimeout = 2 * minute"
definition resizeTaskTimeout :: int where "resizeTaskTimeout = 5 * minute"
definition startTaskTimeout :: int where "startTaskTimeout = 2 * minute"
definition stopTaskTimeout :: int where "stopTaskTimeout = 2 * minute"
definition deleteTaskTimeout :: int where "deleteTaskTimeout = 10 * minute"
definition deleteAttempts :: int where "deleteAttempts = 5"

definition ApplyConfig :: "'w px \<Rightarrow> vm \<Rightarrow> vm_option list \<Rightarrow> (('w, 'x) st_scheme, unit) eff" where
  "ApplyConfig P v opts =
     bindE (mapErrE (wrapw (''configuring VM '' @ itoa (vm_id v) @ '': '') [])
              (callE (EConfig v opts) (px_config P v opts)))
       (\<lambda>task. mapErrE (wrapw (''configuring VM '' @ itoa (vm_id v) @ '': '') [])
                 (WaitTask P task configTaskTimeout))"

definition ResizeVMDisk :: "'w px \<Rightarrow> vm \<Rightarrow> string \<Rightarrow> int \<Rightarrow> (('w, 'x) st_scheme, unit) eff" where
  "ResizeVMDisk P v disk sizeGB =
     bindE (mapErrE (wrapw (''resizing disk '' @ disk @ '' of VM '' @ itoa (vm_id v) @ '' to ''
                       @ itoa sizeGB @ ''G: '') [])
              (callE (EResize v disk (itoa sizeGB @ ''G'')) (px_resize P v disk (itoa sizeGB @ ''G''))))
       (\<lambda>task. mapErrE (wrapw (''resizing disk '' @ disk @ '' of VM '' @ itoa (vm_id v) @ '': '') [])
                 (WaitTask P task resizeTaskTimeout))"

definition StartVM :: "'w px \<Rightarrow> vm \<Rightarrow> (('w, 'x) st_scheme, unit) eff" where
  "StartVM P v =
     bindE (mapErrE (wrapw (''starting VM '' @ itoa (vm_id v) @ '': '') []) (callE (EStart v) (px_start P v)))
       (\<lambda>task. WaitTask P task startTaskTimeout)"

definition ShutdownVM :: "'w px \<Rightarrow> vm \<Rightarrow> int \<Rightarrow> (('w, 'x) st_scheme, unit) eff" where
  "ShutdownVM P v timeout =
     bindE (mapErrE (wrapw (''shutting down VM '' @ itoa (vm_id v) @ '': '') [])
              (callE (EShutdown v) (px_shutdown P v)))
       (\<lambda>task. WaitTask P task timeout)"

definition StopVM :: "'w px \<Rightarrow> vm \<Rightarrow> (('w, 'x) st_scheme, unit) eff" where
  "StopVM P v =
     bindE (mapErrE (wrapw (''stopping VM '' @ itoa (vm_id v) @ '': '') []) (callE (EStop v) (px_stop P v)))
       (\<lambda>task. WaitTask P task stopTaskTimeout)"

definition purge_options :: delete_options where
  "purge_options = \<lparr>do_purge = True, do_unreferenced = True\<rparr>"

definition delete_retryable :: "goerr option \<Rightarrow> bool" where
  "delete_retryable err = (IsLockErr err \<or> IsTransient err)"

definition delete_attempt :: "'w px \<Rightarrow> vm \<Rightarrow> (('w, 'x) st_scheme, unit) eff" where
  "delete_attempt P v =
     bindE (callE (EDelete v purge_options) (px_delete P v purge_options))
       (\<lambda>task. WaitTask P task deleteTaskTimeout)"

definition DeleteVM :: "'w px \<Rightarrow> vm \<Rightarrow> (('w, 'x) st_scheme, unit) eff" where
  "DeleteVM P v = Retry P deleteAttempts (2 * second) delete_retryable (delete_attempt P v)"

section \<open>The contract of a task operation\<close>

text \<open>
  An operation \<open>op\<close> that makes the call \<open>f\<close> (event \<open>ev\<close>) and then waits for the task it
  returns: it succeeds exactly when the call succeeds and its task does.
\<close>

locale task_op =
  fixes P :: "'w px" and op :: "(('w, 'x) st_scheme, unit) eff" and ev :: event
    and f :: "'w \<Rightarrow> (goerr + task option) \<times> 'w" and timeout :: int
  assumes op_shape: "\<exists>g h. op = bindE (mapErrE g (callE ev f)) (\<lambda>t. mapErrE h (WaitTask P t timeout))"
begin

lemma op_emits: "A ev \<Longrightarrow> (\<And>u d. A (EWait u d)) \<Longrightarrow> keeps (emits A) op"
  using op_shape by (auto intro!: keepsI)

lemma op_frame: "keeps same_ext op"
  using op_shape by (auto intro!: keepsI)

lemma op_proper: "proper op"
  using op_shape by (auto intro!: properI)

lemma op_succeeds:
  "op s = Some (Ok (), s') \<longleftrightarrow>
   (\<exists>t w. f (world s) = (Inr t, w) \<and>
      WaitTask P t timeout (s\<lparr>world := w, trace := trace s @ [ev]\<rparr>) = Some (Ok (), s'))"
proof -
  obtain g h where "op = bindE (mapErrE g (callE ev f)) (\<lambda>t. mapErrE h (WaitTask P t timeout))"
    using op_shape by blast
  then show ?thesis
    by (auto simp: bindE_def mapErrE_def callE_def of_sum_def
        split: option.splits go.splits prod.splits sum.splits)
qed

text \<open>The call is the first thing the operation does; every event after it is a wait.\<close>

lemma op_trace:
  assumes "op s = Some (r, s')"
  shows "\<exists>ws. trace s' = trace s @ ev # ws \<and> list_all (\<lambda>e. \<exists>u d. e = EWait u d) ws"
proof -
  obtain g h where op: "op = bindE (mapErrE g (callE ev f)) (\<lambda>t. mapErrE h (WaitTask P t timeout))"
    using op_shape by blast
  obtain a w where a: "f (world s) = (a, w)" by (cases "f (world s)")
  let ?t = "s\<lparr>world := w, trace := trace s @ [ev]\<rparr>"
  show ?thesis
  proof (cases a)
    case (Inl e)
    with assms a op show ?thesis
      by (auto simp: bindE_def mapErrE_def callE_def of_sum_def)
  next
    case (Inr t)
    with assms a op have "mapErrE h (WaitTask P t timeout) ?t = Some (r, s')"
      by (simp add: bindE_def mapErrE_def callE_def of_sum_def)
    moreover have "keeps (emits (\<lambda>e. \<exists>u d. e = EWait u d)) (mapErrE h (WaitTask P t timeout))"
      by (intro keepsI) auto
    ultimately have "emits (\<lambda>e. \<exists>u d. e = EWait u d) ?t s'" by (blast dest: keepsD)
    then show ?thesis by (auto simp: emits_def)
  qed
qed

end

lemma go_case_id: "(case r of Ok x \<Rightarrow> Ok x | Err e \<Rightarrow> Err e | Panic p \<Rightarrow> Panic p) = r"
  by (cases r) simp_all

lemma mapErrE_id: "mapErrE (\<lambda>e. e) m = m"
  by (auto simp: fun_eq_iff mapErrE_def go_case_id split: option.split)

lemma task_op_unwrapped:
  "op = bindE (mapErrE g (callE ev f)) (\<lambda>t. WaitTask P t timeout) \<Longrightarrow> task_op P op ev f timeout"
  by (unfold_locales, rule exI [of _ g], rule exI [of _ "\<lambda>e. e"]) (simp only: mapErrE_id)

interpretation config: task_op P "ApplyConfig P v opts" "EConfig v opts" "px_config P v opts" configTaskTimeout
  for P v opts
  by unfold_locales (auto simp: ApplyConfig_def)

interpretation resize: task_op P "ResizeVMDisk P v disk gb" "EResize v disk (itoa gb @ ''G'')"
  "px_resize P v disk (itoa gb @ ''G'')" resizeTaskTimeout for P v disk gb
  by unfold_locales (auto simp: ResizeVMDisk_def)

interpretation start: task_op P "StartVM P v" "EStart v" "px_start P v" startTaskTimeout for P v
  by (rule task_op_unwrapped) (rule StartVM_def)

interpretation shutdown: task_op P "ShutdownVM P v timeout" "EShutdown v" "px_shutdown P v" timeout
  for P v timeout
  by (rule task_op_unwrapped) (rule ShutdownVM_def)

interpretation stop: task_op P "StopVM P v" "EStop v" "px_stop P v" stopTaskTimeout for P v
  by (rule task_op_unwrapped) (rule StopVM_def)

interpretation delete: task_op P "delete_attempt P v" "EDelete v purge_options"
  "px_delete P v purge_options" deleteTaskTimeout for P v
  by (rule task_op_unwrapped [where g = "\<lambda>e. e"]) (simp add: delete_attempt_def mapErrE_id)

lemmas [keepsI] = config.op_emits config.op_frame resize.op_emits resize.op_frame
  start.op_emits start.op_frame shutdown.op_emits shutdown.op_frame
  stop.op_emits stop.op_frame delete.op_emits delete.op_frame

lemmas [properI] = config.op_proper resize.op_proper start.op_proper shutdown.op_proper
  stop.op_proper delete.op_proper

section \<open>DeleteVM\<close>

fun is_delete :: "event \<Rightarrow> bool" where
  "is_delete (EDelete v opts) = True"
| "is_delete _ = False"

lemma keeps_grew_trace_op:
  assumes "\<And>s r s'. op s = Some (r, s') \<Longrightarrow>
      \<exists>ws. trace s' = trace s @ ev # ws \<and> list_all (\<lambda>e. \<not> B e) ws"
  shows "keeps (grew B 1) op"
proof (rule keeps_intro)
  fix s r s'
  assume "op s = Some (r, s')"
  from assms [OF this] obtain ws where ws: "trace s' = trace s @ ev # ws" "list_all (\<lambda>e. \<not> B e) ws"
    by blast
  then have "filter B ws = []" by (simp add: filter_empty_if)
  with ws show "grew B 1 s s'" unfolding grew_def by (intro exI [of _ "ev # ws"]) simp
qed

lemma delete_attempt_once: "keeps (grew is_delete 1) (delete_attempt P v)"
proof (rule keeps_grew_trace_op)
  show "\<exists>ws. trace s' = trace s @ EDelete v purge_options # ws \<and> list_all (\<lambda>e. \<not> is_delete e) ws"
    if "delete_attempt P v s = Some (r, s')" for s s' r
    using delete.op_trace [OF that] by (fastforce simp: list_all_iff)
qed

interpretation delete_retried: retried_op "delete_attempt P v" is_delete for P v
  by unfold_locales (simp_all add: delete_attempt_once [simplified])

lemma keeps_DeleteVM [keepsI]:
  "A (EDelete v purge_options) \<Longrightarrow> (\<And>u d. A (EWait u d)) \<Longrightarrow> (\<And>n. A (ERand n)) \<Longrightarrow>
   (\<And>d. A (ESleep d)) \<Longrightarrow> keeps (emits A) (DeleteVM P v)"
  "keeps same_ext (DeleteVM P v)"
  unfolding DeleteVM_def by (intro keepsI | simp)+

lemma proper_DeleteVM [properI]: "proper (DeleteVM P v)"
  unfolding DeleteVM_def
  by (intro proper_Retry properI) (simp_all add: second_def maxBackoff_def)

text \<open>
  C19. \<open>DeleteVM\<close> always returns, sends at most five delete requests, all for the VM it was
  given and all with disk purge, and succeeds only if one of them succeeded together with its
  task.
\<close>

theorem DeleteVM_bounded:
  "\<exists>r s'. DeleteVM P v s = Some (r, s') \<and> (\<forall>p. r \<noteq> Panic p) \<and>
     grew is_delete 5 s s' \<and>
     emits (\<lambda>e. \<not> mutating e \<or> e = EDelete v \<lparr>do_purge = True, do_unreferenced = True\<rparr>) s s' \<and>
     (r = Ok () \<longrightarrow> (\<exists>t. delete_attempt P v t = Some (Ok (), s')))"
proof -
  from proper_DeleteVM [of P v] obtain r s' where run: "DeleteVM P v s = Some (r, s')"
    and np: "\<forall>p. r \<noteq> Panic p" unfolding proper_def by blast
  have "keeps (grew is_delete (nat deleteAttempts)) (DeleteVM P v)"
    unfolding DeleteVM_def by (rule delete_retried.calls_bounded)
  with run have "grew is_delete 5 s s'" by (auto simp: deleteAttempts_def dest: keepsD)
  moreover have "keeps (emits (\<lambda>e. \<not> mutating e \<or> e = EDelete v \<lparr>do_purge = True, do_unreferenced = True\<rparr>))
      (DeleteVM P v)"
    by (intro keepsI) (simp_all add: purge_options_def)
  with run have "emits (\<lambda>e. \<not> mutating e \<or> e = EDelete v \<lparr>do_purge = True, do_unreferenced = True\<rparr>) s s'"
    by (blast dest: keepsD)
  moreover have "r = Ok () \<longrightarrow> (\<exists>t. delete_attempt P v t = Some (Ok (), s'))"
    using run unfolding DeleteVM_def by (auto dest: Retry_Ok)
  ultimately show ?thesis using run np by blast
qed

text \<open>A concrete run that first meets two lock failures.\<close>

theorem DeleteVM_bounded_witness:
  "\<exists>s'. DeleteVM sim owned_vm busy_st = Some (Ok (), s') \<and> grew is_delete 5 busy_st s'"
proof -
  have "map_option fst (DeleteVM sim owned_vm busy_st) = Some (Ok ())" by code_simp
  then obtain s' where run: "DeleteVM sim owned_vm busy_st = Some (Ok (), s')" by auto
  with DeleteVM_bounded [of sim owned_vm busy_st] show ?thesis by auto
qed

end
