(* ===== verification/Clone.thy ===== *)
theory Clone
  imports VmOps
begin

text \<open>
  Cloning the template into a new VM, \<open>pkg/pve/clone.go\<close>: the choice of a random free VMID,
  the clone with its retries, the ownership tags and the clean-up of a partial VM.
\<close>

section \<open>Operations\<close>

record CloneSpec =
  cs_Name :: string
  cs_TargetNode :: string
  cs_Storage :: string
  cs_Linked :: bool
  cs_Pool :: string
  cs_VMIDLo :: int
  cs_VMIDHi :: int
  cs_Tags :: "string list"

definition cloneAttempts :: int where "cloneAttempts = 10"
definition cloneBackoffBase :: int where "cloneBackoffBase = 2 * second"
definition cloneTaskTimeout :: int where "cloneTaskTimeout = 15 * minute"
definition tagTaskTimeout :: int where "tagTaskTimeout = 2 * minute"

text \<open>The keys of the map \<open>used\<close>, and the count of those in the range.\<close>

definition used_ids :: "vm_resource list \<Rightarrow> int list" where
  "used_ids rows = remdups (map row_id rows)"

definition countUsedIn :: "int list \<Rightarrow> int \<Rightarrow> int \<Rightarrow> int" where
  "countUsedIn used lo hi = int (length (filter (\<lambda>i. lo \<le> i \<and> i \<le> hi) used))"

text \<open>The endless loop \<open>for { id := lo + rand.Intn(span); if !used[id] { return id, nil } }\<close>.\<close>

partial_function (option) pick_free ::
  "'w px \<Rightarrow> int \<Rightarrow> int \<Rightarrow> int list \<Rightarrow> ('w, 'x) st_scheme \<Rightarrow> (int go \<times> ('w, 'x) st_scheme) option" where
  "pick_free P lo span used s =
     (case intnE P span s of
        None \<Rightarrow> None
      | Some (r, s') \<Rightarrow>
          (case r of
             Ok k \<Rightarrow>
               if lo + k \<notin> set used then Some (Ok (lo + k), s') else pick_free P lo span used s'
           | Err e \<Rightarrow> Some (Err e, s')
           | Panic p \<Rightarrow> Some (Panic p, s')))"

declare pick_free.simps [code]

definition no_free_vmid :: "int \<Rightarrow> int \<Rightarrow> int \<Rightarrow> goerr" where
  "no_free_vmid lo hi span =
     ErrorString (''no free VMID in range '' @ itoa lo @ ''-'' @ itoa hi @ '' ('' @ itoa span
       @ '' in use) '' @ dash @ '' widen --pvenode-vmid-range'')"

definition randomFreeVMID ::
  "'w px \<Rightarrow> client \<Rightarrow> int \<Rightarrow> int \<Rightarrow> (('w, 'x) st_scheme, int) eff" where
  "randomFreeVMID P c lo hi =
     bindE (ListVMs P c) (\<lambda>rows.
       let used = used_ids rows;
           span = wrap64 (hi - lo + 1);
           free = wrap64 (span - countUsedIn used lo hi)
       in if free \<le> 0 then errE (no_free_vmid lo hi span)
          else pick_free P lo span used)"

definition bestEffortDelete ::
  "'w px \<Rightarrow> client \<Rightarrow> string \<Rightarrow> int \<Rightarrow> (('w, 'x) st_scheme, unit) eff" where
  "bestEffortDelete P c node vmid =
     (if vmid = 0 then okE ()
      else
        bindE (attemptE (GetVM P c node vmid)) (\<lambda>res. case res of
            Inl err \<Rightarrow> okE ()
          | Inr v \<Rightarrow>
              bindE (attemptE (bindE (callE (EDelete v purge_options) (px_delete P v purge_options))
                       (\<lambda>task. WaitTask P task (5 * minute))))
                (\<lambda>_. okE ())))"

definition clone_retryable :: "goerr option \<Rightarrow> bool" where
  "clone_retryable err = (IsVMIDConflict err \<or> IsLockErr err \<or> IsTransient err)"

definition clone_target :: "vm \<Rightarrow> CloneSpec \<Rightarrow> string" where
  "clone_target tmpl spec = (if cs_TargetNode spec = [] then vm_node tmpl else cs_TargetNode spec)"

definition clone_opts :: "vm \<Rightarrow> CloneSpec \<Rightarrow> int \<Rightarrow> clone_options" where
  "clone_opts tmpl spec i =
     \<lparr>co_newid = i, co_name = cs_Name spec, co_full = (\<not> cs_Linked spec), co_pool = cs_Pool spec,
      co_storage = cs_Storage spec,
      co_target = (if cs_TargetNode spec \<noteq> [] \<and> cs_TargetNode spec \<noteq> vm_node tmpl
                   then cs_TargetNode spec else [])\<rparr>"

definition clone_attempt ::
  "'w px \<Rightarrow> client \<Rightarrow> vm \<Rightarrow> CloneSpec \<Rightarrow> (('w, 'x) st_scheme, int) eff" where
  "clone_attempt P c tmpl spec =
     bindE (randomFreeVMID P c (cs_VMIDLo spec) (cs_VMIDHi spec)) (\<lambda>i.
     bindE (callE (EClone tmpl (clone_opts tmpl spec i)) (px_clone P tmpl (clone_opts tmpl spec i)))
       (\<lambda>(newid, task).
     bindE (attemptE (WaitTask P task cloneTaskTimeout)) (\<lambda>res. case res of
         Inl err \<Rightarrow> bindE (bestEffortDelete P c (clone_target tmpl spec) newid) (\<lambda>_. errE err)
       | Inr u \<Rightarrow> okE newid)))"

definition tag_option :: "CloneSpec \<Rightarrow> vm_option" where
  "tag_option spec = \<lparr>opt_name = ''tags'', opt_value = VStr (join '';'' (cs_Tags spec))\<rparr>"

definition stamp_tags :: "'w px \<Rightarrow> vm \<Rightarrow> CloneSpec \<Rightarrow> (('w, 'x) st_scheme, unit) eff" where
  "stamp_tags P v spec =
     bindE (callE (EConfig v [tag_option spec]) (px_config P v [tag_option spec]))
       (\<lambda>task. WaitTask P task tagTaskTimeout)"

definition cloning_error :: "vm \<Rightarrow> goerr \<Rightarrow> goerr" where
  "cloning_error tmpl = wrapw (''cloning template '' @ quote (vm_name tmpl) @ '': '') []"

definition unreadable_error :: "int \<Rightarrow> goerr \<Rightarrow> goerr" where
  "unreadable_error vmid err = wrapw (''clone succeeded but VM '' @ itoa vmid @ '' is not readable: '') [] err"

definition tagging_error :: "int \<Rightarrow> goerr \<Rightarrow> goerr" where
  "tagging_error vmid err = wrapw (''tagging VM '' @ itoa vmid @ '': '') [] err"

text \<open>After a successful clone task: read the VM and stamp its tags, or delete it again.\<close>

definition finish_clone ::
  "'w px \<Rightarrow> client \<Rightarrow> vm \<Rightarrow> CloneSpec \<Rightarrow> int \<Rightarrow> (('w, 'x) st_scheme, vm) eff" where
  "finish_clone P c tmpl spec vmid =
     bindE (attemptE (GetVM P c (clone_target tmpl spec) vmid)) (\<lambda>res. case res of
         Inl err \<Rightarrow>
           bindE (bestEffortDelete P c (clone_target tmpl spec) vmid) (\<lambda>_.
             errE (unreadable_error vmid err))
       | Inr v \<Rightarrow>
           if 0 < length (cs_Tags spec)
           then bindE (attemptE (stamp_tags P v spec)) (\<lambda>res. case res of
                    Inl err \<Rightarrow>
                      bindE (bestEffortDelete P c (clone_target tmpl spec) vmid) (\<lambda>_.
                        errE (tagging_error vmid err))
                  | Inr u \<Rightarrow> okE v)
           else okE v)"

definition CloneFromTemplate ::
  "'w px \<Rightarrow> client \<Rightarrow> vm \<Rightarrow> CloneSpec \<Rightarrow> (('w, 'x) st_scheme, vm) eff" where
  "CloneFromTemplate P c tmpl spec =
     bindE (mapErrE (cloning_error tmpl)
              (Retry P cloneAttempts cloneBackoffBase clone_retryable (clone_attempt P c tmpl spec)))
       (finish_clone P c tmpl spec)"

section \<open>The random choice\<close>

text \<open>The state after \<open>n\<close> draws, and the number that is drawn next.\<close>

definition next_draw :: "'w px \<Rightarrow> int \<Rightarrow> ('w, 'x) st_scheme \<Rightarrow> int" where
  "next_draw P span s = fst (rt_intn P span (world s))"

definition after_draw :: "'w px \<Rightarrow> int \<Rightarrow> ('w, 'x) st_scheme \<Rightarrow> ('w, 'x) st_scheme" where
  "after_draw P span s = s\<lparr>world := snd (rt_intn P span (world s)), trace := trace s @ [ERand span]\<rparr>"

primrec after_draws :: "'w px \<Rightarrow> int \<Rightarrow> nat \<Rightarrow> ('w, 'x) st_scheme \<Rightarrow> ('w, 'x) st_scheme" where
  "after_draws P span 0 s = s"
| "after_draws P span (Suc n) s = after_draws P span n (after_draw P span s)"

lemma intnE_draw:
  "0 < span \<Longrightarrow> intnE P span s = Some (Ok (next_draw P span s), after_draw P span s)"
  by (simp add: intnE_def drawE_def next_draw_def after_draw_def split: prod.split)

lemma pick_free_unfold:
  assumes "0 < span"
  shows "pick_free P lo span used s =
    (if lo + next_draw P span s \<notin> set used then Some (Ok (lo + next_draw P span s), after_draw P span s)
     else pick_free P lo span used (after_draw P span s))"
  by (subst pick_free.simps) (simp add: intnE_draw [OF assms])

lemma next_draw_range:
  "rand_in_range P \<Longrightarrow> 0 < span \<Longrightarrow> 0 \<le> next_draw P span u \<and> next_draw P span u < span"
  by (simp add: rand_in_range_def next_draw_def)

definition first_hit :: "'w px \<Rightarrow> int \<Rightarrow> int \<Rightarrow> int list \<Rightarrow> ('w, 'x) st_scheme \<Rightarrow> nat \<Rightarrow> bool" where
  "first_hit P lo span used s n \<longleftrightarrow>
     (\<forall>m < n. lo + next_draw P span (after_draws P span m s) \<in> set used)
     \<and> lo + next_draw P span (after_draws P span n s) \<notin> set used"

lemma first_hit_0: "lo + next_draw P span s \<notin> set used \<Longrightarrow> first_hit P lo span used s 0"
  by (simp add: first_hit_def)

lemma first_hit_Suc:
  "lo + next_draw P span s \<in> set used \<Longrightarrow> first_hit P lo span used (after_draw P span s) n \<Longrightarrow>
   first_hit P lo span used s (Suc n)"
  by (auto simp: first_hit_def less_Suc_eq_0_disj)

lemma pick_free_hits:
  assumes span: "0 < span" and ret: "pick_free P lo span used s = Some (r, s')"
  shows "\<exists>n. first_hit P lo span used s n
    \<and> r = Ok (lo + next_draw P span (after_draws P span n s)) \<and> s' = after_draws P span (Suc n) s"
proof -
  let ?Q = "\<lambda>x (r, s'). case x of ((((P, lo), span), used), s) \<Rightarrow> 0 < span \<longrightarrow>
     (\<exists>n. first_hit P lo span used s n
       \<and> r = Ok (lo + next_draw P span (after_draws P span n s)) \<and> s' = after_draws P span (Suc n) s)"
  have "?Q ((((P, lo), span), used), s) (r, s')"
  proof (rule pick_free.raw_induct [OF _ ret], goal_cases)
    case (1 f P lo span used s y)
    note IH = "1"(1) and body = "1"(2)
    show ?case
    proof (cases "0 < span")
      case True
      note unf = body [unfolded intnE_draw [OF True]]
      show ?thesis
      proof (cases "lo + next_draw P span s \<in> set used")
        case False
        with unf first_hit_0 [OF False] show ?thesis by (auto intro!: exI [of _ 0])
      next
        case used: True
        with unf have "f P lo span used (after_draw P span s) = Some y" by simp
        from IH [OF this] True obtain n where "first_hit P lo span used (after_draw P span s) n"
          "fst y = Ok (lo + next_draw P span (after_draws P span n (after_draw P span s)))"
          "snd y = after_draws P span (Suc n) (after_draw P span s)"
          by (cases y) auto
        with first_hit_Suc [OF used] show ?thesis by (cases y) (auto intro!: exI [of _ "Suc n"])
      qed
    qed (cases y, simp)
  qed
  with span show ?thesis by simp
qed

lemma pick_free_returns:
  assumes "0 < span"
  shows "first_hit P lo span used s n \<Longrightarrow>
    pick_free P lo span used s =
      Some (Ok (lo + next_draw P span (after_draws P span n s)), after_draws P span (Suc n) s)"
proof (induction n arbitrary: s)
  case 0
  then show ?case by (subst pick_free_unfold [OF assms]) (simp add: first_hit_def)
next
  case (Suc n)
  from Suc.prems have used: "lo + next_draw P span s \<in> set used"
    and hit: "first_hit P lo span used (after_draw P span s) n"
    unfolding first_hit_def by fastforce+
  from Suc.IH [OF hit] used show ?case by (subst pick_free_unfold [OF assms]) simp
qed

lemma after_draws_trace: "trace (after_draws P span n s) = trace s @ replicate n (ERand span)"
  by (induction n arbitrary: s) (simp_all add: after_draw_def)

lemma after_draws_same_ext: "same_ext s (after_draws P span n s)"
proof (induction n arbitrary: s)
  case (Suc n)
  have "same_ext s (after_draw P span s)" by (simp add: same_ext_def after_draw_def)
  with Suc show ?case by (auto intro: frame.R_trans)
qed (simp add: same_ext_def)

lemma pick_free_panic: "\<not> 0 < span \<Longrightarrow> pick_free P lo span used s = Some (Panic ''invalid argument to Intn'', s)"
  by (subst pick_free.simps) (simp add: intnE_def panicE_def)

lemma pick_free_effect:
  assumes "pick_free P lo span used s = Some (r, s')"
  shows "emits (\<lambda>e. e = ERand span) s s' \<and> same_ext s s'"
proof (cases "0 < span")
  case True
  from pick_free_hits [OF True assms] obtain n where "s' = after_draws P span (Suc n) s" by blast
  then show ?thesis
    using after_draws_trace [of P span "Suc n" s] after_draws_same_ext [of s P span "Suc n"]
    by (auto simp: emits_def list_all_iff)
next
  case False
  with assms pick_free_panic [OF False, of P lo used s] show ?thesis
    by (simp add: emits.R_refl frame.R_refl)
qed

lemma keeps_pick_free [keepsI]:
  "A (ERand span) \<Longrightarrow> keeps (emits A) (pick_free P lo span used)"
  "keeps same_ext (pick_free P lo span used)"
  unfolding keeps_def by (blast dest: pick_free_effect intro: emits_mono)+

section \<open>The free identifiers\<close>

text \<open>The ranges that \<open>parseVMIDRange\<close> accepts.\<close>

definition vmid_range_ok :: "int \<Rightarrow> int \<Rightarrow> bool" where
  "vmid_range_ok lo hi \<longleftrightarrow> 100 \<le> lo \<and> lo < hi \<and> hi \<le> 999999999"

definition free_count :: "int list \<Rightarrow> int \<Rightarrow> int \<Rightarrow> int" where
  "free_count used lo hi = wrap64 (wrap64 (hi - lo + 1) - countUsedIn used lo hi)"

lemma countUsedIn_card:
  "distinct used \<Longrightarrow> countUsedIn used lo hi = int (card (set used \<inter> {lo..hi}))"
proof -
  assume "distinct used"
  then have "distinct (filter (\<lambda>i. lo \<le> i \<and> i \<le> hi) used)" by simp
  from distinct_card [OF this]
  have "length (filter (\<lambda>i. lo \<le> i \<and> i \<le> hi) used) = card (set (filter (\<lambda>i. lo \<le> i \<and> i \<le> hi) used))"
    by (rule sym)
  also have "set (filter (\<lambda>i. lo \<le> i \<and> i \<le> hi) used) = set used \<inter> {lo..hi}" by auto
  finally show ?thesis by (simp add: countUsedIn_def)
qed

text \<open>The code's \<open>free\<close> is the number of unused identifiers of the range, without overflow.\<close>

lemma free_count_card:
  assumes "vmid_range_ok lo hi" and "distinct used"
  shows "free_count used lo hi = int (card ({lo..hi} - set used))"
    and "wrap64 (hi - lo + 1) = hi - lo + 1"
proof -
  show span: "wrap64 (hi - lo + 1) = hi - lo + 1"
    using assms(1) by (simp add: vmid_range_ok_def wrap64_def)
  have sub: "card (set used \<inter> {lo..hi}) \<le> card {lo..hi}" by (rule card_mono) auto
  have range: "int (card {lo..hi}) = hi - lo + 1" using assms(1) by (simp add: vmid_range_ok_def)
  have "{lo..hi} - set used = {lo..hi} - (set used \<inter> {lo..hi})" by auto
  moreover have "card ({lo..hi} - (set used \<inter> {lo..hi})) = card {lo..hi} - card (set used \<inter> {lo..hi})"
    by (rule card_Diff_subset) auto
  ultimately have "card ({lo..hi} - set used) = card {lo..hi} - card (set used \<inter> {lo..hi})" by simp
  with sub range have diff: "int (card ({lo..hi} - set used)) = hi - lo + 1 - int (card (set used \<inter> {lo..hi}))"
    by simp
  moreover have "0 \<le> hi - lo + 1 - int (card (set used \<inter> {lo..hi}))" using diff by linarith
  ultimately show "free_count used lo hi = int (card ({lo..hi} - set used))"
    using assms span by (simp add: free_count_def countUsedIn_card vmid_range_ok_def wrap64_def)
qed

lemma set_used_ids [simp]: "set (used_ids rows) = row_id ` set rows" "distinct (used_ids rows)"
  by (auto simp: used_ids_def)

text \<open>What follows a successful listing: the two ways the code goes on.\<close>

lemma randomFreeVMID_after_list:
  assumes "vmid_range_ok lo hi" and "ListVMs P c s = Some (Ok rows, t)"
  shows "randomFreeVMID P c lo hi s =
    (if {lo..hi} \<subseteq> row_id ` set rows then Some (Err (no_free_vmid lo hi (hi - lo + 1)), t)
     else pick_free P lo (hi - lo + 1) (used_ids rows) t)"
proof -
  have free: "wrap64 (hi - lo + 1 - countUsedIn (used_ids rows) lo hi)
      = int (card ({lo..hi} - row_id ` set rows))"
    using free_count_card [OF assms(1), of "used_ids rows"] by (simp add: free_count_def)
  have "card ({lo..hi} - row_id ` set rows) = 0 \<longleftrightarrow> {lo..hi} \<subseteq> row_id ` set rows"
    by auto
  with free have "wrap64 (hi - lo + 1 - countUsedIn (used_ids rows) lo hi) \<le> 0
      \<longleftrightarrow> {lo..hi} \<subseteq> row_id ` set rows" by simp
  then show ?thesis
    using assms(2) free_count_card(2) [OF assms(1), of "used_ids rows"]
    by (simp add: randomFreeVMID_def bindE_def Let_def errE_def)
qed

lemma randomFreeVMID_result:
  assumes range: "vmid_range_ok lo hi" and rnd: "rand_in_range P"
    and ret: "randomFreeVMID P c lo hi s = Some (r, s')"
  shows "case r of
      Ok i \<Rightarrow> \<exists>rows t. ListVMs P c s = Some (Ok rows, t) \<and> lo \<le> i \<and> i \<le> hi \<and> i \<notin> row_id ` set rows
    | Err e \<Rightarrow> ListVMs P c s = Some (Err e, s')
        \<or> (\<exists>rows. ListVMs P c s = Some (Ok rows, s') \<and> {lo..hi} \<subseteq> row_id ` set rows)
    | Panic p \<Rightarrow> False"
proof (cases rule: properE [OF proper_ListVMs [of P c], of s, case_names ok err])
  case (err e t)
  with ret show ?thesis by (auto simp: randomFreeVMID_def bindE_def)
next
  case (ok rows t)
  show ?thesis
  proof (cases "{lo..hi} \<subseteq> row_id ` set rows")
    case True
    with ret ok show ?thesis by (auto simp: randomFreeVMID_after_list [OF range ok])
  next
    case False
    have span: "0 < hi - lo + 1" using range by (simp add: vmid_range_ok_def)
    from False ret have "pick_free P lo (hi - lo + 1) (used_ids rows) t = Some (r, s')"
      by (simp add: randomFreeVMID_after_list [OF range ok])
    from pick_free_hits [OF span this] obtain n
      where "first_hit P lo (hi - lo + 1) (used_ids rows) t n"
        and r: "r = Ok (lo + next_draw P (hi - lo + 1) (after_draws P (hi - lo + 1) n t))" by blast
    with next_draw_range [OF rnd span, of "after_draws P (hi - lo + 1) n t"] ok
    show ?thesis by (auto simp: first_hit_def)
  qed
qed

text \<open>
  C11. The VMID chosen for a clone lies in the configured range and is used by no VM or
  template of the listing it was chosen from; the operation fails only with the listing, or
  because every identifier of the range is taken, and it never panics (\<open>rand.Intn\<close> is
  always called with a positive bound).
\<close>

theorem randomFreeVMID_spec:
  assumes range: "vmid_range_ok lo hi" and rnd: "rand_in_range P"
    and ret: "randomFreeVMID P c lo hi s = Some (r, s')"
  shows "case r of
      Ok i \<Rightarrow> \<exists>rows t. ListVMs P c s = Some (Ok rows, t) \<and> lo \<le> i \<and> i \<le> hi \<and> i \<notin> row_id ` set rows
    | Err e \<Rightarrow> ListVMs P c s = Some (Err e, s')
        \<or> (\<exists>rows. ListVMs P c s = Some (Ok rows, s') \<and> {lo..hi} \<subseteq> row_id ` set rows)
    | Panic p \<Rightarrow> False"
  by (rule randomFreeVMID_result [OF assms])

theorem randomFreeVMID_spec_witness:
  "\<exists>s' rows t. randomFreeVMID sim cl0 10001 10003 drawn_st = Some (Ok 10003, s')
     \<and> ListVMs sim cl0 drawn_st = Some (Ok rows, t) \<and> 10003 \<notin> row_id ` set rows"
proof -
  have "map_option fst (randomFreeVMID sim cl0 10001 10003 drawn_st) = Some (Ok 10003)" by code_simp
  then obtain s' where run: "randomFreeVMID sim cl0 10001 10003 drawn_st = Some (Ok 10003, s')" by auto
  from randomFreeVMID_spec [OF _ sim_rand_in_range run] run show ?thesis
    by (auto simp: vmid_range_ok_def)
qed

text \<open>
  C12. The endless loop of \<open>randomFreeVMID\<close>: after a successful listing the call returns
  exactly when the range is full (it then fails at once) or the random source ever draws an
  unused identifier. Which identifiers are free is never recomputed in the loop.
\<close>

theorem randomFreeVMID_returns_iff:
  assumes "vmid_range_ok lo hi" and "ListVMs P c s = Some (Ok rows, t)"
  shows "randomFreeVMID P c lo hi s \<noteq> None \<longleftrightarrow>
    {lo..hi} \<subseteq> row_id ` set rows \<or>
    (\<exists>n. lo + next_draw P (hi - lo + 1) (after_draws P (hi - lo + 1) n t) \<notin> row_id ` set rows)"
proof -
  let ?span = "hi - lo + 1" and ?used = "used_ids rows"
  have span: "0 < ?span" using assms(1) by (simp add: vmid_range_ok_def)
  have "pick_free P lo ?span ?used t \<noteq> None \<longleftrightarrow>
      (\<exists>n. lo + next_draw P ?span (after_draws P ?span n t) \<notin> row_id ` set rows)" (is "?L \<longleftrightarrow> ?R")
  proof
    assume ?L
    then obtain r s' where "pick_free P lo ?span ?used t = Some (r, s')" by auto
    from pick_free_hits [OF span this] show ?R by (auto simp: first_hit_def)
  next
    let ?hit = "\<lambda>n. lo + next_draw P ?span (after_draws P ?span n t) \<notin> row_id ` set rows"
    assume ?R
    then have "?hit (LEAST n. ?hit n)" by (rule LeastI_ex)
    moreover have "\<forall>m < (LEAST n. ?hit n). \<not> ?hit m" using not_less_Least by blast
    ultimately have "first_hit P lo ?span ?used t (LEAST n. ?hit n)" by (simp add: first_hit_def)
    from pick_free_returns [OF span this] show ?L by simp
  qed
  then show ?thesis by (simp add: randomFreeVMID_after_list [OF assms])
qed

theorem randomFreeVMID_returns_iff_witness:
  "randomFreeVMID sim cl0 10001 10002 st0 \<noteq> None \<and> randomFreeVMID sim cl0 10001 10003 st0 = None"
proof -
  have "map_option fst (ListVMs sim cl0 st0) = Some (Ok (sim_resources sim0))" by code_simp
  then obtain t where list: "ListVMs sim cl0 st0 = Some (Ok (sim_resources sim0), t)" by auto
  have ids: "row_id ` set (sim_resources sim0) = {9000, 10001, 10002}" by code_simp
  have world: "world t = sim0"
    using list by (auto simp: ListVMs_def mapErrE_def callE_def sim_def st0_def split: prod.splits)
  have still: "world (after_draws sim 3 n t) = sim0" for n
    using world by (induction n arbitrary: t) (simp_all add: after_draw_def sim_def sim_rand_def sim0_def)
  have zero: "next_draw sim 3 (after_draws sim 3 n t) = 0" for n
    using still [of n] by (simp add: next_draw_def sim_def sim_rand_def sim0_def)
  have full: "{10001..10002 :: int} \<subseteq> {9000, 10001, 10002}" by auto
  have "(10003 :: int) \<in> {10001..10003}" by simp
  then have room: "\<not> {10001..10003 :: int} \<subseteq> {9000, 10001, 10002}" by fastforce
  show ?thesis
    using randomFreeVMID_returns_iff [OF _ list, of 10001 10002]
      randomFreeVMID_returns_iff [OF _ list, of 10001 10003] zero full room
    by (simp add: vmid_range_ok_def ids del: not_None_eq not_Some_eq)
qed


section \<open>Frame and trace\<close>

lemma keeps_randomFreeVMID [keepsI]:
  "A EResources \<Longrightarrow> (\<And>n. A (ERand n)) \<Longrightarrow> keeps (emits A) (randomFreeVMID P c lo hi)"
  "keeps same_ext (randomFreeVMID P c lo hi)"
  unfolding randomFreeVMID_def by (intro keepsI | simp)+

lemma keeps_bestEffortDelete [keepsI]:
  "A (ENode node) \<Longrightarrow> A (EGetVM node vmid) \<Longrightarrow> (\<And>v. A (EDelete v purge_options)) \<Longrightarrow>
   (\<And>u d. A (EWait u d)) \<Longrightarrow> keeps (emits A) (bestEffortDelete P c node vmid)"
  "keeps same_ext (bestEffortDelete P c node vmid)"
  unfolding bestEffortDelete_def by (intro keepsI | simp)+

lemma keeps_stamp_tags [keepsI]:
  "A (EConfig v [tag_option spec]) \<Longrightarrow> (\<And>u d. A (EWait u d)) \<Longrightarrow> keeps (emits A) (stamp_tags P v spec)"
  "keeps same_ext (stamp_tags P v spec)"
  unfolding stamp_tags_def by (intro keepsI | simp)+

lemma proper_bestEffortDelete [properI]: "proper (bestEffortDelete P c node vmid)"
  unfolding bestEffortDelete_def by (intro properI)

lemma proper_stamp_tags [properI]: "proper (stamp_tags P v spec)"
  unfolding stamp_tags_def by (intro properI)

lemma bestEffortDelete_Ok:
  "bestEffortDelete P c node vmid s = Some (r, s') \<Longrightarrow> r = Ok ()"
  by (auto simp: bestEffortDelete_def proper_no_panic [OF proper_GetVM] proper_no_panic [OF proper_WaitTask]
      elim!: bindE_SomeE attemptE_SomeE callE_SomeE split: if_splits)

lemma bestEffortDelete_not_Err [simp]: "bestEffortDelete P c node vmid s \<noteq> Some (Err e, s')"
  by (auto dest: bestEffortDelete_Ok)

text \<open>The identifiers of a valid range, drawn by a random source that keeps its contract.\<close>

lemma ensures_randomFreeVMID:
  "vmid_range_ok lo hi \<Longrightarrow> rand_in_range P \<Longrightarrow>
   ensures (randomFreeVMID P c lo hi) (\<lambda>i. lo \<le> i \<and> i \<le> hi)"
  unfolding ensures_def using randomFreeVMID_result by fastforce

lemma calm_randomFreeVMID:
  "vmid_range_ok lo hi \<Longrightarrow> rand_in_range P \<Longrightarrow> calm (randomFreeVMID P c lo hi)"
  unfolding calm_def using randomFreeVMID_result by fastforce

text \<open>The calls of a clone that change the cluster.\<close>

fun clone_step :: "vm \<Rightarrow> CloneSpec \<Rightarrow> event \<Rightarrow> bool" where
  "clone_step tmpl spec (EClone t opts) =
     (t = tmpl \<and> opts = clone_opts tmpl spec (co_newid opts)
      \<and> cs_VMIDLo spec \<le> co_newid opts \<and> co_newid opts \<le> cs_VMIDHi spec)"
| "clone_step tmpl spec (EDelete v opts) = (opts = purge_options)"
| "clone_step tmpl spec (EConfig v opts) = (opts = [tag_option spec])"
| "clone_step tmpl spec e = (\<not> mutating e)"

fun is_clone :: "event \<Rightarrow> bool" where
  "is_clone (EClone v opts) = True"
| "is_clone _ = False"

lemma keeps_clone_attempt:
  assumes "vmid_range_ok (cs_VMIDLo spec) (cs_VMIDHi spec)" and "rand_in_range P"
  shows "keeps (emits (clone_step tmpl spec)) (clone_attempt P c tmpl spec)"
  unfolding clone_attempt_def
  by (rule emits.keeps_bindE_ensures [OF _ ensures_randomFreeVMID [OF assms]])
     (intro keepsI | simp add: clone_opts_def)+

lemma frame_clone_attempt [keepsI]: "keeps same_ext (clone_attempt P c tmpl spec)"
  unfolding clone_attempt_def by (intro keepsI)

lemma quiet_clone_attempt: "keeps (emits (\<lambda>e. \<not> is_sleep e)) (clone_attempt P c tmpl spec)"
  unfolding clone_attempt_def by (intro keepsI | simp)+

lemma keeps_finish_clone [keepsI]:
  "(\<And>n. A (ENode n)) \<Longrightarrow> (\<And>n i. A (EGetVM n i)) \<Longrightarrow> (\<And>v. A (EDelete v purge_options)) \<Longrightarrow>
   (\<And>u d. A (EWait u d)) \<Longrightarrow> (\<And>v. A (EConfig v [tag_option spec])) \<Longrightarrow>
   keeps (emits A) (finish_clone P c tmpl spec vmid)"
  "keeps same_ext (finish_clone P c tmpl spec vmid)"
  unfolding finish_clone_def by (intro keepsI | simp)+

lemma proper_finish_clone [properI]: "proper (finish_clone P c tmpl spec vmid)"
  unfolding finish_clone_def by (intro properI)

lemma keeps_CloneFromTemplate:
  assumes "vmid_range_ok (cs_VMIDLo spec) (cs_VMIDHi spec)" and "rand_in_range P"
  shows "keeps (emits (clone_step tmpl spec)) (CloneFromTemplate P c tmpl spec)"
  unfolding CloneFromTemplate_def by (intro keepsI keeps_clone_attempt assms | simp)+

lemma frame_CloneFromTemplate [keepsI]: "keeps same_ext (CloneFromTemplate P c tmpl spec)"
  unfolding CloneFromTemplate_def by (intro keepsI)

lemma calm_clone_attempt:
  assumes "vmid_range_ok (cs_VMIDLo spec) (cs_VMIDHi spec)" and "rand_in_range P"
  shows "calm (clone_attempt P c tmpl spec)"
  unfolding clone_attempt_def
  by (intro calmI calm_randomFreeVMID assms proper_calm properI)

lemma calm_CloneFromTemplate:
  assumes "vmid_range_ok (cs_VMIDLo spec) (cs_VMIDHi spec)" and "rand_in_range P"
  shows "calm (CloneFromTemplate P c tmpl spec)"
  unfolding CloneFromTemplate_def
  by (intro calmI calm_Retry calm_clone_attempt assms proper_calm properI)
     (simp_all add: cloneBackoffBase_def second_def maxBackoff_def)

section \<open>Properties of the clone\<close>

lemma clone_attempt_once: "keeps (grew is_clone 1) (clone_attempt P c tmpl spec)"
proof -
  have pick: "keeps (grew is_clone 0) (randomFreeVMID P c lo hi)" for lo hi
    by (intro keeps_grew_none keepsI) simp_all
  have call: "keeps (grew is_clone 1) (callE (EClone tmpl (clone_opts tmpl spec i)) f)" for i f
    by (rule keeps_grew_one)
  have wait: "keeps (grew is_clone 0) ((\<lambda>(newid, task).
      bindE (attemptE (WaitTask P task cloneTaskTimeout)) (\<lambda>res. case res of
         Inl err \<Rightarrow> bindE (bestEffortDelete P c (clone_target tmpl spec) newid) (\<lambda>_. errE err)
       | Inr u \<Rightarrow> okE newid)) p)" for p
    by (intro keeps_grew_none keepsI) simp_all
  from keeps_grew_bindE [OF pick keeps_grew_bindE [OF call wait]]
  show ?thesis by (simp add: clone_attempt_def)
qed

interpretation clone_retried: retried_op "clone_attempt P c tmpl spec" is_clone for P c tmpl spec
  by unfold_locales (simp_all add: clone_attempt_once [simplified])

text \<open>What \<open>CloneFromTemplate\<close> does after the retried attempts: no clone and no sleep.\<close>

lemma CloneFromTemplate_tail:
  assumes "CloneFromTemplate P c tmpl spec s = Some (r, s')"
  obtains q t where
    "Retry P cloneAttempts cloneBackoffBase clone_retryable (clone_attempt P c tmpl spec) s = Some (q, t)"
    "emits (\<lambda>e. \<not> is_clone e \<and> \<not> is_sleep e) t s'"
proof -
  have quiet: "keeps (emits (\<lambda>e. \<not> is_clone e \<and> \<not> is_sleep e)) (finish_clone P c tmpl spec vmid)" for vmid
    by (intro keepsI) simp_all
  from assms show ?thesis unfolding CloneFromTemplate_def
  proof (cases rule: bind_mapErrE_SomeE)
    case (ok vmid t)
    show ?thesis by (rule that [OF ok(1) keepsD [OF quiet ok(2)]])
  qed (auto intro: that emits.R_refl)
qed

lemma grew_emits: "grew B n s t \<Longrightarrow> emits (\<lambda>e. \<not> B e) t u \<Longrightarrow> grew B n s u"
  by (fastforce simp: grew_def emits_def filter_empty_if)

lemma CloneFromTemplate_ten: "keeps (grew is_clone 10) (CloneFromTemplate P c tmpl spec)"
proof (rule keeps_intro)
  fix s r s'
  assume "CloneFromTemplate P c tmpl spec s = Some (r, s')"
  then obtain q t where q: "Retry P cloneAttempts cloneBackoffBase clone_retryable
      (clone_attempt P c tmpl spec) s = Some (q, t)"
    and tail: "emits (\<lambda>e. \<not> is_clone e \<and> \<not> is_sleep e) t s'"
    by (rule CloneFromTemplate_tail)
  have "grew is_clone (nat cloneAttempts) s t" by (rule keepsD [OF clone_retried.calls_bounded q])
  then show "grew is_clone 10 s s'"
    using grew_emits [OF _ emits_mono [OF tail]] by (simp add: cloneAttempts_def)
qed

text \<open>
  C8. Every call \<open>CloneFromTemplate\<close> makes to change the cluster: it clones only the given
  template, into an identifier of the configured range and with the options of the spec, at
  most ten times; it deletes with purge; and the one configuration it writes is the tag list.
  Its waits follow the backoff schedule, and with a valid range it never panics.
\<close>

theorem CloneFromTemplate_requests:
  assumes range: "vmid_range_ok (cs_VMIDLo spec) (cs_VMIDHi spec)" and rnd: "rand_in_range P"
    and run: "CloneFromTemplate P c tmpl spec s = Some (r, s')"
  shows "emits (clone_step tmpl spec) s s' \<and> grew is_clone 10 s s' \<and> backs_off (2 * second) 9 s s'
    \<and> (\<forall>p. r \<noteq> Panic p)"
proof (intro conjI)
  show "emits (clone_step tmpl spec) s s'"
    by (rule keepsD [OF keeps_CloneFromTemplate [OF range rnd] run])
  show "grew is_clone 10 s s'" by (rule keepsD [OF CloneFromTemplate_ten run])
  show "\<forall>p. r \<noteq> Panic p"
    using calm_CloneFromTemplate [OF range rnd] run unfolding calm_def by blast
  obtain q t where q: "Retry P cloneAttempts cloneBackoffBase clone_retryable
      (clone_attempt P c tmpl spec) s = Some (q, t)"
    and tail: "emits (\<lambda>e. \<not> is_clone e \<and> \<not> is_sleep e) t s'"
    using run by (rule CloneFromTemplate_tail)
  have "backs_off cloneBackoffBase (nat cloneAttempts - 1) s t"
    by (rule Retry_backs_off [OF rnd _ _ quiet_clone_attempt q])
       (simp_all add: cloneBackoffBase_def second_def maxBackoff_def)
  moreover have "sleeps (trace s') = sleeps (trace t)"
    by (rule emits_no_sleep [OF emits_mono [OF tail]]) simp
  ultimately show "backs_off (2 * second) 9 s s'"
    by (simp add: backs_off_def cloneAttempts_def cloneBackoffBase_def)
qed


text \<open>
  The documented behaviour of \<open>VirtualMachine.Clone\<close> with an explicit \<open>NewID\<close>: the identifier
  it returns is the requested one.
\<close>

definition clone_keeps_id :: "'w px \<Rightarrow> bool" where
  "clone_keeps_id P \<longleftrightarrow>
     (\<forall>t opts w n task w'. co_newid opts \<noteq> 0 \<longrightarrow> px_clone P t opts w = (Inr (n, task), w') \<longrightarrow>
        n = co_newid opts)"

lemma clone_keeps_idD:
  assumes "clone_keeps_id P" and "i \<noteq> 0" and "px_clone P t (clone_opts tmpl spec i) w = (Inr (n, task), w')"
  shows "n = i"
proof -
  have "co_newid (clone_opts tmpl spec i) = i" by (simp add: clone_opts_def)
  with assms show ?thesis unfolding clone_keeps_id_def by metis
qed

lemma clone_attempt_Ok:
  assumes "clone_attempt P c tmpl spec s = Some (Ok n, s')"
  obtains i u task w where "randomFreeVMID P c (cs_VMIDLo spec) (cs_VMIDHi spec) s = Some (Ok i, u)"
    "px_clone P tmpl (clone_opts tmpl spec i) (world u) = (Inr (n, task), w)"
    "WaitTask P task cloneTaskTimeout
       (u\<lparr>world := w, trace := trace u @ [EClone tmpl (clone_opts tmpl spec i)]\<rparr>) = Some (Ok (), s')"
proof -
  from assms obtain i u where i: "randomFreeVMID P c (cs_VMIDLo spec) (cs_VMIDHi spec) s = Some (Ok i, u)"
    and rest: "bindE (callE (EClone tmpl (clone_opts tmpl spec i)) (px_clone P tmpl (clone_opts tmpl spec i)))
       (\<lambda>(newid, task). bindE (attemptE (WaitTask P task cloneTaskTimeout)) (\<lambda>res. case res of
         Inl err \<Rightarrow> bindE (bestEffortDelete P c (clone_target tmpl spec) newid) (\<lambda>_. errE err)
       | Inr u \<Rightarrow> okE newid)) u = Some (Ok n, s')"
    unfolding clone_attempt_def by (rule bindE_OkE)
  from rest i that show ?thesis
    by (auto elim!: bindE_OkE callE_SomeE attemptE_OkE)
qed

lemma CloneFromTemplate_Ok:
  fixes s s' :: "('w, 'x) st_scheme"
  assumes range: "vmid_range_ok (cs_VMIDLo spec) (cs_VMIDHi spec)" and rnd: "rand_in_range P"
    and lib: "clone_keeps_id P" and run: "CloneFromTemplate P c tmpl spec s = Some (Ok v, s')"
  shows "\<exists>i rows a (a' :: ('w, 'x) st_scheme) b t u.
    cs_VMIDLo spec \<le> i \<and> i \<le> cs_VMIDHi spec
    \<and> ListVMs P c a = Some (Ok rows, a') \<and> i \<notin> row_id ` set rows
    \<and> clone_attempt P c tmpl spec b = Some (Ok i, t)
    \<and> GetVM P c (clone_target tmpl spec) i t = Some (Ok v, u)
    \<and> (if cs_Tags spec = [] then s' = u else stamp_tags P v spec u = Some (Ok (), s'))"
proof -
  from run obtain n t where q: "Retry P cloneAttempts cloneBackoffBase clone_retryable
      (clone_attempt P c tmpl spec) s = Some (Ok n, t)" and fin: "finish_clone P c tmpl spec n t = Some (Ok v, s')"
    unfolding CloneFromTemplate_def by (cases rule: bind_mapErrE_SomeE) auto
  from Retry_Ok [OF q] obtain b where b: "clone_attempt P c tmpl spec b = Some (Ok n, t)" by blast
  from b obtain i u task w where i: "randomFreeVMID P c (cs_VMIDLo spec) (cs_VMIDHi spec) b = Some (Ok i, u)"
    and cl: "px_clone P tmpl (clone_opts tmpl spec i) (world u) = (Inr (n, task), w)"
    by (rule clone_attempt_Ok)
  from randomFreeVMID_result [OF range rnd i] obtain rows a' where
    rows: "ListVMs P c b = Some (Ok rows, a')" "cs_VMIDLo spec \<le> i" "i \<le> cs_VMIDHi spec"
      "i \<notin> row_id ` set rows" by auto
  from rows(2) range have "i \<noteq> 0" by (auto simp: vmid_range_ok_def)
  from clone_keeps_idD [OF lib this cl] have n: "n = i" .
  have "\<exists>u. GetVM P c (clone_target tmpl spec) n t = Some (Ok v, u)
      \<and> (if cs_Tags spec = [] then s' = u else stamp_tags P v spec u = Some (Ok (), s'))"
    using fin unfolding finish_clone_def
    by (auto elim!: bindE_OkE attemptE_OkE split: if_splits)
  with n b rows show ?thesis by metis
qed


text \<open>The delete request of the clean-up, and its wait, is a task operation like the others.\<close>

interpretation cleanup: task_op P "bindE (callE (EDelete v purge_options) (px_delete P v purge_options))
    (\<lambda>task. WaitTask P task (5 * minute))" "EDelete v purge_options" "px_delete P v purge_options" "5 * minute"
  for P v
  by (rule task_op_unwrapped [where g = "\<lambda>e. e"]) (simp add: mapErrE_id)

text \<open>
  \<open>deletion_tried\<close>: the VM with identifier \<open>n\<close> is read from the node, and if that succeeds one
  delete request with purge is sent for it and only waited for; if it cannot be read, nothing
  more is done.
\<close>

definition deletion_tried ::
  "'w px \<Rightarrow> client \<Rightarrow> string \<Rightarrow> int \<Rightarrow> ('w, 'x) st_scheme \<Rightarrow> ('w, 'x) st_scheme \<Rightarrow> bool" where
  "deletion_tried P c node n t s' \<longleftrightarrow>
     (\<exists>r u. GetVM P c node n t = Some (r, u) \<and>
        (case r of
           Ok v \<Rightarrow> \<exists>ws. trace s' = trace u @ EDelete v \<lparr>do_purge = True, do_unreferenced = True\<rparr> # ws
              \<and> list_all (\<lambda>e. \<exists>t d. e = EWait t d) ws
         | Err e \<Rightarrow> s' = u
         | Panic p \<Rightarrow> False))"

lemma bestEffortDelete_tried:
  assumes "n \<noteq> 0" and run: "bestEffortDelete P c node n t = Some (r, s')"
  shows "deletion_tried P c node n t s'"
proof (cases rule: properE [OF proper_GetVM [of P c node n], of t, case_names ok err])
  case (err e u)
  with assms have "s' = u" by (simp add: bestEffortDelete_def bindE_def attemptE_def okE_def)
  with err show ?thesis by (simp add: deletion_tried_def)
next
  case (ok v u)
  with assms obtain q where "bindE (callE (EDelete v purge_options) (px_delete P v purge_options))
      (\<lambda>task. WaitTask P task (5 * minute)) u = Some (q, s')"
    unfolding bestEffortDelete_def
    by (auto simp: bindE_def [of "attemptE m" for m] attemptE_def split: option.splits go.splits)
  from cleanup.op_trace [OF this] ok show ?thesis by (simp add: deletion_tried_def purge_options_def)
qed

text \<open>
  How one attempt can fail: no identifier was found, the clone request was refused (in both
  cases PVE has accepted no clone), or the clone was accepted, its task failed, and the
  deletion of the partial VM was tried as the last thing.
\<close>

inductive attempt_failed ::
  "'w px \<Rightarrow> client \<Rightarrow> vm \<Rightarrow> CloneSpec \<Rightarrow> ('w, 'x) st_scheme \<Rightarrow> goerr \<Rightarrow> ('w, 'x) st_scheme \<Rightarrow> bool"
  for P c tmpl spec and s :: "('w, 'x) st_scheme" and e :: goerr and s' :: "('w, 'x) st_scheme" where
  no_id: "randomFreeVMID P c (cs_VMIDLo spec) (cs_VMIDHi spec) s = Some (Err e, s') \<Longrightarrow>
     attempt_failed P c tmpl spec s e s'"
| rejected: "randomFreeVMID P c (cs_VMIDLo spec) (cs_VMIDHi spec) s = Some (Ok i, u) \<Longrightarrow>
     callE (EClone tmpl (clone_opts tmpl spec i)) (px_clone P tmpl (clone_opts tmpl spec i)) u = Some (Err e, s') \<Longrightarrow>
     attempt_failed P c tmpl spec s e s'"
| undone: "randomFreeVMID P c (cs_VMIDLo spec) (cs_VMIDHi spec) s = Some (Ok i, u) \<Longrightarrow>
     callE (EClone tmpl (clone_opts tmpl spec i)) (px_clone P tmpl (clone_opts tmpl spec i)) u
       = Some (Ok (i, task), t) \<Longrightarrow>
     WaitTask P task cloneTaskTimeout t = Some (Err e, t') \<Longrightarrow>
     deletion_tried P c (clone_target tmpl spec) i t' s' \<Longrightarrow>
     attempt_failed P c tmpl spec s e s'"

lemma clone_attempt_Err:
  assumes range: "vmid_range_ok (cs_VMIDLo spec) (cs_VMIDHi spec)" and rnd: "rand_in_range P"
    and lib: "clone_keeps_id P" and run: "clone_attempt P c tmpl spec s = Some (Err e, s')"
  shows "attempt_failed P c tmpl spec s e s'"
  using run unfolding clone_attempt_def
proof (cases rule: bindE_SomeE)
  case (ok i u)
  from ensuresD [OF ensures_randomFreeVMID [OF range rnd] ok(1)] range have i: "i \<noteq> 0"
    by (auto simp: vmid_range_ok_def)
  from ok(2) show ?thesis
  proof (cases rule: bindE_SomeE)
    case call: (ok nt t)
    obtain n task where nt: "nt = (n, task)" by (cases nt)
    with call(1) obtain w where "px_clone P tmpl (clone_opts tmpl spec i) (world u) = (Inr (n, task), w)"
      by (auto elim: callE_SomeE)
    then have n: "n = i" by (rule clone_keeps_idD [OF lib i])
    from call(2) nt n obtain t' where wait: "WaitTask P task cloneTaskTimeout t = Some (Err e, t')"
      and "bestEffortDelete P c (clone_target tmpl spec) i t' = Some (Ok (), s')"
      by (auto elim!: bindE_SomeE attemptE_SomeE dest: bestEffortDelete_Ok split: sum.splits)
    from bestEffortDelete_tried [OF i this(2)] ok(1) call(1) nt n wait
    show ?thesis by (auto intro: attempt_failed.undone)
  qed (auto intro: attempt_failed.rejected [OF ok(1)])
qed (auto intro: attempt_failed.no_id)

text \<open>
  \<open>undone_runs n s t\<close>: from \<open>s\<close> to \<open>t\<close> there are \<open>n\<close> attempts, each failed as above with an error
  that is worth another attempt, and after each only a draw and a sleep.
\<close>

inductive undone_runs ::
  "'w px \<Rightarrow> client \<Rightarrow> vm \<Rightarrow> CloneSpec \<Rightarrow> nat \<Rightarrow> ('w, 'x) st_scheme \<Rightarrow> ('w, 'x) st_scheme \<Rightarrow> bool"
  for P c tmpl spec where
  no_attempt: "undone_runs P c tmpl spec 0 s s"
| one_attempt: "attempt_failed P c tmpl spec s err u \<Longrightarrow> clone_retryable (Some err) \<Longrightarrow>
     trace v = trace u @ [ERand d, ESleep j] \<Longrightarrow> undone_runs P c tmpl spec n v t \<Longrightarrow>
     undone_runs P c tmpl spec (Suc n) s t"

lemma pause_trace:
  assumes "jittered P d s = Some (Ok j, t)" and "sleepE P j t = Some (Ok ctx, u)"
  shows "trace u = trace s @ [ERand d, ESleep j]"
  using assms by (auto simp: jittered_def int63nE_def sleepE_def elim!: bindE_SomeE drawE_SomeE split: if_splits)

lemma failed_runs_undone:
  assumes "failed_runs P clone_retryable (clone_attempt P c tmpl spec) d n s t"
    and "vmid_range_ok (cs_VMIDLo spec) (cs_VMIDHi spec)" "rand_in_range P" "clone_keeps_id P"
  shows "undone_runs P c tmpl spec n s t"
  using assms
proof (induction rule: failed_runs.induct)
  case (no_failure delay s)
  show ?case by (rule undone_runs.no_attempt)
next
  case (one_more s err s1 delay j s2 t n u)
  note hyps = one_more.prems
  from clone_attempt_Err [OF hyps one_more.hyps(1)] one_more.hyps(2)
    pause_trace [OF one_more.hyps(3,4)] one_more.IH [OF hyps]
  show ?case by (rule undone_runs.one_attempt)
qed

text \<open>
  How the whole operation can fail. In every case the attempts before the last one are
  \<open>undone_runs\<close>, and what the last one left is the first thing a deletion is tried of.
\<close>

inductive clone_failed ::
  "'w px \<Rightarrow> client \<Rightarrow> vm \<Rightarrow> CloneSpec \<Rightarrow> ('w, 'x) st_scheme \<Rightarrow> goerr \<Rightarrow> ('w, 'x) st_scheme \<Rightarrow> bool"
  for P c tmpl spec and s :: "('w, 'x) st_scheme" where
  permanent: "undone_runs P c tmpl spec n s t \<Longrightarrow> n \<le> 9 \<Longrightarrow>
     attempt_failed P c tmpl spec t e s' \<Longrightarrow> \<not> clone_retryable (Some e) \<Longrightarrow>
     clone_failed P c tmpl spec s (cloning_error tmpl e) s'"
| exhausted: "undone_runs P c tmpl spec 9 s t \<Longrightarrow>
     attempt_failed P c tmpl spec t e s' \<Longrightarrow> clone_retryable (Some e) \<Longrightarrow>
     clone_failed P c tmpl spec s (cloning_error tmpl (after_attempts 10 e)) s'"
| cancelled: "undone_runs P c tmpl spec n s t \<Longrightarrow> n < 9 \<Longrightarrow>
     attempt_failed P c tmpl spec t e u \<Longrightarrow> clone_retryable (Some e) \<Longrightarrow>
     trace v = trace u @ [ERand d] \<Longrightarrow> sleepE P j v = Some (Ok (Some cerr), s') \<Longrightarrow>
     clone_failed P c tmpl spec s (cloning_error tmpl cerr) s'"
| unreadable: "undone_runs P c tmpl spec n s b \<Longrightarrow> n \<le> 9 \<Longrightarrow>
     clone_attempt P c tmpl spec b = Some (Ok i, t) \<Longrightarrow>
     GetVM P c (clone_target tmpl spec) i t = Some (Err e, u) \<Longrightarrow>
     deletion_tried P c (clone_target tmpl spec) i u s' \<Longrightarrow>
     clone_failed P c tmpl spec s (unreadable_error i e) s'"
| untagged: "undone_runs P c tmpl spec n s b \<Longrightarrow> n \<le> 9 \<Longrightarrow>
     clone_attempt P c tmpl spec b = Some (Ok i, t) \<Longrightarrow>
     GetVM P c (clone_target tmpl spec) i t = Some (Ok v, u) \<Longrightarrow>
     stamp_tags P v spec u = Some (Err e, w) \<Longrightarrow>
     deletion_tried P c (clone_target tmpl spec) i w s' \<Longrightarrow>
     clone_failed P c tmpl spec s (tagging_error i e) s'"

lemma clone_attempt_id:
  assumes range: "vmid_range_ok (cs_VMIDLo spec) (cs_VMIDHi spec)" and rnd: "rand_in_range P"
    and lib: "clone_keeps_id P" and run: "clone_attempt P c tmpl spec b = Some (Ok n, t)"
  shows "n \<noteq> 0"
proof -
  from run obtain i u task w where i: "randomFreeVMID P c (cs_VMIDLo spec) (cs_VMIDHi spec) b = Some (Ok i, u)"
    and cl: "px_clone P tmpl (clone_opts tmpl spec i) (world u) = (Inr (n, task), w)"
    by (rule clone_attempt_Ok)
  from ensuresD [OF ensures_randomFreeVMID [OF range rnd] i] range have "i \<noteq> 0"
    by (auto simp: vmid_range_ok_def)
  with clone_keeps_idD [OF lib this cl] show ?thesis by simp
qed

lemma finish_clone_Err:
  assumes runs: "undone_runs P c tmpl spec n s b" "n \<le> 9" and i: "i \<noteq> 0"
    and attempt: "clone_attempt P c tmpl spec b = Some (Ok i, t)"
    and fin: "finish_clone P c tmpl spec i t = Some (Err e, s')"
  shows "clone_failed P c tmpl spec s e s'"
  using fin bestEffortDelete_tried [OF i] unfolding finish_clone_def
  by (auto elim!: bindE_SomeE attemptE_SomeE split: if_splits)
     (blast intro: clone_failed.untagged [OF runs attempt] clone_failed.unreadable [OF runs attempt])+

lemma Retry_failed_clone:
  assumes hyps: "vmid_range_ok (cs_VMIDLo spec) (cs_VMIDHi spec)" "rand_in_range P" "clone_keeps_id P"
    and run: "Retry P cloneAttempts cloneBackoffBase clone_retryable (clone_attempt P c tmpl spec) s = Some (Err e, s')"
  shows "clone_failed P c tmpl spec s (cloning_error tmpl e) s'"
proof -
  have "1 \<le> cloneAttempts" "nat cloneAttempts - 1 = 9" by (simp_all add: cloneAttempts_def)
  with Retry_fails_with [OF this(1) run] have
    "retry_failure P 10 clone_retryable (clone_attempt P c tmpl spec) 9 cloneBackoffBase s e s'"
    by (simp add: cloneAttempts_def)
  then show ?thesis
  proof cases
    case (permanent n t)
    show ?thesis
      by (rule clone_failed.permanent [OF failed_runs_undone [OF permanent(1) hyps] permanent(2)
            clone_attempt_Err [OF hyps permanent(3)] permanent(4)])
  next
    case (exhausted t err)
    show ?thesis unfolding exhausted(1)
      by (rule clone_failed.exhausted [OF failed_runs_undone [OF exhausted(2) hyps]
            clone_attempt_Err [OF hyps exhausted(3)] exhausted(4)])
  next
    case (cancelled n t err u d j v)
    from cancelled(5) have "trace v = trace u @ [ERand d]"
      by (auto simp: jittered_def int63nE_def elim!: bindE_SomeE drawE_SomeE split: if_splits)
    then show ?thesis
      by (rule clone_failed.cancelled [OF failed_runs_undone [OF cancelled(1) hyps] cancelled(2)
            clone_attempt_Err [OF hyps cancelled(3)] cancelled(4) _ cancelled(6)])
  qed
qed

text \<open>
  C10. When \<open>CloneFromTemplate\<close> fails, no clone that PVE accepted in this run is left without a
  delete request (or a failed attempt to read it): every failed attempt before the last one
  either had no clone accepted or ended with the deletion of what it made; so did the last one
  if it failed for good, was the tenth, or the context ended in the pause after it; and a VM that
  was cloned but could not be read or tagged is deleted as the very last step. \<open>deletion_tried\<close>
  is read off the trace: one delete request with purge for the VM found under the identifier.
\<close>

theorem CloneFromTemplate_failure:
  assumes range: "vmid_range_ok (cs_VMIDLo spec) (cs_VMIDHi spec)" and rnd: "rand_in_range P"
    and lib: "clone_keeps_id P" and run: "CloneFromTemplate P c tmpl spec s = Some (Err e, s')"
  shows "clone_failed P c tmpl spec s e s'"
  using run unfolding CloneFromTemplate_def
proof (cases rule: bind_mapErrE_SomeE)
  case (ok i t)
  from ok(1) obtain n b where n: "n < nat cloneAttempts"
    "failed_runs P clone_retryable (clone_attempt P c tmpl spec) cloneBackoffBase n s b"
    and attempt: "clone_attempt P c tmpl spec b = Some (Ok i, t)"
    unfolding Retry_def retry_loop_Ok_iff by blast
  from n(1) have "n \<le> 9" by (simp add: cloneAttempts_def)
  from finish_clone_Err [OF failed_runs_undone [OF n(2) range rnd lib] this
      clone_attempt_id [OF range rnd lib attempt] attempt ok(2)]
  show ?thesis .
next
  case (err e')
  with Retry_failed_clone [OF range rnd lib err(1)] show ?thesis by simp
qed simp

text \<open>What makes an error worth another attempt, in the texts of PVE and of Go's network stack.\<close>

lemma clone_retryable_iff:
  "clone_retryable (Some e) \<longleftrightarrow> is_net_error e \<or>
     (\<exists>m \<in> {''config file already exists'', ''can't lock file'', ''got lock request timeout'', ''cfs-lock'',
        ''can't acquire lock'', ''Maximum number of retries'', ''connection refused'', ''connection reset'',
        ''unexpected EOF'', ''595'', ''i/o timeout''}. sublist m (err_text e))"
  by (auto simp: clone_retryable_def IsVMIDConflict_def IsLockErr_def IsTransient_def lock_messages_def
      transient_messages_def contains_iff_sublist)

text \<open>The first iteration of \<open>Retry\<close> when its attempt fails.\<close>

lemma Retry_first_failure:
  assumes rnd: "rand_in_range P" and att: "fn s = Some (Err e, t)" and k: "nat attempts = Suc (Suc k)"
    and d: "0 < base" "base \<le> maxBackoff"
  shows "if retryable (Some e)
    then \<exists>j u ctx v. base div 2 \<le> j \<and> j < base div 2 + base \<and> trace u = trace t @ [ERand base]
      \<and> sleepE P j u = Some (Ok ctx, v)
      \<and> Retry P attempts base retryable fn s =
          (case ctx of Some cerr \<Rightarrow> Some (Err cerr, v)
           | None \<Rightarrow> retry_loop P attempts retryable fn (Suc k) (next_delay base) v)
    else Retry P attempts base retryable fn s = Some (Err e, t)"
proof (cases "retryable (Some e)")
  case False
  with att k show ?thesis by (simp add: Retry_def bindE_def attemptE_def errE_def del: retry_loop.simps(2))
      (simp add: bindE_def attemptE_def errE_def)
next
  case True
  obtain q w where q: "rt_intn P base (world t) = (q, w)" by (cases "rt_intn P base (world t)")
  from rand_in_rangeD [OF rnd d(1) q] have qr: "0 \<le> q" "q < base" by auto
  define j where "j = base div 2 + q"
  define u where "u = t\<lparr>world := w, trace := trace t @ [ERand base]\<rparr>"
  have j: "jittered P base t = Some (Ok j, u)"
    using qr d q by (simp add: jittered_def int63nE_def drawE_def bindE_def okE_def j_def u_def wrap64_def
        maxBackoff_def second_def)
  obtain ctx y where "rt_sleep P j (world u) = (ctx, y)" by (cases "rt_sleep P j (world u)")
  then obtain v where sl: "sleepE P j u = Some (Ok ctx, v)" by (simp add: sleepE_def drawE_def)
  let ?rest = "retry_loop P attempts retryable fn (Suc k) (next_delay base)"
  have "Retry P attempts base retryable fn s =
      bindE (attemptE fn) (\<lambda>res. case res of Inr x \<Rightarrow> okE x
      | Inl err \<Rightarrow> if \<not> retryable (Some err) then errE err
         else bindE (jittered P base) (\<lambda>j. bindE (sleepE P j) (\<lambda>ctx. case ctx of
           Some cerr \<Rightarrow> errE cerr | None \<Rightarrow> ?rest))) s"
    unfolding Retry_def k
    by (simp only: retry_loop.simps(2) [of P attempts retryable fn "Suc k"] nat.simps if_False)
  also have "\<dots> = (case ctx of Some cerr \<Rightarrow> Some (Err cerr, v) | None \<Rightarrow> ?rest v)"
    using att True j sl
    by (simp add: bindE_def attemptE_def errE_def del: retry_loop.simps split: option.split)
  finally have run: "Retry P attempts base retryable fn s =
      (case ctx of Some cerr \<Rightarrow> Some (Err cerr, v) | None \<Rightarrow> ?rest v)" .
  have "trace u = trace t @ [ERand base]" by (simp add: u_def)
  moreover have "base div 2 \<le> j \<and> j < base div 2 + base" using qr by (simp add: j_def)
  ultimately show ?thesis using True sl run by auto
qed


text \<open>
  C39. The clean-up of a partial clone looks at nothing but the identifier:
  \<open>bestEffortDelete\<close> with a non-zero identifier sends exactly one delete request, with purge,
  for whatever VM it reads under it, whether or not that VM carries an ownership tag, and
  never reports an error.
\<close>

theorem bestEffortDelete_unguarded:
  assumes "vmid \<noteq> 0" and read: "GetVM P c node vmid s = Some (Ok v, t)"
  shows "\<exists>s' ws. bestEffortDelete P c node vmid s = Some (Ok (), s')
    \<and> trace s' = trace t @ EDelete v purge_options # ws \<and> list_all (\<lambda>e. \<exists>u d. e = EWait u d) ws"
proof -
  obtain r s' where run: "bestEffortDelete P c node vmid s = Some (r, s')"
    using proper_bestEffortDelete unfolding proper_def by blast
  then have r: "r = Ok ()" by (rule bestEffortDelete_Ok)
  with run assms obtain q where "bindE (callE (EDelete v purge_options) (px_delete P v purge_options))
      (\<lambda>task. WaitTask P task (5 * minute)) t = Some (q, s')"
    unfolding bestEffortDelete_def
    by (auto simp: bindE_def [of "attemptE m" for m] attemptE_def split: option.splits go.splits)
  from cleanup.op_trace [OF this] run r show ?thesis by auto
qed

theorem bestEffortDelete_unguarded_witness:
  "\<exists>s' pre ws. bestEffortDelete sim cl0 ''pve1'' 10001 st0 = Some (Ok (), s')
     \<and> trace s' = pre @ EDelete other_vm purge_options # ws
     \<and> \<not> px_has_tag sim other_vm ''rancher-pvenode''"
proof -
  have "map_option fst (GetVM sim cl0 ''pve1'' 10001 st0) = Some (Ok other_vm)" by code_simp
  then obtain t where read: "GetVM sim cl0 ''pve1'' 10001 st0 = Some (Ok other_vm, t)" by auto
  have "\<not> px_has_tag sim other_vm ''rancher-pvenode''" by code_simp
  moreover have "(10001 :: int) \<noteq> 0" by simp
  note bestEffortDelete_unguarded [OF this read]
  ultimately show ?thesis by blast
qed

section \<open>Witnesses\<close>

text \<open>
  A clone into a range whose first drawn identifier belongs to a VM that the listing does not
  show: the first clone task fails, the foreign VM is deleted, the second attempt succeeds.
\<close>

definition spec0 :: CloneSpec where
  "spec0 = \<lparr>cs_Name = ''node-2'', cs_TargetNode = [], cs_Storage = ''local-lvm'', cs_Linked = False,
     cs_Pool = [], cs_VMIDLo = 10001, cs_VMIDHi = 10003, cs_Tags = [''rancher-pvenode'', ''k8s'']\<rparr>"

definition hidden_st :: "sim_world st" where
  "hidden_st = st0\<lparr>world := sim0\<lparr>sw_hidden := [10001]\<rparr>\<rparr>"

definition new_vm :: "int \<Rightarrow> vm" where
  "new_vm i = tmpl_vm\<lparr>vm_vmid := word_of_int i, vm_name := ''node-2'', vm_template := False\<rparr>"

lemma sim_clone_keeps_id: "clone_keeps_id sim"
  by (auto simp: clone_keeps_id_def sim_def sim_clone_def split: list.splits if_splits)

lemma spec0_range: "vmid_range_ok (cs_VMIDLo spec0) (cs_VMIDHi spec0)"
  by (simp add: spec0_def vmid_range_ok_def)

lemma hidden_run:
  "\<exists>s'. CloneFromTemplate sim cl0 tmpl_vm spec0 hidden_st = Some (Ok (new_vm 10001), s')"
  by (rule run_ends) code_simp

lemma hidden_run_deletes_other:
  "case CloneFromTemplate sim cl0 tmpl_vm spec0 hidden_st of
     Some (r, s') \<Rightarrow> list_ex (\<lambda>e. case e of EDelete u opts \<Rightarrow> u = other_vm | _ \<Rightarrow> False) (trace s')
       \<and> \<not> px_has_tag sim other_vm ''rancher-pvenode''
   | _ \<Rightarrow> False"
  by code_simp

definition full_st :: "sim_world st" where
  "full_st = st0\<lparr>world := sim0\<lparr>sw_rand := [2], sw_task_faults := [''no space left'']\<rparr>\<rparr>"

theorem CloneFromTemplate_requests_witness:
  "\<exists>s'. CloneFromTemplate sim cl0 tmpl_vm spec0 hidden_st = Some (Ok (new_vm 10001), s')
     \<and> emits (clone_step tmpl_vm spec0) hidden_st s' \<and> grew is_clone 10 hidden_st s'"
proof -
  obtain s' where run: "CloneFromTemplate sim cl0 tmpl_vm spec0 hidden_st = Some (Ok (new_vm 10001), s')"
    using hidden_run by blast
  from CloneFromTemplate_requests [OF spec0_range sim_rand_in_range run] run show ?thesis by blast
qed


theorem CloneFromTemplate_failure_witness:
  "\<exists>s' e. CloneFromTemplate sim cl0 tmpl_vm spec0 full_st = Some (Err e, s')
     \<and> clone_failed sim cl0 tmpl_vm spec0 full_st e s'"
proof -
  have "fails (CloneFromTemplate sim cl0 tmpl_vm spec0 full_st)" by code_simp
  from run_fails [OF this] obtain e s' where
    run: "CloneFromTemplate sim cl0 tmpl_vm spec0 full_st = Some (Err e, s')" by blast
  from CloneFromTemplate_failure [OF spec0_range sim_rand_in_range sim_clone_keeps_id run] run
  show ?thesis by blast
qed


text \<open>A clone request that is refused because the template is locked: the run goes on after a pause.\<close>

definition locked_st :: "sim_world st" where
  "locked_st = st0\<lparr>world := sim0\<lparr>sw_rand := [2], sw_clone_faults := [''can't lock file /var/lock/qemu-9000'']\<rparr>\<rparr>"


end
