(* ===== verification/Template.thy ===== *)
theory Template
  imports Sim
begin

text \<open>
  What the driver reads from a VM's configuration, \<open>pkg/validate/template.go\<close>: the template
  check, the cloud-init drive, the MAC address of a NIC and the boot disk with its size. A nil
  configuration makes the field accesses panic, as in the code; the bus maps are lists of their
  entries in iteration order.
\<close>

section \<open>Operations\<close>

definition nil_deref :: string where
  "nil_deref = ''invalid memory address or nil pointer dereference''"

definition nicModels :: "string list" where
  "nicModels = [''virtio'', ''e1000'', ''e1000e'', ''rtl8139'', ''vmxnet3'']"

definition EnsureTemplate :: "vm \<Rightarrow> goerr option" where
  "EnsureTemplate v =
     (if \<not> vm_template v then Some (ErrorString (''VM '' @ quote (vm_name v) @ '' is not a template''))
      else case vm_config v of
          None \<Rightarrow> Some (ErrorString (''template '' @ quote (vm_name v) @ '' has no readable config''))
        | Some cfg \<Rightarrow>
            let agent = cfg_agent cfg in
            if agent = [] \<or> prefix ''0'' agent \<or> contains agent ''enabled=0''
            then Some (ErrorString (''template '' @ quote (vm_name v)
              @ '' does not have the QEMU guest agent enabled (agent='' @ quote agent @ ''); ''
              @ ''set 'qm set <vmid> --agent 1' AND make sure qemu-guest-agent is installed in the image ''
              @ dash @ '' without it the driver cannot learn the VM's DHCP address''))
            else None)"

fun cloudinit_in :: "(string \<times> string) list list \<Rightarrow> string \<times> bool" where
  "cloudinit_in [] = ([], False)"
| "cloudinit_in (devices # buses) =
     (case find (\<lambda>(key, val). contains val ''cloudinit'') devices of
        Some (key, val) \<Rightarrow> (key, True)
      | None \<Rightarrow> cloudinit_in buses)"

definition CloudInitDrive :: "vm_config option \<Rightarrow> (string \<times> bool) go" where
  "CloudInitDrive config =
     (case config of
        None \<Rightarrow> Panic nil_deref
      | Some cfg \<Rightarrow> Ok (cloudinit_in [cfg_ides cfg, cfg_scsis cfg, cfg_satas cfg]))"

fun nic_mac_parts :: "string list \<Rightarrow> string option" where
  "nic_mac_parts [] = None"
| "nic_mac_parts (part # parts) =
     (case cut (CHR ''='') (trim_space part) of (k, v, found) \<Rightarrow>
        if found \<and> k \<in> set nicModels then Some (to_upper v) else nic_mac_parts parts)"

definition NICMAC :: "vm_config option \<Rightarrow> string \<Rightarrow> string go" where
  "NICMAC config key =
     (case config of
        None \<Rightarrow> Panic nil_deref
      | Some cfg \<Rightarrow>
          (case map_of (cfg_nets cfg) key of
             None \<Rightarrow> Err (ErrorString (''VM config has no '' @ key @ '' network device''))
           | Some val \<Rightarrow>
               if val = [] then Err (ErrorString (''VM config has no '' @ key @ '' network device''))
               else (case nic_mac_parts (split (CHR '','') val) of
                   Some mac \<Rightarrow> Ok mac
                 | None \<Rightarrow> Err (ErrorString (''could not extract MAC from '' @ key @ ''='' @ quote val)))))"

text \<open>
  \<open>sizeRe\<close>, \<open>(?:^|,)size=(\d+)([MGT])\<close>: \<open>size_at\<close> matches the part after the first group at one
  position, \<open>size_after_comma\<close> tries the positions behind a comma, leftmost first. The digits
  are matched greedily; giving some of them back never helps, as the unit is not a digit.
\<close>

definition size_at :: "string \<Rightarrow> (string \<times> char) option" where
  "size_at s =
     (if prefix ''size='' s then
        (let t = drop 5 s; ds = takeWhile is_digit t in
         case dropWhile is_digit t of
           [] \<Rightarrow> None
         | u # us \<Rightarrow> if ds \<noteq> [] \<and> u \<in> {CHR ''M'', CHR ''G'', CHR ''T''} then Some (ds, u) else None)
      else None)"

fun size_after_comma :: "string \<Rightarrow> (string \<times> char) option" where
  "size_after_comma [] = None"
| "size_after_comma (c # cs) =
     (case (if c = CHR '','' then size_at cs else None) of
        Some m \<Rightarrow> Some m
      | None \<Rightarrow> size_after_comma cs)"

definition find_size :: "string \<Rightarrow> (string \<times> char) option" where
  "find_size s = (case size_at s of Some m \<Rightarrow> Some m | None \<Rightarrow> size_after_comma s)"

text \<open>\<open>n, _ := strconv.Atoi(m[1])\<close> ignores the error: the clamped value is used. Go's integer division
  truncates towards zero.\<close>

definition quot64 :: "int \<Rightarrow> int \<Rightarrow> int" where
  "quot64 a b = (if a < 0 then - ((- a) div b) else a div b)"

definition disk_gb :: "string \<Rightarrow> char \<Rightarrow> int" where
  "disk_gb digits unit =
     (let n = fst (atoi digits) in
      if unit = CHR ''M'' then quot64 (wrap64 (n + 1023)) 1024
      else if unit = CHR ''G'' then n
      else if unit = CHR ''T'' then wrap64 (n * 1024)
      else 0)"

fun lookup_disk :: "string \<Rightarrow> (string \<times> string) list list \<Rightarrow> string option" where
  "lookup_disk key [] = None"
| "lookup_disk key (devices # buses) =
     (case map_of devices key of Some v \<Rightarrow> Some v | None \<Rightarrow> lookup_disk key buses)"

definition is_disk :: "string \<Rightarrow> bool" where
  "is_disk val = (\<not> contains val ''media=cdrom'' \<and> \<not> contains val ''cloudinit'')"

definition boot_candidates :: "string \<Rightarrow> string list" where
  "boot_candidates boot =
     (if prefix ''order='' boot then split (CHR '';'') (drop 6 boot) else [])
     @ [''scsi0'', ''virtio0'', ''ide0'', ''sata0'']"

fun boot_scan :: "vm_config \<Rightarrow> string list \<Rightarrow> (string \<times> int \<times> string) go" where
  "boot_scan cfg [] =
     Err (ErrorString (''could not find a boot disk in the template config (boot='' @ quote (cfg_boot cfg) @ '')''))"
| "boot_scan cfg (k # keys) =
     (let key = trim_space k in
      case lookup_disk key [cfg_scsis cfg, cfg_virtios cfg, cfg_ides cfg, cfg_satas cfg] of
        None \<Rightarrow> boot_scan cfg keys
      | Some val \<Rightarrow>
          if \<not> is_disk val then boot_scan cfg keys
          else (case find_size val of
              None \<Rightarrow> Err (ErrorString (''boot disk '' @ key @ ''='' @ quote val @ '' has no parsable size''))
            | Some (digits, unit) \<Rightarrow> Ok (key, disk_gb digits unit, val)))"

definition BootDisk :: "vm_config option \<Rightarrow> (string \<times> int \<times> string) go" where
  "BootDisk config =
     (case config of
        None \<Rightarrow> Panic nil_deref
      | Some cfg \<Rightarrow> boot_scan cfg (boot_candidates (cfg_boot cfg)))"

section \<open>Properties\<close>

text \<open>
  A clone source is accepted exactly when it is a template whose readable configuration
  enables the guest agent.
\<close>

lemma EnsureTemplate_accepts:
  "EnsureTemplate v = None \<longleftrightarrow> vm_template v \<and>
     (\<exists>cfg. vm_config v = Some cfg \<and> cfg_agent cfg \<noteq> [] \<and> hd (cfg_agent cfg) \<noteq> CHR ''0''
        \<and> \<not> sublist ''enabled=0'' (cfg_agent cfg))"
proof -
  have zero: "prefix ''0'' a \<longleftrightarrow> a \<noteq> [] \<and> hd a = CHR ''0''" for a by (cases a) auto
  show ?thesis
    by (auto simp: EnsureTemplate_def Let_def zero contains_iff_sublist split: option.splits)
qed

lemma cloudinit_in_concat:
  "cloudinit_in buses =
     (case find (\<lambda>(key, val). contains val ''cloudinit'') (concat buses) of
        Some (key, val) \<Rightarrow> (key, True) | None \<Rightarrow> ([], False))"
  by (induction buses) (simp_all add: find_append split: option.split)

text \<open>The devices of the three buses that are searched.\<close>

definition drive_entries :: "vm_config \<Rightarrow> (string \<times> string) set" where
  "drive_entries cfg = set (cfg_ides cfg) \<union> set (cfg_scsis cfg) \<union> set (cfg_satas cfg)"

text \<open>
  Whether a cloud-init drive is found does not depend on the order in which Go iterates
  over the maps; the key that is returned is one of a cloud-init drive.
\<close>

lemma CloudInitDrive_spec:
  "\<exists>key found. CloudInitDrive (Some cfg) = Ok (key, found)
     \<and> (found = (\<exists>k v. (k, v) \<in> drive_entries cfg \<and> sublist ''cloudinit'' v))
     \<and> (found = (\<exists>v. (key, v) \<in> drive_entries cfg \<and> sublist ''cloudinit'' v \<and> found))"
proof -
  let ?p = "\<lambda>(key, val). contains val ''cloudinit''"
  have set: "set (concat [cfg_ides cfg, cfg_scsis cfg, cfg_satas cfg]) = drive_entries cfg"
    by (auto simp: drive_entries_def)
  show ?thesis
  proof (cases "find ?p (concat [cfg_ides cfg, cfg_scsis cfg, cfg_satas cfg])")
    case None
    with set have "\<not> (\<exists>k v. (k, v) \<in> drive_entries cfg \<and> sublist ''cloudinit'' v)"
      by (auto simp: find_None_iff contains_iff_sublist)
    with None show ?thesis
      by (intro exI [of _ "[]"] exI [of _ False]) (simp add: CloudInitDrive_def cloudinit_in_concat)
  next
    case (Some e)
    obtain k v where e: "e = (k, v)" by (cases e)
    from find_SomeD [OF Some] set e have "(k, v) \<in> drive_entries cfg \<and> sublist ''cloudinit'' v"
      by (auto simp: contains_iff_sublist)
    with Some e show ?thesis by (auto simp: CloudInitDrive_def cloudinit_in_concat)
  qed
qed

section \<open>The MAC address\<close>

text \<open>A part of a network device value that names the NIC model: \<open>model=MAC\<close>.\<close>

definition model_part :: "string \<Rightarrow> string \<Rightarrow> bool" where
  "model_part part mac \<longleftrightarrow>
     (\<exists>model v. trim_space part = model @ CHR ''='' # v \<and> model \<in> set nicModels \<and> mac = to_upper v)"

lemma nicModels_no_eq: "model \<in> set nicModels \<Longrightarrow> CHR ''='' \<notin> set model"
  by (auto simp: nicModels_def)

lemma model_part_cut:
  "model_part part mac \<longleftrightarrow>
   (case cut (CHR ''='') (trim_space part) of (k, v, found) \<Rightarrow> found \<and> k \<in> set nicModels \<and> mac = to_upper v)"
proof
  assume "model_part part mac"
  then show "case cut (CHR ''='') (trim_space part) of (k, v, found) \<Rightarrow> found \<and> k \<in> set nicModels \<and> mac = to_upper v"
    using nicModels_no_eq unfolding model_part_def by (fastforce simp: cut_append)
next
  assume R: "case cut (CHR ''='') (trim_space part) of (k, v, found) \<Rightarrow> found \<and> k \<in> set nicModels \<and> mac = to_upper v"
  obtain k v found where c: "cut (CHR ''='') (trim_space part) = (k, v, found)"
    by (cases "cut (CHR ''='') (trim_space part)")
  with R have "found" "k \<in> set nicModels" "mac = to_upper v" by auto
  with c cut_found [of "CHR ''=''" "trim_space part" k v] show "model_part part mac"
    unfolding model_part_def by auto
qed

lemma nic_mac_parts_iff:
  "nic_mac_parts parts = Some mac \<longleftrightarrow>
   (\<exists>pre part post. parts = pre @ part # post \<and> (\<forall>p \<in> set pre. \<nexists>m. model_part p m) \<and> model_part part mac)"
proof (induction parts)
  case (Cons p ps)
  obtain k v found where c: "cut (CHR ''='') (trim_space p) = (k, v, found)"
    by (cases "cut (CHR ''='') (trim_space p)")
  have p: "model_part p m \<longleftrightarrow> found \<and> k \<in> set nicModels \<and> m = to_upper v" for m
    using c by (simp add: model_part_cut)
  show ?case
    unfolding first_split_Cons [of p ps "\<lambda>p. \<exists>m. model_part p m"] Cons.IH [symmetric] p using c by auto
qed simp

text \<open>
  C34. \<open>NICMAC\<close> succeeds exactly when the network device is present and one of its
  comma-separated parts is \<open>model=MAC\<close> for a known NIC model; it returns the MAC of the first
  such part in upper case. It panics only on a nil configuration.
\<close>

theorem NICMAC_spec:
  "(NICMAC config key = Ok mac \<longleftrightarrow>
     (\<exists>cfg val pre part post. config = Some cfg \<and> map_of (cfg_nets cfg) key = Some val
        \<and> split (CHR '','') val = pre @ part # post \<and> model_part part mac
        \<and> \<not> (\<exists>p m. p \<in> set pre \<and> model_part p m)))
   \<and> ((\<exists>msg. NICMAC config key = Panic msg) \<longleftrightarrow> config = None)"
proof
  have parts: "nic_mac_parts (split (CHR '','') []) = None"
    by (simp add: trim_space_def trim_right_by_def)
  show "NICMAC config key = Ok mac \<longleftrightarrow>
     (\<exists>cfg val pre part post. config = Some cfg \<and> map_of (cfg_nets cfg) key = Some val
        \<and> split (CHR '','') val = pre @ part # post \<and> model_part part mac
        \<and> \<not> (\<exists>p m. p \<in> set pre \<and> model_part p m))"
    (is "_ \<longleftrightarrow> ?R")
  proof -
    have "NICMAC config key = Ok mac \<longleftrightarrow>
        (\<exists>cfg val. config = Some cfg \<and> map_of (cfg_nets cfg) key = Some val
          \<and> nic_mac_parts (split (CHR '','') val) = Some mac)"
      using parts by (auto simp: NICMAC_def split: option.splits)
    also have "\<dots> \<longleftrightarrow> ?R" unfolding nic_mac_parts_iff by blast
    finally show ?thesis .
  qed
  show "(\<exists>msg. NICMAC config key = Panic msg) \<longleftrightarrow> config = None"
    by (auto simp: NICMAC_def split: option.splits)
qed


section \<open>The boot disk\<close>

lemma size_at_comma:
  assumes "CHR '','' \<notin> set p"
  shows "size_at (p @ CHR '','' # r) = size_at p"
proof -
  have pre: "prefix ''size='' (p @ CHR '','' # r) \<longleftrightarrow> prefix ''size='' p"
    by (auto simp: prefix_append Cons_eq_append_conv)
  show ?thesis
  proof (cases "prefix ''size='' p")
    case True
    then obtain t where p: "p = ''size='' @ t" by (rule prefixE)
    have stop: "\<not> is_digit (CHR '','')" by (simp add: is_digit_def digit_val_def)
    have tw: "takeWhile is_digit (t @ CHR '','' # r) = takeWhile is_digit t"
      by (induction t) (simp_all add: stop)
    have dw: "dropWhile is_digit (t @ CHR '','' # r) = dropWhile is_digit t @ CHR '','' # r"
      by (induction t) (simp_all add: stop)
    show ?thesis
      by (cases "dropWhile is_digit t") (simp_all add: size_at_def p tw dw Let_def del: dropWhile_eq_Nil_conv)
  qed (simp add: size_at_def pre)
qed

fun first_size :: "string list \<Rightarrow> (string \<times> char) option" where
  "first_size [] = None"
| "first_size (p # ps) = (case size_at p of Some m \<Rightarrow> Some m | None \<Rightarrow> first_size ps)"

lemma size_after_comma_skip:
  "CHR '','' \<notin> set p \<Longrightarrow> size_after_comma (p @ r) = size_after_comma r"
  by (induction p) (auto split: option.splits)

text \<open>
  The size expression reads the configuration value as the comma-separated options it is:
  the match is the first option of the form \<open>size=\<close> digits unit, wherever it stands.
\<close>

lemma find_size_options: "find_size s = first_size (split (CHR '','') s)"
proof (induction "length s" arbitrary: s rule: less_induct)
  case less
  show ?case
  proof (cases "CHR '','' \<in> set s")
    case False
    with size_after_comma_skip [of s "[]"] show ?thesis
      by (simp add: find_size_def split_absent split: option.split)
  next
    case True
    then obtain p r where s: "s = p @ CHR '','' # r" and p: "CHR '','' \<notin> set p"
      by (meson split_list_first)
    have "find_size s = (case size_at p of Some m \<Rightarrow> Some m | None \<Rightarrow> find_size r)"
      by (simp add: find_size_def s size_at_comma [OF p] size_after_comma_skip [OF p] split: option.split)
    with less s p show ?thesis by (simp add: split_append split: option.split)
  qed
qed

text \<open>The size in mebibytes that a number and a unit stand for.\<close>

definition mebibytes :: "int \<Rightarrow> char \<Rightarrow> int" where
  "mebibytes n unit = (if unit = CHR ''M'' then n else if unit = CHR ''G'' then 1024 * n else 1048576 * n)"

text \<open>
  C33. The size of the template's disk is rounded up to whole gigabytes, never down: for every
  size up to 2^53 - 1 units, the result is the least number of gigabytes that holds the disk.
\<close>

theorem disk_gb_rounds_up:
  assumes "0 \<le> n" and "n < 2 ^ 53" and "unit \<in> {CHR ''M'', CHR ''G'', CHR ''T''}"
  shows "find_size (''size='' @ dec_digits n @ [unit]) = Some (dec_digits n, unit)
    \<and> mebibytes n unit \<le> 1024 * disk_gb (dec_digits n) unit
    \<and> 1024 * (disk_gb (dec_digits n) unit - 1) < mebibytes n unit"
proof
  have unit: "\<not> is_digit unit" using assms(3) by (auto simp: is_digit_def digit_val_def)
  have tw: "list_all is_digit ds \<Longrightarrow> takeWhile is_digit (ds @ [unit]) = ds
      \<and> dropWhile is_digit (ds @ [unit]) = [unit]" for ds
    by (induction ds) (simp_all add: unit)
  have "size_at (''size='' @ dec_digits n @ [unit]) = Some (dec_digits n, unit)"
    using tw [OF dec_digits_all_digits [OF assms(1)]] assms(3) by (simp add: size_at_def)
  then show "find_size (''size='' @ dec_digits n @ [unit]) = Some (dec_digits n, unit)"
    by (simp only: find_size_def option.simps)
  have "fst (atoi (dec_digits n)) = n"
    using atoi_dec_digits [of n] assms by (simp add: max_int64_def)
  with assms show "mebibytes n unit \<le> 1024 * disk_gb (dec_digits n) unit
    \<and> 1024 * (disk_gb (dec_digits n) unit - 1) < mebibytes n unit"
    by (auto simp: disk_gb_def mebibytes_def quot64_def wrap64_def)
qed

theorem disk_gb_rounds_up_witness:
  "find_size (''size='' @ dec_digits 2252 @ ''M'') = Some (''2252'', CHR ''M'')
   \<and> disk_gb ''2252'' (CHR ''M'') = 3"
proof -
  have d: "dec_digits 2252 = ''2252''" by code_simp
  have "disk_gb ''2252'' (CHR ''M'') = 3" by code_simp
  with disk_gb_rounds_up [of 2252 "CHR ''M''"] d show ?thesis by simp
qed

text \<open>The device a candidate of the boot order stands for, when it is one the code takes.\<close>

definition boot_device :: "vm_config \<Rightarrow> string \<Rightarrow> string option" where
  "boot_device cfg k =
     (case lookup_disk (trim_space k) [cfg_scsis cfg, cfg_virtios cfg, cfg_ides cfg, cfg_satas cfg] of
        None \<Rightarrow> None | Some val \<Rightarrow> if is_disk val then Some val else None)"

lemma boot_scan_iff:
  "boot_scan cfg keys = Ok (key, gb, val) \<longleftrightarrow>
   (\<exists>pre k post. keys = pre @ k # post \<and> (\<forall>z \<in> set pre. \<not> boot_device cfg z \<noteq> None)
      \<and> (\<exists>digits unit. key = trim_space k \<and> boot_device cfg k = Some val
           \<and> find_size val = Some (digits, unit) \<and> gb = disk_gb digits unit))"
proof (induction keys)
  case (Cons k keys)
  show ?case
    unfolding first_split_Cons [of k keys "\<lambda>z. boot_device cfg z \<noteq> None"] Cons.IH [symmetric]
    by (auto simp: boot_device_def Let_def split: option.splits prod.splits)
qed simp


end
