(* ===== verification/GoNet.thy ===== *)
theory GoNet
  imports GoString
begin

text \<open>
  \<open>net.ParseIP\<close> and the address classes of \<open>net.IP\<close> that \<open>pickIPv4\<close> consults, after Go's
  \<open>net/netip\<close> parser: dotted decimal without leading zeros, IPv6 text with one ellipsis and
  an optional dotted tail, no zone. An address is its 16 bytes, IPv4 in the mapped form.
\<close>

type_synonym octet = "8 word"

fun parse_v4 :: "string \<Rightarrow> bool \<Rightarrow> bool \<Rightarrow> octet list \<Rightarrow> int \<Rightarrow> nat \<Rightarrow> octet list option" where
  "parse_v4 [] first dot fields val digLen =
     (if length fields < 3 then None else Some (fields @ [word_of_int val]))"
| "parse_v4 (c # cs) first dot fields val digLen =
     (case digit_val c of
        Some v \<Rightarrow>
          if digLen = 1 \<and> val = 0 then None
          else if 255 < val * 10 + int v then None
          else parse_v4 cs False False fields (val * 10 + int v) (Suc digLen)
      | None \<Rightarrow>
          if c = CHR ''.'' then
            if first \<or> cs = [] \<or> dot then None
            else if length fields = 3 then None
            else parse_v4 cs False True (fields @ [word_of_int val]) 0 0
          else None)"

definition parse_ipv4 :: "string \<Rightarrow> octet list option" where
  "parse_ipv4 s = parse_v4 s True False [] 0 0"

definition hex_val :: "char \<Rightarrow> int option" where
  "hex_val c =
     (let n = (of_char c :: int) in
      if 48 \<le> n \<and> n \<le> 57 then Some (n - 48)
      else if 97 \<le> n \<and> n \<le> 102 then Some (n - 87)
      else if 65 \<le> n \<and> n \<le> 70 then Some (n - 55)
      else None)"

fun scan_hex :: "string \<Rightarrow> nat \<Rightarrow> int \<Rightarrow> (nat \<times> int \<times> string) option" where
  "scan_hex [] off acc = Some (off, acc, [])"
| "scan_hex (c # cs) off acc =
     (case hex_val c of
        None \<Rightarrow> Some (off, acc, c # cs)
      | Some v \<Rightarrow> if 3 < off then None else scan_hex cs (Suc off) (16 * acc + v))"

text \<open>
  The loop of \<open>parseIPv6\<close>: two bytes per round, so at most eight rounds. The result is the
  unread rest, the bytes and the position of the ellipsis.
\<close>

function parse_groups ::
  "string \<Rightarrow> octet list \<Rightarrow> nat option \<Rightarrow> (string \<times> octet list \<times> nat option) option" where
  "parse_groups s ip ell =
     (if 16 \<le> length ip then Some (s, ip, ell)
      else
        (case scan_hex s 0 0 of
           None \<Rightarrow> None
         | Some (off, acc, rest) \<Rightarrow>
             if off = 0 then None
             else if rest \<noteq> [] \<and> hd rest = CHR ''.'' then
               (if ell = None \<and> length ip \<noteq> 12 then None
                else if 16 < length ip + 4 then None
                else (case parse_ipv4 s of None \<Rightarrow> None | Some f \<Rightarrow> Some ([], ip @ f, ell)))
             else
               (let ip' = ip @ [word_of_int (acc div 256), word_of_int acc] in
                case rest of
                  [] \<Rightarrow> Some ([], ip', ell)
                | c # cs \<Rightarrow>
                    if c \<noteq> CHR '':'' then None
                    else if cs = [] then None
                    else if hd cs = CHR '':'' then
                      (if ell \<noteq> None then None
                       else if tl cs = [] then Some ([], ip', Some (length ip'))
                       else parse_groups (tl cs) ip' (Some (length ip')))
                    else parse_groups cs ip' ell)))"
  by pat_completeness auto
termination
  by (relation "measure (\<lambda>(s, ip, ell). 16 - length ip)") auto

declare parse_groups.simps [simp del]

definition expand_groups :: "string \<times> octet list \<times> nat option \<Rightarrow> octet list option" where
  "expand_groups r =
     (case r of (s, ip, ell) \<Rightarrow>
        if s \<noteq> [] then None
        else if length ip < 16 then
          (case ell of
             None \<Rightarrow> None
           | Some e \<Rightarrow> Some (take e ip @ replicate (16 - length ip) 0 @ drop e ip))
        else if ell \<noteq> None then None
        else Some ip)"

definition parse_ipv6 :: "string \<Rightarrow> octet list option" where
  "parse_ipv6 s =
     (if take 2 s = ''::'' then
        (if drop 2 s = [] then Some (replicate 16 0)
         else Option.bind (parse_groups (drop 2 s) [] (Some 0)) expand_groups)
      else Option.bind (parse_groups s [] None) expand_groups)"

definition v4_prefix :: "octet list" where
  "v4_prefix = replicate 10 0 @ [255, 255]"

definition ParseIP :: "string \<Rightarrow> octet list option" where
  "ParseIP s =
     (if CHR ''%'' \<in> set s then None
      else
        (case find (\<lambda>c. c = CHR ''.'' \<or> c = CHR '':'') s of
           None \<Rightarrow> None
         | Some c \<Rightarrow>
             if c = CHR ''.'' then map_option (\<lambda>f. v4_prefix @ f) (parse_ipv4 s)
             else parse_ipv6 s))"

definition To4 :: "octet list \<Rightarrow> octet list option" where
  "To4 ip = (if length ip = 16 \<and> take 12 ip = v4_prefix then Some (drop 12 ip) else None)"

definition IsLoopback :: "octet list \<Rightarrow> bool" where
  "IsLoopback ip =
     (case To4 ip of Some f \<Rightarrow> f ! 0 = 127 | None \<Rightarrow> ip = replicate 15 0 @ [1])"

definition IsLinkLocalUnicast :: "octet list \<Rightarrow> bool" where
  "IsLinkLocalUnicast ip =
     (case To4 ip of
        Some f \<Rightarrow> f ! 0 = 169 \<and> f ! 1 = 254
      | None \<Rightarrow> length ip = 16 \<and> ip ! 0 = 254 \<and> and (ip ! 1) 192 = 128)"

definition IsUnspecified :: "octet list \<Rightarrow> bool" where
  "IsUnspecified ip = (ip = v4_prefix @ replicate 4 0 \<or> ip = replicate 16 0)"

text \<open>The printed form of four octets, and that it is read back.\<close>

definition dotted :: "octet \<Rightarrow> octet \<Rightarrow> octet \<Rightarrow> octet \<Rightarrow> string" where
  "dotted a b c d = join ''.'' (map (\<lambda>x. dec_digits (uint x)) [a, b, c, d])"

lemma digits_octet:
  assumes "0 \<le> n" and "n < 256"
  obtains (one) "n < 10" "dec_digits n = [digit_char (nat n)]"
    | (two) "10 \<le> n" "n < 100" "dec_digits n = [digit_char (nat (n div 10)), digit_char (nat (n mod 10))]"
    | (three) "100 \<le> n" "dec_digits n = [digit_char (nat (n div 100)), digit_char (nat (n div 10 mod 10)), digit_char (nat (n mod 10))]"
proof -
  consider "n < 10" | "10 \<le> n" "n < 100" | "100 \<le> n" using assms by linarith
  then show ?thesis
  proof cases
    case 1 then show ?thesis by (rule one) (simp add: dec_digits.simps [of n] 1)
  next
    case 2
    then have "n div 10 < 10" by simp
    then show ?thesis by (intro two 2) (simp add: dec_digits.simps [of n] dec_digits.simps [of "n div 10"] 2 not_less)
  next
    case 3
    have a: "\<not> n < 10" "\<not> n div 10 < 10" "n div 10 div 10 < 10" "n div 10 div 10 = n div 100" using 3 assms by simp_all
    then show ?thesis by (intro three 3) (simp add: dec_digits.simps [of n] dec_digits.simps [of "n div 10"]  dec_digits.simps [of "n div 100"])
  qed
qed

lemma parse_v4_octet:
  assumes "0 \<le> n" and "n < 256"
  shows "\<exists>k > 0. parse_v4 (dec_digits n @ rest) first dot fields 0 0 = parse_v4 rest False False fields n k"
  using assms
proof (cases rule: digits_octet)
  case one
  with assms show ?thesis by (auto simp: nat_less_iff)
next
  case two
  have "n div 10 * 10 + n mod 10 = n" by simp
  with two assms show ?thesis by (auto simp: nat_less_iff)
next
  case three
  have "n div 100 = n div 10 div 10" using zdiv_zmult2_eq [of 10 n 10] by simp
  then have "n div 100 * 10 + n div 10 mod 10 = n div 10"
    using div_mult_mod_eq [of "n div 10" 10] by simp
  then have "(n div 100 * 10 + n div 10 mod 10) * 10 + n mod 10 = n"
    using div_mult_mod_eq [of n 10] by simp
  with three assms show ?thesis by (auto simp: nat_less_iff)
qed

lemma digit_val_dot [simp]: "digit_val (CHR ''.'') = None"
  by code_simp

lemma parse_v4_dot:
  "rest \<noteq> [] \<Longrightarrow> length fields < 3 \<Longrightarrow>
   parse_v4 (CHR ''.'' # rest) False False fields val k
     = parse_v4 rest False True (fields @ [word_of_int val]) 0 0"
  by simp

lemma uint_octet: "0 \<le> uint (x :: octet) \<and> uint x < 256"
  using uint_range_size [of x] by (simp add: word_size)

lemma parse_v4_step:
  assumes "length fields < 3"
  shows "parse_v4 (dec_digits (uint x) @ CHR ''.'' # dec_digits y @ rest) first dot fields 0 0
    = parse_v4 (dec_digits y @ rest) False True (fields @ [x]) 0 0"
proof -
  obtain k where "parse_v4 (dec_digits (uint x) @ CHR ''.'' # dec_digits y @ rest) first dot fields 0 0
      = parse_v4 (CHR ''.'' # dec_digits y @ rest) False False fields (uint x) k"
    using parse_v4_octet uint_octet by blast
  also have "\<dots> = parse_v4 (dec_digits y @ rest) False True (fields @ [x]) 0 0"
    using assms by (subst parse_v4_dot) auto
  finally show ?thesis .
qed

lemma parse_ipv4_dotted: "parse_ipv4 (dotted a b c d) = Some [a, b, c, d]"
proof -
  obtain k where last: "parse_v4 (dec_digits (uint d) @ []) False True [a, b, c] 0 0
      = parse_v4 [] False False [a, b, c] (uint d) k"
    using parse_v4_octet uint_octet by blast
  show ?thesis
    using last parse_v4_step [of "[]" a "uint b"] parse_v4_step [of "[a]" b "uint c"]
      parse_v4_step [of "[a, b]" c "uint d" "[]"]
    by (simp add: parse_ipv4_def dotted_def)
qed

lemma ParseIP_dotted: "ParseIP (dotted a b c d) = Some (v4_prefix @ [a, b, c, d])"
proof -
  have digits: "ch \<noteq> CHR ''%'' \<and> ch \<noteq> CHR ''.'' \<and> ch \<noteq> CHR '':''"
    if "ch \<in> set (dec_digits (uint x))" for ch and x :: octet
    using that dec_digits_all_digits [of "uint x"]
    by (auto simp: list_all_iff is_digit_def digit_val_def Let_def)
  have "CHR ''%'' \<notin> set (dotted a b c d)"
    using digits by (fastforce simp: dotted_def)
  moreover have "find (\<lambda>c. c = CHR ''.'' \<or> c = CHR '':'') (dotted a b c d) = Some (CHR ''.'')"
  proof -
    have "find (\<lambda>c. c = CHR ''.'' \<or> c = CHR '':'') (dec_digits (uint a)) = None"
      using digits by (auto simp: find_None_iff)
    then show ?thesis by (simp add: dotted_def find_append)
  qed
  ultimately show ?thesis by (simp add: ParseIP_def parse_ipv4_dotted)
qed

lemma To4_mapped [simp]: "length f = 4 \<Longrightarrow> To4 (v4_prefix @ f) = Some f"
  by (simp add: To4_def v4_prefix_def)

text \<open>The address classes, as sets of byte strings.\<close>

lemma To4_Some: "To4 ip = Some f \<longleftrightarrow> length f = 4 \<and> ip = v4_prefix @ f"
proof
  assume "To4 ip = Some f"
  then have ip: "length ip = 16" "take 12 ip = v4_prefix" "f = drop 12 ip"
    by (auto simp: To4_def split: if_splits)
  then show "length f = 4 \<and> ip = v4_prefix @ f" using append_take_drop_id [of 12 ip] by simp
qed auto

lemma four_octets:
  assumes "length f = 4"
  obtains a b c d where "f = [a, b, c, d]"
  using assms by (auto simp: numeral_eq_Suc length_Suc_conv)

lemma v4_prefix_list: "v4_prefix = [0, 0, 0, 0, 0, 0, 0, 0, 0, 0, 255, 255]"
  by code_simp

lemma zeros:
  "replicate 15 0 @ [1] = [0, 0, 0, 0, 0, 0, 0, 0, 0, 0, 0, 0, 0, 0, 0, 1 :: octet]"
  "replicate 16 0 = [0, 0, 0, 0, 0, 0, 0, 0, 0, 0, 0, 0, 0, 0, 0, 0 :: octet]"
  by code_simp+

lemma mapped_not_v6: "v4_prefix @ f \<noteq> replicate 15 0 @ [1]" "v4_prefix @ f \<noteq> replicate 16 0"
  "v4_prefix @ f \<noteq> 254 # xs"
  unfolding zeros v4_prefix_list by simp_all

lemma IsLoopback_iff:
  "IsLoopback ip \<longleftrightarrow> (\<exists>b c d. ip = v4_prefix @ [127, b, c, d]) \<or> ip = replicate 15 0 @ [1]"
proof (cases "To4 ip")
  case None
  then have "ip \<noteq> v4_prefix @ [127, b, c, d]" for b c d using To4_Some [of ip] by auto
  with None show ?thesis by (simp add: IsLoopback_def)
next
  case (Some f)
  then obtain a b c d where "f = [a, b, c, d]" "ip = v4_prefix @ f" by (auto simp: To4_Some elim: four_octets)
  with Some mapped_not_v6(1) [of f] show ?thesis by (auto simp: IsLoopback_def)
qed

lemma IsLinkLocalUnicast_iff:
  "IsLinkLocalUnicast ip \<longleftrightarrow> (\<exists>c d. ip = v4_prefix @ [169, 254, c, d])
     \<or> (\<exists>x xs. ip = 254 # x # xs \<and> length xs = 14 \<and> and x 192 = 128)"
proof (cases "To4 ip")
  case None
  then have no: "ip \<noteq> v4_prefix @ [169, 254, c, d]" for c d using To4_Some [of ip] by auto
  have "length ip = 16 \<and> ip ! 0 = 254 \<and> and (ip ! 1) 192 = 128
      \<longleftrightarrow> (\<exists>x xs. ip = 254 # x # xs \<and> length xs = 14 \<and> and x 192 = 128)"
    by (cases ip; cases "tl ip") auto
  with None no show ?thesis by (simp add: IsLinkLocalUnicast_def)
next
  case (Some f)
  then obtain a b c d where "f = [a, b, c, d]" "ip = v4_prefix @ f" by (auto simp: To4_Some elim: four_octets)
  with Some mapped_not_v6(3) [of f] show ?thesis by (auto simp: IsLinkLocalUnicast_def)
qed

end
