(* ===== verification/AgentIp.thy ===== *)
theory AgentIp
  imports Clone Template GoNet
begin

text \<open>
  The address of a VM, \<open>pkg/pve/agentip.go\<close>: the guest agent's interfaces are matched against
  the MAC of \<open>net0\<close>, and the loop \<open>WaitForIP\<close> polls until an address is reported and its SSH
  port answers.
\<close>

section \<open>Operations\<close>

definition ipPollStart :: int where "ipPollStart = 2 * second"
definition ipPollMax :: int where "ipPollMax = 15 * second"
definition probeWait :: int where "probeWait = 3 * second"

text \<open>\<open>net.JoinHostPort\<close>\<close>

definition join_host_port :: "string \<Rightarrow> string \<Rightarrow> string" where
  "join_host_port host port =
     (if CHR '':'' \<in> set host \<or> CHR ''%'' \<in> set host then ''['' @ host @ '']:'' @ port
      else host @ '':'' @ port)"

definition usable_address :: "agent_address \<Rightarrow> bool" where
  "usable_address a =
     (aa_type a = ''ipv4'' \<and>
      (case ParseIP (aa_address a) of
         None \<Rightarrow> False
       | Some ip \<Rightarrow> \<not> (IsLoopback ip \<or> IsLinkLocalUnicast ip \<or> IsUnspecified ip)))"

fun pick_address :: "agent_address list \<Rightarrow> string option" where
  "pick_address [] = None"
| "pick_address (a # as) = (if usable_address a then Some (aa_address a) else pick_address as)"

fun pickIPv4 :: "agent_iface list \<Rightarrow> string \<Rightarrow> string" where
  "pickIPv4 [] mac = []"
| "pickIPv4 (ifc # ifaces) mac =
     (if \<not> equal_fold (ai_hwaddr ifc) mac then pickIPv4 ifaces mac
      else (case pick_address (ai_addresses ifc) of
          Some ip \<Rightarrow> ip
        | None \<Rightarrow> pickIPv4 ifaces mac))"

text \<open>One poll: an address that answers, or the state to report and to poll again.\<close>

datatype poll = Found string | Again string

definition not_authorized_error :: "goerr \<Rightarrow> goerr" where
  "not_authorized_error = wrapw
     ''token may not query the guest agent (needs VM.Monitor on PVE 8 / VM.GuestAgent.Audit on PVE 9): '' []"

definition poll_agent :: "'w px \<Rightarrow> vm \<Rightarrow> string \<Rightarrow> int \<Rightarrow> (('w, 'x) st_scheme, poll) eff" where
  "poll_agent P v mac sshPort =
     bindE (attemptE (callE (EAgent v) (px_agent P v))) (\<lambda>res. case res of
         Inr ifaces \<Rightarrow>
           let ip = pickIPv4 ifaces mac in
           if ip \<noteq> [] then
             let addr = join_host_port ip (itoa sshPort) in
             bindE (attemptE (callE (EDial addr) (rt_dial P addr probeWait))) (\<lambda>conn. case conn of
                 Inr u \<Rightarrow> okE (Found ip)
               | Inl perr \<Rightarrow>
                   okE (Again (''got IP '' @ ip @ '' but '' @ addr @ '' not reachable yet'')))
           else okE (Again (''agent up, no IPv4 on interface '' @ mac @ '' yet''))
       | Inl err \<Rightarrow>
           if IsAgentNotRunning (Some err) then okE (Again ''qemu-guest-agent not running yet'')
           else if px_is_not_authorized P err then errE (not_authorized_error err)
           else okE (Again (''agent query error: '' @ err_text err)))"

definition ip_timeout :: "vm \<Rightarrow> int \<Rightarrow> string \<Rightarrow> goerr" where
  "ip_timeout v timeout lastState =
     ErrorString (''timed out after '' @ duration_string timeout @ '' waiting for VM '' @ itoa (vm_id v)
       @ '''s IP (last state: '' @ lastState @ '') '' @ dash
       @ '' check qemu-guest-agent is installed and enabled in the template, and that DHCP works on the VM's bridge'')"

text \<open>One iteration of the loop: the deadline, the poll, and the interruptible sleep.\<close>

definition wait_round ::
  "'w px \<Rightarrow> vm \<Rightarrow> string \<Rightarrow> int \<Rightarrow> int \<Rightarrow> int \<Rightarrow> int \<Rightarrow> string \<Rightarrow> (('w, 'x) st_scheme, poll) eff" where
  "wait_round P v mac sshPort timeout deadline interval lastState =
     bindE (nowE P) (\<lambda>now.
       if deadline < now then errE (ip_timeout v timeout lastState)
       else bindE (poll_agent P v mac sshPort) (\<lambda>p. case p of
           Found ip \<Rightarrow> okE (Found ip)
         | Again st \<Rightarrow> bindE (sleepE P interval) (\<lambda>ctx. case ctx of
               Some cerr \<Rightarrow> errE cerr
             | None \<Rightarrow> okE (Again st))))"

definition next_interval :: "int \<Rightarrow> int" where
  "next_interval interval =
     (let i = quot64 (wrap64 (interval * 3)) 2 in if ipPollMax < i then ipPollMax else i)"

partial_function (option) wait_loop ::
  "'w px \<Rightarrow> vm \<Rightarrow> string \<Rightarrow> int \<Rightarrow> int \<Rightarrow> int \<Rightarrow> int \<Rightarrow> string
   \<Rightarrow> ('w, 'x) st_scheme \<Rightarrow> (string go \<times> ('w, 'x) st_scheme) option" where
  "wait_loop P v mac sshPort timeout deadline interval lastState s =
     (case wait_round P v mac sshPort timeout deadline interval lastState s of
        None \<Rightarrow> None
      | Some (r, s') \<Rightarrow>
          (case r of
             Ok p \<Rightarrow>
               (case p of
                  Found ip \<Rightarrow> Some (Ok ip, s')
                | Again st \<Rightarrow> wait_loop P v mac sshPort timeout deadline (next_interval interval) st s')
           | Err e \<Rightarrow> Some (Err e, s')
           | Panic m \<Rightarrow> Some (Panic m, s')))"

declare wait_loop.simps [code]

definition WaitForIP :: "'w px \<Rightarrow> vm \<Rightarrow> int \<Rightarrow> int \<Rightarrow> (('w, 'x) st_scheme, string) eff" where
  "WaitForIP P v sshPort timeout =
     bindE (liftE (NICMAC (vm_config v) ''net0'')) (\<lambda>mac.
     bindE (nowE P) (\<lambda>now.
       wait_loop P v mac sshPort timeout (now + timeout) ipPollStart ''waiting for qemu-guest-agent''))"

definition QueryAgentIP :: "'w px \<Rightarrow> vm \<Rightarrow> (('w, 'x) st_scheme, string) eff" where
  "QueryAgentIP P v =
     bindE (liftE (NICMAC (vm_config v) ''net0'')) (\<lambda>mac.
     bindE (callE (EAgent v) (px_agent P v)) (\<lambda>ifaces.
       let ip = pickIPv4 ifaces mac in
       if ip = [] then errE (ErrorString (''guest agent reports no usable IPv4 on interface '' @ mac))
       else okE ip))"

section \<open>Choosing the address\<close>

lemma pick_address_find: "pick_address as = map_option aa_address (find usable_address as)"
  by (induction as) auto

text \<open>The addresses on the interfaces that have the MAC.\<close>

definition addresses_of :: "agent_iface list \<Rightarrow> string \<Rightarrow> agent_address list" where
  "addresses_of ifaces mac = concat (map ai_addresses (filter (\<lambda>i. equal_fold (ai_hwaddr i) mac) ifaces))"

lemma usable_not_empty: "usable_address a \<Longrightarrow> aa_address a \<noteq> []"
  by (auto simp: usable_address_def ParseIP_def)

lemma pickIPv4_find:
  "pickIPv4 ifaces mac =
     (case find usable_address (addresses_of ifaces mac) of None \<Rightarrow> [] | Some a \<Rightarrow> aa_address a)"
proof (induction ifaces)
  case (Cons ifc ifaces)
  then show ?case
    by (auto simp: addresses_of_def pick_address_find find_append split: option.splits)
qed (simp add: addresses_of_def)

text \<open>
  Which dotted addresses count: every IPv4 address that the agent reports with type
  \<open>ipv4\<close>, except 127.0.0.0/8, 169.254.0.0/16 and 0.0.0.0. (So multicast and broadcast
  addresses do count.)
\<close>

lemma usable_dotted:
  "usable_address \<lparr>aa_type = ''ipv4'', aa_address = dotted a b c d\<rparr> \<longleftrightarrow>
   a \<noteq> 127 \<and> (a, b) \<noteq> (169, 254) \<and> (a, b, c, d) \<noteq> (0, 0, 0, 0)"
proof -
  have "(v4_prefix @ [a, b, c, d]) ! 10 \<noteq> replicate 16 0 ! 10"
    by (simp add: v4_prefix_def nth_append)
  then have "v4_prefix @ [a, b, c, d] \<noteq> replicate 16 0" by metis
  moreover have "replicate 4 0 = [0, 0, 0, 0 :: octet]" by (simp add: numeral_eq_Suc)
  ultimately show ?thesis
    by (auto simp: usable_address_def ParseIP_dotted IsLoopback_def IsLinkLocalUnicast_def
        IsUnspecified_def)
qed

text \<open>Which addresses count, in the 16 bytes of the parsed address.\<close>

lemma usable_bytes:
  "usable_address a \<longleftrightarrow> aa_type a = ''ipv4'' \<and>
     (\<exists>ip. ParseIP (aa_address a) = Some ip \<and>
        \<not> ((\<exists>x y z. ip = v4_prefix @ [127, x, y, z]) \<or> ip = replicate 15 0 @ [1]
           \<or> (\<exists>y z. ip = v4_prefix @ [169, 254, y, z])
           \<or> (\<exists>x xs. ip = 254 # x # xs \<and> length xs = 14 \<and> and x 192 = 128)
           \<or> ip = v4_prefix @ [0, 0, 0, 0] \<or> ip = replicate 16 0))"
proof -
  have "replicate 4 0 = [0, 0, 0, 0 :: octet]" by (simp add: numeral_eq_Suc)
  then show ?thesis
    by (auto simp: usable_address_def IsLoopback_iff IsLinkLocalUnicast_iff IsUnspecified_def split: option.splits)
qed

lemma pickIPv4_none:
  "pickIPv4 ifaces mac = [] \<longleftrightarrow> \<not> (\<exists>i a. i \<in> set ifaces \<and> equal_fold (ai_hwaddr i) mac
        \<and> a \<in> set (ai_addresses i) \<and> usable_address a)"
  by (auto simp: pickIPv4_find addresses_of_def find_None_iff usable_not_empty
      dest!: find_SomeD split: option.splits)

text \<open>
  C35. \<open>pickIPv4\<close> returns the first usable IPv4 address on the interfaces with the wanted MAC,
  in any spelling of its letters, and the empty string exactly when there is none: addresses on
  other interfaces (docker0, cni0) never count. Usable is an address that the agent reports with
  type \<open>ipv4\<close> and that parses to neither loopback (127.0.0.0/8, ::1), nor link-local
  (169.254.0.0/16, fe80::/10), nor unspecified (0.0.0.0, ::); in dotted form that is every
  address but those of the three IPv4 blocks.
\<close>

theorem pickIPv4_spec:
  "pickIPv4 ifaces mac =
     (case find usable_address (addresses_of ifaces mac) of None \<Rightarrow> [] | Some a \<Rightarrow> aa_address a)
   \<and> (pickIPv4 ifaces mac = [] \<longleftrightarrow> \<not> (\<exists>i a. i \<in> set ifaces \<and> equal_fold (ai_hwaddr i) mac
        \<and> a \<in> set (ai_addresses i) \<and> usable_address a))
   \<and> (usable_address adr \<longleftrightarrow> aa_type adr = ''ipv4'' \<and>
       (\<exists>ip. ParseIP (aa_address adr) = Some ip \<and>
          \<not> ((\<exists>x y z. ip = v4_prefix @ [127, x, y, z]) \<or> ip = replicate 15 0 @ [1]
             \<or> (\<exists>y z. ip = v4_prefix @ [169, 254, y, z])
             \<or> (\<exists>x xs. ip = 254 # x # xs \<and> length xs = 14 \<and> and x 192 = 128)
             \<or> ip = v4_prefix @ [0, 0, 0, 0] \<or> ip = replicate 16 0)))
   \<and> (usable_address \<lparr>aa_type = ''ipv4'', aa_address = dotted a b c d\<rparr> \<longleftrightarrow>
       a \<noteq> 127 \<and> (a, b) \<noteq> (169, 254) \<and> (a, b, c, d) \<noteq> (0, 0, 0, 0))"
  by (intro conjI pickIPv4_find pickIPv4_none usable_bytes usable_dotted)

lemma pickIPv4_found:
  assumes "pickIPv4 ifaces mac = ip" and "ip \<noteq> []"
  obtains ifc a where "ifc \<in> set ifaces" "equal_fold (ai_hwaddr ifc) mac" "a \<in> set (ai_addresses ifc)"
    "usable_address a" "aa_address a = ip"
proof -
  from assms obtain a where a: "find usable_address (addresses_of ifaces mac) = Some a" "aa_address a = ip"
    by (auto simp: pickIPv4_find split: option.splits)
  from find_SomeD [OF a(1)] a(2) that show ?thesis by (auto simp: addresses_of_def)
qed

section \<open>Frame, trace, panics\<close>

lemma keeps_poll_agent [keepsI]:
  "A (EAgent v) \<Longrightarrow> (\<And>a. A (EDial a)) \<Longrightarrow> keeps (emits A) (poll_agent P v mac sshPort)"
  "keeps same_ext (poll_agent P v mac sshPort)"
  unfolding poll_agent_def by (intro keepsI | simp)+

lemma proper_poll_agent [properI]: "proper (poll_agent P v mac sshPort)"
  unfolding poll_agent_def by (intro properI)

lemma keeps_poll_case [keepsI]:
  "(\<And>ip. keeps R (f ip)) \<Longrightarrow> (\<And>st. keeps R (g st)) \<Longrightarrow>
   keeps R (case p of Found ip \<Rightarrow> f ip | Again st \<Rightarrow> g st)"
  by (cases p) auto

lemma proper_poll_case [properI]:
  "(\<And>ip. proper (f ip)) \<Longrightarrow> (\<And>st. proper (g st)) \<Longrightarrow>
   proper (case p of Found ip \<Rightarrow> f ip | Again st \<Rightarrow> g st)"
  by (cases p) auto

lemma keeps_wait_round [keepsI]:
  "A ENow \<Longrightarrow> A (EAgent v) \<Longrightarrow> (\<And>a. A (EDial a)) \<Longrightarrow> (\<And>d. A (ESleep d)) \<Longrightarrow>
   keeps (emits A) (wait_round P v mac sshPort timeout deadline interval lastState)"
  "keeps same_ext (wait_round P v mac sshPort timeout deadline interval lastState)"
  unfolding wait_round_def by (intro keepsI | simp)+

lemma proper_wait_round [properI]: "proper (wait_round P v mac sshPort timeout deadline interval lastState)"
  unfolding wait_round_def by (intro properI)

section \<open>The loop\<close>

fun outcome :: "poll go \<Rightarrow> string go option" where
  "outcome (Ok (Found ip)) = Some (Ok ip)"
| "outcome (Ok (Again st)) = None"
| "outcome (Err e) = Some (Err e)"
| "outcome (Panic m) = Some (Panic m)"

lemma wait_loop_step:
  "wait_loop P v mac sshPort timeout deadline i st s =
     (case wait_round P v mac sshPort timeout deadline i st s of
        None \<Rightarrow> None
      | Some (r, s') \<Rightarrow>
          (case outcome r of
             Some q \<Rightarrow> Some (q, s')
           | None \<Rightarrow> wait_loop P v mac sshPort timeout deadline (next_interval i)
               (case r of Ok (Again st') \<Rightarrow> st' | _ \<Rightarrow> []) s'))"
  by (subst wait_loop.simps) (auto split: option.splits go.splits poll.splits)

text \<open>A run of the loop ends with a round that found an address or failed.\<close>

lemma wait_loop_last:
  fixes s s' :: "('w, 'x) st_scheme"
  assumes "wait_loop P v mac sshPort timeout deadline i st s = Some (r, s')"
  shows "\<exists>i st (u :: ('w, 'x) st_scheme) q.
    wait_round P v mac sshPort timeout deadline i st u = Some (q, s') \<and> outcome q = Some r"
proof -
  let ?Q = "\<lambda>x (r, s'). case x of ((((((((P, v), mac), sshPort), timeout), deadline), i), st), s) \<Rightarrow>
     (\<exists>i st u q. wait_round P v mac sshPort timeout deadline i st (u :: ('w, 'x) st_scheme) = Some (q, s')
        \<and> outcome q = Some r)"
  have "?Q ((((((((P, v), mac), sshPort), timeout), deadline), i), st), s) (r, s')"
  proof (rule wait_loop.raw_induct [OF _ assms], goal_cases)
    case (1 f P v mac sshPort timeout deadline i st s y)
    obtain r t where y: "y = (r, t)" by (cases y)
    from "1"(2) y obtain q u where q: "wait_round P v mac sshPort timeout deadline i st s = Some (q, u)"
      by (auto split: option.splits)
    show ?case
    proof (cases "outcome q")
      case None
      then obtain st' where "q = Ok (Again st')" by (cases q rule: outcome.cases) auto
      with "1"(2) q have "f P v mac sshPort timeout deadline (next_interval i) st' u = Some y" by simp
      from "1"(1) [OF this] show ?thesis by simp
    next
      case (Some r')
      with "1"(2) q y have "r' = r" "t = u"
        by (auto split: go.splits poll.splits)
      with Some q y show ?thesis by auto
    qed
  qed
  then show ?thesis by simp
qed

text \<open>What every round keeps, the loop keeps.\<close>

lemma keeps_wait_loop:
  fixes s s' :: "('w, 'x) st_scheme"
  assumes "wait_loop P v mac sshPort timeout deadline i st s = Some (r, s')"
    and "\<And>s t u. R s t \<Longrightarrow> R t u \<Longrightarrow> R s u"
    and "\<And>i st. keeps R (wait_round P v mac sshPort timeout deadline i st)"
  shows "R s s'"
proof -
  let ?Q = "\<lambda>x (r, s'). case x of ((((((((P, v), mac), sshPort), timeout), deadline), i), st), s) \<Rightarrow>
     (\<forall>i st. keeps R (wait_round P v mac sshPort timeout deadline i st)) \<longrightarrow> R s (s' :: ('w, 'x) st_scheme)"
  have "?Q ((((((((P, v), mac), sshPort), timeout), deadline), i), st), s) (r, s')"
  proof (rule wait_loop.raw_induct [OF _ assms(1)], goal_cases)
    case (1 f P v mac sshPort timeout deadline i st s y)
    obtain r t where y: "y = (r, t)" by (cases y)
    show ?case unfolding y prod.case
    proof
      assume k: "\<forall>i st. keeps R (wait_round P v mac sshPort timeout deadline i st)"
      from "1"(2) y obtain q u where q: "wait_round P v mac sshPort timeout deadline i st s = Some (q, u)"
        by (auto split: option.splits)
      then have su: "R s u" using k unfolding keeps_def by blast
      show "R s t"
      proof (cases "outcome q")
        case None
        then obtain st' where "q = Ok (Again st')" by (cases q rule: outcome.cases) auto
        with "1"(2) q have "f P v mac sshPort timeout deadline (next_interval i) st' u = Some y" by simp
        from "1"(1) [OF this] y k have "R u t" by simp
        with su show ?thesis by (rule assms(2))
      next
        case (Some r')
        with "1"(2) q y have "t = u" by (auto split: go.splits poll.splits)
        with su show ?thesis by simp
      qed
    qed
  qed
  with assms(3) show ?thesis by simp
qed

lemma keeps_WaitForIP [keepsI]:
  "A ENow \<Longrightarrow> A (EAgent v) \<Longrightarrow> (\<And>a. A (EDial a)) \<Longrightarrow> (\<And>d. A (ESleep d)) \<Longrightarrow>
   keeps (emits A) (WaitForIP P v sshPort timeout)"
  "keeps same_ext (WaitForIP P v sshPort timeout)"
  unfolding WaitForIP_def
  by (intro keepsI keeps_intro [of "wait_loop P v mac sshPort timeout deadline i st" for mac deadline i st] | assumption
      | erule keeps_wait_loop [OF _ emits.R_trans] keeps_wait_loop [OF _ frame.R_trans])+


section \<open>What a result means\<close>

lemma poll_agent_Found:
  assumes "poll_agent P v mac sshPort s = Some (Ok (Found ip), s')"
  shows "\<exists>ifaces t. callE (EAgent v) (px_agent P v) s = Some (Ok ifaces, t)
    \<and> ip = pickIPv4 ifaces mac \<and> ip \<noteq> []
    \<and> callE (EDial (join_host_port ip (itoa sshPort)))
         (rt_dial P (join_host_port ip (itoa sshPort)) probeWait) t = Some (Ok (), s')"
  using assms unfolding poll_agent_def
  by (auto elim!: bindE_OkE attemptE_OkE simp: Let_def split: if_splits)

lemma wait_round_Found:
  assumes "wait_round P v mac sshPort timeout deadline i st s = Some (Ok (Found ip), s')"
  shows "\<exists>now t. nowE P s = Some (Ok now, t) \<and> now \<le> deadline
    \<and> poll_agent P v mac sshPort t = Some (Ok (Found ip), s')"
  using assms unfolding wait_round_def
  by (auto elim!: bindE_OkE split: if_splits poll.splits option.splits)

text \<open>
  C15. An address returned by \<open>WaitForIP\<close> is the one chosen from a report of the VM's guest
  agent by the MAC of its \<open>net0\<close>, asked for before the deadline had passed, and a TCP
  connection to it on the SSH port succeeded as the last step.
\<close>

theorem WaitForIP_success:
  fixes s s' :: "('w, 'x) st_scheme"
  assumes "WaitForIP P v sshPort timeout s = Some (Ok ip, s')"
  shows "\<exists>mac start b now t ifaces (u :: ('w, 'x) st_scheme) a.
    NICMAC (vm_config v) ''net0'' = Ok mac \<and> nowE P s = Some (Ok start, b)
    \<and> nowE P a = Some (Ok now, t) \<and> now \<le> start + timeout
    \<and> callE (EAgent v) (px_agent P v) t = Some (Ok ifaces, u)
    \<and> ip = pickIPv4 ifaces mac \<and> ip \<noteq> []
    \<and> callE (EDial (join_host_port ip (itoa sshPort)))
         (rt_dial P (join_host_port ip (itoa sshPort)) probeWait) u = Some (Ok (), s')"
proof -
  from assms obtain mac start b where mac: "NICMAC (vm_config v) ''net0'' = Ok mac"
    and start: "nowE P s = Some (Ok start, b)"
    and loop: "wait_loop P v mac sshPort timeout (start + timeout) ipPollStart
       ''waiting for qemu-guest-agent'' b = Some (Ok ip, s')"
    unfolding WaitForIP_def by (auto elim!: bindE_OkE)
  from wait_loop_last [OF loop] obtain i st a q where
    q: "wait_round P v mac sshPort timeout (start + timeout) i st (a :: ('w, 'x) st_scheme) = Some (q, s')"
    and "outcome q = Some (Ok ip)" by blast
  then have "q = Ok (Found ip)" by (cases q rule: outcome.cases) auto
  with q wait_round_Found obtain now t where now: "nowE P a = Some (Ok now, t)" "now \<le> start + timeout"
    and "poll_agent P v mac sshPort t = Some (Ok (Found ip), s')" by blast
  from poll_agent_Found [OF this(3)] obtain ifaces u where
    "callE (EAgent v) (px_agent P v) t = Some (Ok ifaces, u)" "ip = pickIPv4 ifaces mac" "ip \<noteq> []"
    "callE (EDial (join_host_port ip (itoa sshPort)))
       (rt_dial P (join_host_port ip (itoa sshPort)) probeWait) u = Some (Ok (), s')" by blast
  with mac start now show ?thesis by metis
qed

text \<open>The ways in which waiting can fail; everything else is polled again.\<close>

inductive wait_failed ::
  "'w px \<Rightarrow> vm \<Rightarrow> int \<Rightarrow> int \<Rightarrow> goerr \<Rightarrow> ('w, 'x) st_scheme \<Rightarrow> bool"
  for P v timeout deadline where
  too_late: "nowE P (u :: ('w, 'x) st_scheme) = Some (Ok now, s') \<Longrightarrow> deadline < now \<Longrightarrow>
     wait_failed P v timeout deadline (ip_timeout v timeout st) s'"
| forbidden: "callE (EAgent v) (px_agent P v) (u :: ('w, 'x) st_scheme) = Some (Err err, s') \<Longrightarrow>
     px_is_not_authorized P err \<Longrightarrow> \<not> IsAgentNotRunning (Some err) \<Longrightarrow>
     wait_failed P v timeout deadline (not_authorized_error err) s'"
| cancelled: "sleepE P d (u :: ('w, 'x) st_scheme) = Some (Ok (Some cerr), s') \<Longrightarrow>
     wait_failed P v timeout deadline cerr s'"

lemma nowE_not_Err [simp]: "nowE P s \<noteq> Some (Err e, s')"
  by (auto simp: nowE_def elim: drawE_SomeE)

lemma poll_agent_Err:
  assumes "poll_agent P v mac sshPort s = Some (Err e, s')"
  shows "wait_failed P v timeout deadline e s'"
proof -
  from assms obtain err where "callE (EAgent v) (px_agent P v) s = Some (Err err, s')"
    "px_is_not_authorized P err" "\<not> IsAgentNotRunning (Some err)" "e = not_authorized_error err"
    unfolding poll_agent_def
    by (auto elim!: bindE_SomeE attemptE_SomeE simp: Let_def split: if_splits sum.splits)
  then show ?thesis by (auto intro: wait_failed.forbidden)
qed

lemma wait_round_Err:
  assumes "wait_round P v mac sshPort timeout deadline i st s = Some (Err e, s')"
  shows "wait_failed P v timeout deadline e s'"
  using assms unfolding wait_round_def
proof (cases rule: bindE_SomeE)
  case (ok now t)
  show ?thesis
  proof (cases "deadline < now")
    case True
    with ok show ?thesis by (auto intro: wait_failed.too_late)
  next
    case False
    with ok(2) have "bindE (poll_agent P v mac sshPort) (\<lambda>p. case p of
           Found ip \<Rightarrow> okE (Found ip)
         | Again st \<Rightarrow> bindE (sleepE P i) (\<lambda>ctx. case ctx of
               Some cerr \<Rightarrow> errE cerr | None \<Rightarrow> okE (Again st))) t = Some (Err e, s')" by simp
    then show ?thesis
    proof (cases rule: bindE_SomeE)
      case p: (ok p u)
      then show ?thesis
        by (auto elim!: bindE_SomeE split: poll.splits option.splits intro: wait_failed.cancelled)
    next
      case (err e')
      then show ?thesis by (simp add: poll_agent_Err)
    qed simp
  qed
qed simp_all

text \<open>
  C16. \<open>WaitForIP\<close> fails only when \<open>net0\<close> has no readable MAC, when the clock has passed the
  deadline, when the token may not query the agent, or when the context ends; an agent that is
  not running, any other agent error, a missing address and a closed SSH port never end the
  wait.
\<close>

theorem WaitForIP_failure:
  assumes "WaitForIP P v sshPort timeout s = Some (Err e, s')"
  shows "(NICMAC (vm_config v) ''net0'' = Err e \<and> s' = s)
    \<or> (\<exists>start b. nowE P s = Some (Ok start, b) \<and> wait_failed P v timeout (start + timeout) e s')"
proof (cases "NICMAC (vm_config v) ''net0''")
  case (Ok mac)
  with assms obtain start b where start: "nowE P s = Some (Ok start, b)"
    and loop: "wait_loop P v mac sshPort timeout (start + timeout) ipPollStart
       ''waiting for qemu-guest-agent'' b = Some (Err e, s')"
    unfolding WaitForIP_def by (auto elim!: bindE_SomeE)
  from wait_loop_last [OF loop] obtain i st a q where
    q: "wait_round P v mac sshPort timeout (start + timeout) i st a = Some (q, s')"
    and "outcome q = Some (Err e)" by blast
  then have "q = Err e" by (cases q rule: outcome.cases) auto
  with q start wait_round_Err show ?thesis by blast
qed (use assms in \<open>auto simp: WaitForIP_def elim!: bindE_SomeE\<close>)


section \<open>Termination\<close>

text \<open>
  The contract of the clock: \<open>time.Now\<close> reads it, no call turns it back, and a sleep that is
  not cut short by the context advances it by at least its duration.
\<close>

definition clock_advances :: "'w px \<Rightarrow> ('w \<Rightarrow> int) \<Rightarrow> bool" where
  "clock_advances P clk \<longleftrightarrow>
     (\<forall>w. fst (rt_now P w) = clk w \<and> clk w \<le> clk (snd (rt_now P w)))
     \<and> (\<forall>v w. clk w \<le> clk (snd (px_agent P v w)))
     \<and> (\<forall>a d w. clk w \<le> clk (snd (rt_dial P a d w)))
     \<and> (\<forall>d w w'. 0 < d \<longrightarrow> rt_sleep P d w = (None, w') \<longrightarrow> clk w + d \<le> clk w')"

fun is_agent :: "event \<Rightarrow> bool" where
  "is_agent (EAgent v) = True"
| "is_agent _ = False"

lemma clock_now:
  "clock_advances P clk \<Longrightarrow> nowE P s = Some (r, t) \<Longrightarrow>
   r = Ok (clk (world s)) \<and> clk (world s) \<le> clk (world t)"
  unfolding clock_advances_def nowE_def by (auto elim!: drawE_SomeE) (metis fst_conv snd_conv)+

lemma clock_sleep:
  "clock_advances P clk \<Longrightarrow> 0 < d \<Longrightarrow> sleepE P d s = Some (Ok None, t) \<Longrightarrow>
   clk (world s) + d \<le> clk (world t)"
  unfolding clock_advances_def sleepE_def by (auto elim!: drawE_SomeE)

lemma clock_agent:
  "clock_advances P clk \<Longrightarrow> callE ev (px_agent P v) s = Some (r, t) \<Longrightarrow> clk (world s) \<le> clk (world t)"
  unfolding clock_advances_def by (auto elim!: callE_SomeE) (metis snd_conv)

lemma clock_dial:
  "clock_advances P clk \<Longrightarrow> callE ev (rt_dial P a d) s = Some (r, t) \<Longrightarrow> clk (world s) \<le> clk (world t)"
  unfolding clock_advances_def by (auto elim!: callE_SomeE) (metis snd_conv)

interpretation clock: step_rel "\<lambda>s t. clk (world s) \<le> clk (world t)" for clk :: "'w \<Rightarrow> int"
  by unfold_locales auto

lemma clock_poll:
  assumes "clock_advances P clk"
  shows "keeps (\<lambda>s t. clk (world s) \<le> clk (world t)) (poll_agent P v mac sshPort)"
  unfolding poll_agent_def
  by (intro clock.keeps_basic keepsI keeps_intro clock_agent [OF assms] clock_dial [OF assms]
      | erule clock_agent [OF assms] clock_dial [OF assms])+

text \<open>A round that asks for another one has advanced the clock by its interval.\<close>

lemma wait_round_again:
  assumes clk: "clock_advances P clk" and i: "0 < i"
    and run: "wait_round P v mac sshPort timeout deadline i st s = Some (Ok (Again st'), t)"
  shows "clk (world s) \<le> deadline \<and> clk (world s) + i \<le> clk (world t)"
proof -
  from run obtain now a b where now: "nowE P s = Some (Ok now, a)" "now \<le> deadline"
    and poll: "poll_agent P v mac sshPort a = Some (Ok (Again st'), b)"
    and sleep: "sleepE P i b = Some (Ok None, t)"
    unfolding wait_round_def
    by (auto elim!: bindE_OkE split: if_splits poll.splits option.splits)
  from clock_now [OF clk now(1)] keepsD [OF clock_poll [OF clk] poll] clock_sleep [OF clk i sleep] now(2)
  show ?thesis by auto
qed

lemma wait_round_late:
  assumes "clock_advances P clk" and "deadline < clk (world s)"
  shows "\<exists>t. wait_round P v mac sshPort timeout deadline i st s = Some (Err (ip_timeout v timeout st), t)
    \<and> grew is_agent 0 s t"
proof -
  obtain r t where now: "nowE P s = Some (r, t)" using proper_nowE unfolding proper_def by blast
  with clock_now [OF assms(1) now] assms(2)
  have "wait_round P v mac sshPort timeout deadline i st s = Some (Err (ip_timeout v timeout st), t)"
    by (simp add: wait_round_def bindE_def errE_def)
  moreover have "keeps (grew is_agent 0) (nowE P)" by (intro keeps_grew_none keepsI) simp
  ultimately show ?thesis using now by (blast dest: keepsD)
qed

lemma wait_round_once: "keeps (grew is_agent 1) (wait_round P v mac sshPort timeout deadline i st)"
proof -
  have now: "keeps (grew is_agent 0) (nowE P)" by (intro keeps_grew_none keepsI) simp
  have dial: "keeps (grew is_agent 0) (case res of
         Inr ifaces \<Rightarrow>
           let ip = pickIPv4 ifaces mac in
           if ip \<noteq> [] then
             let addr = join_host_port ip (itoa sshPort) in
             bindE (attemptE (callE (EDial addr) (rt_dial P addr probeWait))) (\<lambda>conn. case conn of
                 Inr u \<Rightarrow> okE (Found ip)
               | Inl perr \<Rightarrow>
                   okE (Again (''got IP '' @ ip @ '' but '' @ addr @ '' not reachable yet'')))
           else okE (Again (''agent up, no IPv4 on interface '' @ mac @ '' yet''))
       | Inl err \<Rightarrow>
           if IsAgentNotRunning (Some err) then okE (Again ''qemu-guest-agent not running yet'')
           else if px_is_not_authorized P err then errE (not_authorized_error err)
           else okE (Again (''agent query error: '' @ err_text err)))" for res
    by (intro keeps_grew_none keepsI) simp
  have poll: "keeps (grew is_agent (1 + 0)) (poll_agent P v mac sshPort)"
    unfolding poll_agent_def by (rule keeps_grew_bindE [OF keeps_grew_attemptE [OF keeps_grew_one] dial])
  have sleep: "keeps (grew is_agent 0) (case p of
           Found ip \<Rightarrow> okE (Found ip)
         | Again st \<Rightarrow> bindE (sleepE P i) (\<lambda>ctx. case ctx of
               Some cerr \<Rightarrow> errE cerr | None \<Rightarrow> okE (Again st)))" for p
    by (intro keeps_grew_none keepsI) simp
  have "keeps (grew is_agent 1) (if deadline < now then errE (ip_timeout v timeout st)
       else bindE (poll_agent P v mac sshPort) (\<lambda>p. case p of
           Found ip \<Rightarrow> okE (Found ip)
         | Again st \<Rightarrow> bindE (sleepE P i) (\<lambda>ctx. case ctx of
               Some cerr \<Rightarrow> errE cerr | None \<Rightarrow> okE (Again st))))" for now
  proof (cases "deadline < now")
    case False
    with keeps_grew_bindE [OF poll sleep] show ?thesis by simp
  qed (simp add: keeps_def grew_refl)
  from keeps_grew_bindE [OF now this] show ?thesis unfolding wait_round_def by simp
qed

lemma start_le_max: "ipPollStart \<le> ipPollMax"
  by (simp add: ipPollStart_def ipPollMax_def second_def)

lemma next_interval_bounds:
  "ipPollStart \<le> i \<Longrightarrow> i \<le> ipPollMax \<Longrightarrow> ipPollStart \<le> next_interval i \<and> next_interval i \<le> ipPollMax"
  by (auto simp: next_interval_def Let_def ipPollStart_def ipPollMax_def second_def quot64_def wrap64_def)

lemma wait_loop_returns:
  assumes clk: "clock_advances P clk"
  shows "ipPollStart \<le> i \<Longrightarrow> i \<le> ipPollMax \<Longrightarrow> deadline - clk (world s) < ipPollStart * int n \<Longrightarrow>
    \<exists>r s'. wait_loop P v mac sshPort timeout deadline i st s = Some (r, s')
      \<and> grew is_agent n s s' \<and> (\<forall>m. r \<noteq> Panic m)"
proof (induction n arbitrary: i st s)
  case 0
  then have "deadline < clk (world s)" by simp
  from wait_round_late [OF clk this] obtain t where
    "wait_round P v mac sshPort timeout deadline i st s = Some (Err (ip_timeout v timeout st), t)"
    "grew is_agent 0 s t" by blast
  then show ?case by (subst wait_loop_step) simp
next
  case (Suc n)
  obtain q t where q: "wait_round P v mac sshPort timeout deadline i st s = Some (q, t)"
    and np: "\<forall>m. q \<noteq> Panic m" using proper_wait_round unfolding proper_def by blast
  have g: "grew is_agent 1 s t" by (rule keepsD [OF wait_round_once q])
  show ?case
  proof (cases "outcome q")
    case None
    then obtain st' where again: "q = Ok (Again st')" by (cases q rule: outcome.cases) auto
    have "0 < i" using Suc.prems(1) by (simp add: ipPollStart_def second_def)
    from wait_round_again [OF clk this] q again have "clk (world s) + i \<le> clk (world t)" by blast
    with Suc.prems have "deadline - clk (world t) < ipPollStart * int n"
      by (simp add: algebra_simps)
    with Suc.IH next_interval_bounds [OF Suc.prems(1,2)] obtain r s' where
      "wait_loop P v mac sshPort timeout deadline (next_interval i) st' t = Some (r, s')"
      "grew is_agent n t s'" "\<forall>m. r \<noteq> Panic m" by blast
    with q again g grew_trans [of is_agent 1 s t n s'] show ?thesis by (subst wait_loop_step) simp
  next
    case (Some r)
    with np have "\<forall>m. r \<noteq> Panic m" by (cases q rule: outcome.cases) auto
    with Some q g grew_mono [of is_agent 1 s t "Suc n"] show ?thesis by (subst wait_loop_step) simp
  qed
qed

text \<open>
  C14. \<open>WaitForIP\<close> always returns when the clock advances with the sleeps: after at most one
  agent query per two seconds of the timeout, and one more. It panics only if the VM has no
  configuration.
\<close>

theorem WaitForIP_terminates:
  assumes clk: "clock_advances P clk" and "0 \<le> timeout"
  shows "\<exists>r s'. WaitForIP P v sshPort timeout s = Some (r, s')
    \<and> grew is_agent (nat (timeout div ipPollStart) + 1) s s'
    \<and> ((\<exists>m. r = Panic m) \<longleftrightarrow> vm_config v = None)"
proof (cases "NICMAC (vm_config v) ''net0''")
  case (Ok mac)
  obtain r b where now: "nowE P s = Some (r, b)" using proper_nowE unfolding proper_def by blast
  from clock_now [OF clk now] have r: "r = Ok (clk (world s))" and b: "clk (world s) \<le> clk (world b)" by auto
  have pos: "0 < ipPollStart" by (simp add: ipPollStart_def second_def)
  let ?n = "nat (timeout div ipPollStart) + 1"
  have "timeout < ipPollStart * (1 + timeout div ipPollStart)"
    using pos_mod_bound [OF pos, of timeout] mult_div_mod_eq [of ipPollStart timeout]
    by (simp only: distrib_left mult_1_right)
  then have "clk (world s) + timeout - clk (world b) < ipPollStart * int ?n"
    using b assms(2) pos by (simp add: pos_imp_zdiv_nonneg_iff)
  from wait_loop_returns [OF clk order_refl _ this] obtain q s' where
    loop: "wait_loop P v mac sshPort timeout (clk (world s) + timeout) ipPollStart
      ''waiting for qemu-guest-agent'' b = Some (q, s')"
    and g: "grew is_agent ?n b s'" and np: "\<forall>m. q \<noteq> Panic m"
    using start_le_max by blast
  have "keeps (grew is_agent 0) (nowE P)" by (intro keeps_grew_none keepsI) simp
  with now have "grew is_agent 0 s b" by (blast dest: keepsD)
  from grew_trans [OF this g] have "grew is_agent ?n s s'" by simp
  moreover have "WaitForIP P v sshPort timeout s = Some (q, s')"
    using Ok now r loop by (simp add: WaitForIP_def bindE_def liftE_def)
  moreover have "vm_config v \<noteq> None" using Ok by (auto simp: NICMAC_def split: option.splits)
  ultimately show ?thesis using np by (intro exI [of _ q] exI [of _ s']) simp
next
  case (Err e)
  then have "WaitForIP P v sshPort timeout s = Some (Err e, s)" "vm_config v \<noteq> None"
    by (auto simp: WaitForIP_def bindE_def liftE_def NICMAC_def split: option.splits)
  then show ?thesis by (auto simp: grew_refl)
next
  case (Panic m)
  then have "WaitForIP P v sshPort timeout s = Some (Panic m, s)" "vm_config v = None"
    by (auto simp: WaitForIP_def bindE_def liftE_def NICMAC_def split: option.splits if_splits)
  then show ?thesis by (auto simp: grew_refl)
qed

section \<open>Witnesses\<close>

text \<open>The agent answers the third query; an agent that never comes up.\<close>

definition agent_st :: "sim_world st" where
  "agent_st = st0\<lparr>world := sim0\<lparr>sw_agent_faults :=
     [''QEMU guest agent is not running'', ''500 timeout'']\<rparr>\<rparr>"

definition mute_st :: "sim_world st" where
  "mute_st = st0\<lparr>world := sim0\<lparr>sw_agent_faults := replicate 9 ''QEMU guest agent is not running''\<rparr>\<rparr>"

lemma sim_clock: "clock_advances sim sw_clock"
  by (auto simp: clock_advances_def sim_def sim_agent_def split: list.splits)

theorem WaitForIP_success_witness:
  "\<exists>s' mac. WaitForIP sim owned_vm 22 (5 * minute) agent_st = Some (Ok ''10.0.0.5'', s')
     \<and> NICMAC (vm_config owned_vm) ''net0'' = Ok mac"
proof -
  have "map_option fst (WaitForIP sim owned_vm 22 (5 * minute) agent_st) = Some (Ok ''10.0.0.5'')"
    by code_simp
  from run_ends [OF this] obtain s' where
    run: "WaitForIP sim owned_vm 22 (5 * minute) agent_st = Some (Ok ''10.0.0.5'', s')" by blast
  from WaitForIP_success [OF run] run show ?thesis by blast
qed

theorem WaitForIP_failure_witness:
  "\<exists>s' e start. WaitForIP sim owned_vm 22 (10 * second) mute_st = Some (Err e, s')
     \<and> wait_failed sim owned_vm (10 * second) (start + 10 * second) e s'"
proof -
  have "fails (WaitForIP sim owned_vm 22 (10 * second) mute_st)" by code_simp
  from run_fails [OF this] obtain e s' where
    run: "WaitForIP sim owned_vm 22 (10 * second) mute_st = Some (Err e, s')" by blast
  have "NICMAC (vm_config owned_vm) ''net0'' = Ok ''BC:24:11:2A:00:01''" by code_simp
  with WaitForIP_failure [OF run] run show ?thesis by fastforce
qed

theorem WaitForIP_terminates_witness:
  "\<exists>r s'. WaitForIP sim owned_vm 22 (10 * second) mute_st = Some (r, s') \<and> grew is_agent 6 mute_st s'"
proof -
  have n: "nat (10 * second div ipPollStart) + 1 = 6" by (simp add: ipPollStart_def second_def)
  have "0 \<le> 10 * second" by (simp add: second_def)
  from WaitForIP_terminates [OF sim_clock this, of owned_vm 22 mute_st] show ?thesis unfolding n by blast
qed

end
