(* ===== verification/Rules.thy ===== *)
theory Rules
  imports Api
begin

text \<open>
  The clone-mode, disk-size and machine-name rules, \<open>pkg/validate/rules.go\<close>. A validator
  returns Go's \<open>error\<close>: \<open>None\<close> is nil. The machine-name rule is a regular expression; it is
  modelled as one, with a matcher that is proved to decide its language.
\<close>

section \<open>Clone mode\<close>

definition ValidateCloneMode :: "bool \<Rightarrow> string \<Rightarrow> string \<Rightarrow> string \<Rightarrow> bool \<Rightarrow> goerr option" where
  "ValidateCloneMode linked storage targetNode templateNode templateStorageShared =
     (if linked \<and> storage \<noteq> [] then
        Some (ErrorString (''--pvenode-storage has no effect on linked clones (PVE ignores it; ''
          @ ''a linked clone always lives on the template's storage) '' @ dash
          @ '' drop the storage option or use a full clone''))
      else if targetNode \<noteq> [] \<and> targetNode \<noteq> templateNode \<and> \<not> templateStorageShared then
        Some (ErrorString (''target node '' @ quote targetNode @ '' differs from the template's node ''
          @ quote templateNode @ '' but the template's storage is not shared '' @ dash
          @ '' cloning across nodes requires shared storage''))
      else None)"

definition linkedCloneStorageTypes :: "string list" where
  "linkedCloneStorageTypes = [''lvmthin'', ''zfspool'', ''rbd'', ''btrfs'']"

definition LinkedCloneOK :: "string \<Rightarrow> string \<Rightarrow> goerr option" where
  "LinkedCloneOK bootDiskValue storageType =
     (if storageType \<in> set linkedCloneStorageTypes \<or> contains bootDiskValue ''.qcow2'' then None
      else Some (ErrorString (''the template's boot disk ('' @ bootDiskValue @ '' on ''
        @ quote storageType @ '' storage) cannot back a linked clone '' @ dash
        @ '' use a full clone, or move the template to lvmthin/zfs/rbd/btrfs storage or qcow2 format'')))"

text \<open>
  A clone configuration is accepted exactly when no storage is named for a linked clone and
  the clone either stays on the template's node or the template's storage is shared.
\<close>

lemma ValidateCloneMode_accepts:
  "ValidateCloneMode linked storage targetNode templateNode shared = None \<longleftrightarrow>
   \<not> (linked \<and> storage \<noteq> []) \<and> (targetNode \<in> {[], templateNode} \<or> shared)"
  by (auto simp: ValidateCloneMode_def)

section \<open>Disk size\<close>

definition ValidateDiskSize :: "int \<Rightarrow> int \<Rightarrow> goerr option" where
  "ValidateDiskSize requestedGB templateGB =
     (if requestedGB \<noteq> 0 \<and> requestedGB < templateGB then
        Some (ErrorString (''requested disk size '' @ itoa requestedGB
          @ ''G is smaller than the template's '' @ itoa templateGB @ ''G '' @ dash
          @ '' PVE cannot shrink disks; set --pvenode-disk-size to at least '' @ itoa templateGB
          @ '' (or 0 to keep the template size)''))
      else None)"

lemma ValidateDiskSize_None [simp]:
  "ValidateDiskSize requestedGB templateGB = None \<longleftrightarrow> requestedGB = 0 \<or> templateGB \<le> requestedGB"
  by (auto simp: ValidateDiskSize_def)

section \<open>Regular expressions\<close>

text \<open>The operators that the expression uses, with Brzozowski's derivative as the matcher.\<close>

datatype regex =
    Fail
  | Empty
  | Class "char \<Rightarrow> bool"
  | Seq regex regex
  | Or regex regex
  | Rep regex

primrec nullable :: "regex \<Rightarrow> bool" where
  "nullable Fail = False"
| "nullable Empty = True"
| "nullable (Class p) = False"
| "nullable (Seq r q) = (nullable r \<and> nullable q)"
| "nullable (Or r q) = (nullable r \<or> nullable q)"
| "nullable (Rep r) = True"

primrec deriv :: "char \<Rightarrow> regex \<Rightarrow> regex" where
  "deriv c Fail = Fail"
| "deriv c Empty = Fail"
| "deriv c (Class p) = (if p c then Empty else Fail)"
| "deriv c (Seq r q) =
     (if nullable r then Or (Seq (deriv c r) q) (deriv c q) else Seq (deriv c r) q)"
| "deriv c (Or r q) = Or (deriv c r) (deriv c q)"
| "deriv c (Rep r) = Seq (deriv c r) (Rep r)"

fun matches :: "regex \<Rightarrow> string \<Rightarrow> bool" where
  "matches r [] = nullable r"
| "matches r (c # cs) = matches (deriv c r) cs"

inductive lang :: "regex \<Rightarrow> string \<Rightarrow> bool" where
  lang_Empty: "lang Empty []"
| lang_Class: "p c \<Longrightarrow> lang (Class p) [c]"
| lang_Seq: "lang r s \<Longrightarrow> lang q t \<Longrightarrow> lang (Seq r q) (s @ t)"
| lang_Or1: "lang r s \<Longrightarrow> lang (Or r q) s"
| lang_Or2: "lang q s \<Longrightarrow> lang (Or r q) s"
| lang_Rep0: "lang (Rep r) []"
| lang_Rep: "lang r s \<Longrightarrow> lang (Rep r) t \<Longrightarrow> lang (Rep r) (s @ t)"

inductive_simps lang_simps [simp]: "lang Fail s" "lang Empty s" "lang (Class p) s" "lang (Or r q) s"
inductive_simps lang_Seq_iff: "lang (Seq r q) s"
inductive_cases lang_SeqE: "lang (Seq r q) s"

lemma nullable_iff: "nullable r \<longleftrightarrow> lang r []"
  by (induction r) (auto simp: lang_Seq_iff intro: lang_Rep0)

lemma lang_Rep_Cons:
  assumes "lang (Rep r) (c # cs)"
  shows "\<exists>s t. cs = s @ t \<and> lang r (c # s) \<and> lang (Rep r) t"
  using assms
proof (induction "Rep r" "c # cs" arbitrary: c cs rule: lang.induct)
  case (lang_Rep s t)
  then show ?case by (cases s) auto
qed

lemma lang_deriv: "lang (deriv c r) s \<longleftrightarrow> lang r (c # s)"
proof (induction r arbitrary: s)
  case (Seq r q)
  then show ?case
    by (auto simp: lang_Seq_iff nullable_iff Cons_eq_append_conv)
next
  case (Rep r)
  show ?case
  proof
    assume "lang (deriv c (Rep r)) s"
    then obtain a b where "s = a @ b" "lang (deriv c r) a" "lang (Rep r) b"
      by (auto elim: lang_SeqE)
    with Rep.IH lang.lang_Rep [of r "c # a" b] show "lang (Rep r) (c # s)" by simp
  next
    assume "lang (Rep r) (c # s)"
    from lang_Rep_Cons [OF this] Rep.IH show "lang (deriv c (Rep r)) s"
      by (auto intro: lang.lang_Seq)
  qed
qed auto

lemma matches_lang: "matches r s \<longleftrightarrow> lang r s"
  by (induction s arbitrary: r) (simp_all add: nullable_iff lang_deriv)

lemma lang_Rep_Class: "lang (Rep (Class p)) s \<longleftrightarrow> list_all p s"
proof
  show "lang (Rep (Class p)) s \<Longrightarrow> list_all p s"
    by (induction "Rep (Class p)" s rule: lang.induct) auto
  show "list_all p s \<Longrightarrow> lang (Rep (Class p)) s"
  proof (induction s)
    case (Cons c cs)
    then show ?case using lang.lang_Rep [of "Class p" "[c]" cs] by simp
  qed (simp add: lang_Rep0)
qed

lemma lang_Seq_Class: "lang (Seq (Class p) q) s \<longleftrightarrow> (\<exists>c t. s = c # t \<and> p c \<and> lang q t)"
proof
  show "\<exists>c t. s = c # t \<and> p c \<and> lang q t \<Longrightarrow> lang (Seq (Class p) q) s"
    using lang.lang_Seq [OF lang.lang_Class] by fastforce
qed (auto simp: lang_Seq_iff)

section \<open>Machine name\<close>

definition alnum :: "char \<Rightarrow> bool" where
  "alnum c = (let n = (of_char c :: nat) in
     97 \<le> n \<and> n \<le> 122 \<or> 65 \<le> n \<and> n \<le> 90 \<or> 48 \<le> n \<and> n \<le> 57)"

text \<open>\<open>^[a-zA-Z0-9]([a-zA-Z0-9-]*[a-zA-Z0-9])?$\<close>\<close>

definition dnsNameRe :: regex where
  "dnsNameRe = Seq (Class alnum)
     (Or (Seq (Rep (Class (\<lambda>c. alnum c \<or> c = CHR ''-''))) (Class alnum)) Empty)"

definition ValidateMachineName :: "string \<Rightarrow> goerr option" where
  "ValidateMachineName name =
     (if length name = 0 \<or> length name > 63 \<or> \<not> matches dnsNameRe name then
        Some (ErrorString (''machine name '' @ quote name @ '' cannot be used as a hostname ''
          @ ''(must be 1-63 chars, alphanumeric and dashes, no leading/trailing dash) '' @ dash
          @ '' use shorter, DNS-safe cluster and pool names in Rancher''))
      else None)"

lemma dnsNameRe_lang:
  "lang dnsNameRe s \<longleftrightarrow>
   s \<noteq> [] \<and> list_all (\<lambda>c. alnum c \<or> c = CHR ''-'') s \<and> alnum (hd s) \<and> alnum (last s)"
proof -
  let ?L = "\<lambda>c. alnum c \<or> c = CHR ''-''"
  have tail: "lang (Seq (Rep (Class ?L)) (Class alnum)) t \<longleftrightarrow> (\<exists>m d. t = m @ [d] \<and> list_all ?L m \<and> alnum d)" for t
    by (auto simp: lang_Seq_iff lang_Rep_Class)
  have "lang dnsNameRe s \<longleftrightarrow> (\<exists>c t. s = c # t \<and> alnum c
      \<and> (lang (Seq (Rep (Class ?L)) (Class alnum)) t \<or> t = []))"
    unfolding dnsNameRe_def lang_Seq_Class by auto
  also have "\<dots> \<longleftrightarrow> (\<exists>c. alnum c \<and> s = [c]) \<or>
      (\<exists>c m d. alnum c \<and> alnum d \<and> list_all ?L m \<and> s = c # m @ [d])"
    unfolding tail by auto
  also have "\<dots> \<longleftrightarrow> s \<noteq> [] \<and> list_all (\<lambda>c. alnum c \<or> c = CHR ''-'') s \<and> alnum (hd s) \<and> alnum (last s)"
  proof (cases s)
    case (Cons c t)
    then show ?thesis by (cases t rule: rev_cases) auto
  qed simp
  finally show ?thesis .
qed

text \<open>
  C36. A machine name is accepted exactly when it is a DNS label: 1 to 63 characters, all
  letters, digits or dashes, the first and the last not a dash.
\<close>

theorem ValidateMachineName_accepts:
  "ValidateMachineName name = None \<longleftrightarrow>
   1 \<le> length name \<and> length name \<le> 63 \<and> list_all (\<lambda>c. alnum c \<or> c = CHR ''-'') name
   \<and> hd name \<noteq> CHR ''-'' \<and> last name \<noteq> CHR ''-''"
proof -
  have dash: "\<not> alnum (CHR ''-'')" by (simp add: alnum_def)
  have ends: "name \<noteq> [] \<Longrightarrow> list_all (\<lambda>c. alnum c \<or> c = CHR ''-'') name \<Longrightarrow>
      (alnum (hd name) \<longleftrightarrow> hd name \<noteq> CHR ''-'') \<and> (alnum (last name) \<longleftrightarrow> last name \<noteq> CHR ''-'')"
    using dash hd_in_set [of name] last_in_set [of name] unfolding list_all_iff by metis
  have "1 \<le> length name \<longleftrightarrow> name \<noteq> []" by (cases name) auto
  then show ?thesis
    using ends by (auto simp: ValidateMachineName_def matches_lang dnsNameRe_lang)
qed

text \<open>An accepted name can stand in a VM name, a host name and a storage path unquoted.\<close>

lemma accepted_name_chars:
  "ValidateMachineName name = None \<Longrightarrow> \<not> is_space c \<Longrightarrow> c \<in> set name \<Longrightarrow> alnum c \<or> c = CHR ''-''"
  by (auto simp: ValidateMachineName_def matches_lang dnsNameRe_lang list_all_iff split: if_splits)

end
