(* ===== verification/Privileges.thy ===== *)
theory Privileges
  imports Sim
begin

text \<open>
  The privileges that the API token needs, and those it lacks: \<open>pkg/validate/privileges.go\<close>.
  The permissions are a map from paths to maps from privileges to flags, each a list of its
  entries in iteration order.
\<close>

record PrivCheck =
  pc_Path :: string
  pc_Priv :: string

definition base_privs :: "string list" where
  "base_privs = [''VM.Clone'', ''VM.Allocate'', ''VM.Audit'', ''VM.PowerMgmt'',
     ''VM.Config.Disk'', ''VM.Config.CPU'', ''VM.Config.Memory'',
     ''VM.Config.Network'', ''VM.Config.Cloudinit'', ''VM.Config.Options'']"

definition RequiredChecks :: "int \<Rightarrow> string \<Rightarrow> string \<Rightarrow> string \<Rightarrow> PrivCheck list" where
  "RequiredChecks pveMajor storage bridge pool =
     (let vmPrivs = base_privs @ (if 9 \<le> pveMajor then [''VM.GuestAgent.Audit''] else [''VM.Monitor'']);
          storagePath = (if storage \<noteq> [] then ''/storage/'' @ storage else ''/storage'')
      in map (\<lambda>p. \<lparr>pc_Path = ''/vms'', pc_Priv = p\<rparr>) vmPrivs
         @ [\<lparr>pc_Path = storagePath, pc_Priv = ''Datastore.AllocateSpace''\<rparr>,
            \<lparr>pc_Path = storagePath, pc_Priv = ''Datastore.Audit''\<rparr>]
         @ (if bridge \<noteq> [] then [\<lparr>pc_Path = ''/sdn/zones/localnetwork/'' @ bridge, pc_Priv = ''SDN.Use''\<rparr>] else [])
         @ (if pool \<noteq> [] then [\<lparr>pc_Path = ''/pool/'' @ pool, pc_Priv = ''Pool.Allocate''\<rparr>] else []))"

text \<open>The set \<open>granted\<close>, built by the two nested \<open>range\<close> loops, and the loop over the checks.\<close>

fun granted_privs :: "permissions \<Rightarrow> string list" where
  "granted_privs [] = []"
| "granted_privs ((path, privs) # perms) = map fst (filter snd privs) @ granted_privs perms"

fun missing_loop :: "string list \<Rightarrow> string list \<Rightarrow> PrivCheck list \<Rightarrow> string list" where
  "missing_loop granted seen [] = []"
| "missing_loop granted seen (c # cs) =
     (if pc_Priv c \<notin> set granted \<and> pc_Priv c \<notin> set seen
      then pc_Priv c # missing_loop granted (pc_Priv c # seen) cs
      else missing_loop granted seen cs)"

definition Missing :: "permissions \<Rightarrow> PrivCheck list \<Rightarrow> string list" where
  "Missing perms checks = missing_loop (granted_privs perms) [] checks"

section \<open>Properties\<close>

lemma set_granted_here: "p \<in> set (map fst (filter snd privs)) \<longleftrightarrow> (p, True) \<in> set privs"
  by (induction privs) auto

lemma set_granted_privs:
  "p \<in> set (granted_privs perms) \<longleftrightarrow> (\<exists>path privs. (path, privs) \<in> set perms \<and> (p, True) \<in> set privs)"
proof (induction perms)
  case (Cons entry perms)
  obtain path privs where "entry = (path, privs)" by (cases entry)
  then have "p \<in> set (granted_privs (entry # perms)) \<longleftrightarrow>
      (p, True) \<in> set privs \<or> p \<in> set (granted_privs perms)"
    by (simp only: granted_privs.simps set_append Un_iff set_granted_here)
  with Cons.IH \<open>entry = (path, privs)\<close> show ?case by auto
qed simp

lemma missing_loop_set:
  "set (missing_loop granted seen cs) = pc_Priv ` set cs - set granted - set seen"
  by (induction granted seen cs rule: missing_loop.induct) auto

lemma missing_loop_distinct: "distinct (missing_loop granted seen cs)"
  by (induction granted seen cs rule: missing_loop.induct) (auto simp: missing_loop_set)

lemma missing_loop_cong:
  "set g = set h \<Longrightarrow> missing_loop g seen cs = missing_loop h seen cs"
  by (induction g seen cs rule: missing_loop.induct) auto

text \<open>
  C37. \<open>Missing\<close> lists each required privilege that is granted at no path at all, once; a
  privilege counts as granted only where its flag is set. The result is empty exactly when
  every required privilege is granted somewhere.
\<close>

theorem Missing_spec:
  "set (Missing perms checks) =
     {pc_Priv c | c. c \<in> set checks
        \<and> \<not> (\<exists>path privs. (path, privs) \<in> set perms \<and> (pc_Priv c, True) \<in> set privs)}
   \<and> distinct (Missing perms checks)
   \<and> (Missing perms checks = [] \<longleftrightarrow>
        pc_Priv ` set checks \<subseteq> {p. \<exists>path privs. (path, privs) \<in> set perms \<and> (p, True) \<in> set privs})"
proof -
  have set: "set (Missing perms checks) = pc_Priv ` set checks - set (granted_privs perms)"
    by (simp add: Missing_def missing_loop_set)
  then have "Missing perms checks = [] \<longleftrightarrow> pc_Priv ` set checks \<subseteq> set (granted_privs perms)"
    by (metis Diff_eq_empty_iff set_empty)
  with set show ?thesis
    by (auto simp: Missing_def missing_loop_distinct set_granted_privs)
qed

text \<open>The order in which Go iterates over the two maps does not matter.\<close>

lemma Missing_order_irrelevant:
  assumes "\<And>p. (\<exists>path privs. (path, privs) \<in> set perms \<and> (p, True) \<in> set privs)
      \<longleftrightarrow> (\<exists>path privs. (path, privs) \<in> set perms' \<and> (p, True) \<in> set privs)"
  shows "Missing perms checks = Missing perms' checks"
  unfolding Missing_def by (rule missing_loop_cong) (use assms in \<open>auto simp: set_granted_privs\<close>)

lemma RequiredChecks_privs:
  "pc_Priv ` set (RequiredChecks pveMajor storage bridge pool) =
     set base_privs \<union> {''Datastore.AllocateSpace'', ''Datastore.Audit''}
     \<union> (if 9 \<le> pveMajor then {''VM.GuestAgent.Audit''} else {''VM.Monitor''})
     \<union> (if bridge = [] then {} else {''SDN.Use''}) \<union> (if pool = [] then {} else {''Pool.Allocate''})"
  by (auto simp: RequiredChecks_def Let_def image_Un image_image)

text \<open>
  The privileges asked for follow the PVE version: the guest-agent privilege is
  \<open>VM.GuestAgent.Audit\<close> from version 9 on and \<open>VM.Monitor\<close> before, never both; the storage
  privileges are always asked for, the bridge and pool privileges only when one is configured.
\<close>

lemma RequiredChecks_spec:
  "pc_Priv ` set (RequiredChecks pveMajor storage bridge pool) =
     set base_privs \<union> {''Datastore.AllocateSpace'', ''Datastore.Audit''}
     \<union> (if 9 \<le> pveMajor then {''VM.GuestAgent.Audit''} else {''VM.Monitor''})
     \<union> (if bridge = [] then {} else {''SDN.Use''}) \<union> (if pool = [] then {} else {''Pool.Allocate''})
   \<and> {''VM.Monitor'', ''VM.GuestAgent.Audit''} \<inter> pc_Priv ` set (RequiredChecks pveMajor storage bridge pool)
     = (if 9 \<le> pveMajor then {''VM.GuestAgent.Audit''} else {''VM.Monitor''})"
proof
  show "{''VM.Monitor'', ''VM.GuestAgent.Audit''} \<inter> pc_Priv ` set (RequiredChecks pveMajor storage bridge pool)
     = (if 9 \<le> pveMajor then {''VM.GuestAgent.Audit''} else {''VM.Monitor''})"
    unfolding RequiredChecks_privs base_privs_def by auto
qed (rule RequiredChecks_privs)

text \<open>The role the documentation prescribes satisfies every check of PVE 9.\<close>

lemma documented_role_suffices:
  "Missing [(''/vms'', map (\<lambda>p. (p, True)) all_privs)] (RequiredChecks 9 storage bridge pool) = []"
proof -
  have "pc_Priv ` set (RequiredChecks 9 storage bridge pool) \<subseteq> set all_privs"
    using RequiredChecks_privs [of 9 storage bridge pool] by (auto simp: all_privs_def base_privs_def)
  moreover have "set (granted_privs [(''/vms'', map (\<lambda>p. (p, True)) all_privs)]) = set all_privs"
    by (simp add: image_image filter_map comp_def)
  ultimately have "set (Missing [(''/vms'', map (\<lambda>p. (p, True)) all_privs)] (RequiredChecks 9 storage bridge pool)) = {}"
    by (simp only: Missing_def missing_loop_set) auto
  then show ?thesis by simp
qed

end
