(* ===== verification/Driver.thy ===== *)
theory Driver
  imports AgentIp Rules Privileges
begin

text \<open>
  The driver object, \<open>pkg/driver/driver.go\<close>: its fields, the API client made from them, and the
  lookup of the machine's VM. The receiver \<open>d *Driver\<close> is a field of the state, so that its
  updates by the operations are part of what they do to the state.
\<close>

section \<open>The driver's state\<close>

definition MachineTag :: string where "MachineTag = ''rancher-pvenode''"
definition driverName :: string where "driverName = ''pvenode''"

text \<open>
  The fields of the embedded \<open>BaseDriver\<close> that the driver's code names come first. Its
  \<open>SSHKeyPath\<close>, which only \<open>BaseDriver.GetSSHKeyPath\<close> reads and writes, is part of the world.
\<close>

record drv =
  MachineName :: string
  StorePath :: string
  SSHUser :: string
  SSHPort :: int
  IPAddress :: string
  URL :: string
  TokenID :: string
  TokenSecret :: string
  InsecureTLS :: bool
  CACert :: string
  TemplateRef :: string
  Storage :: string
  NodeName :: string
  LinkedClone :: bool
  Cores :: int
  MemoryMB :: int
  CPUType :: string
  DiskSizeGB :: int
  Bridge :: string
  VLANTag :: int
  ResourcePool :: string
  AgentTimeout :: int
  VMIDRange :: string
  CIPassword :: string
  Nameserver :: string
  Searchdomain :: string
  OnBoot :: bool
  ExtraTags :: string
  KeepOnFailure :: bool
  VMID :: int
  PVENode :: string

definition NewDriver :: "string \<Rightarrow> string \<Rightarrow> drv" where
  "NewDriver machineName storePath =
     \<lparr>MachineName = machineName, StorePath = storePath, SSHUser = [], SSHPort = 0, IPAddress = [],
      URL = [], TokenID = [], TokenSecret = [], InsecureTLS = False, CACert = [], TemplateRef = [],
      Storage = [], NodeName = [], LinkedClone = False, Cores = 0, MemoryMB = 0, CPUType = [],
      DiskSizeGB = 0, Bridge = [], VLANTag = 0, ResourcePool = [], AgentTimeout = 0, VMIDRange = [],
      CIPassword = [], Nameserver = [], Searchdomain = [], OnBoot = False, ExtraTags = [],
      KeepOnFailure = False, VMID = 0, PVENode = []\<rparr>"

definition DriverName :: "drv \<Rightarrow> string" where
  "DriverName d = driverName"

record 'w dst = "'w st" +
  drv :: drv

section \<open>Operations\<close>

definition client_of :: "'w px \<Rightarrow> drv \<Rightarrow> client go" where
  "client_of P d =
     New P \<lparr>cf_URL = URL d, cf_TokenID = TokenID d, cf_TokenSecret = TokenSecret d,
            cf_InsecureTLS = InsecureTLS d, cf_CACertPEM = CACert d\<rparr>"

text \<open>The row loop of \<open>lookupVM\<close>: it ends at the first QEMU row with the identifier.\<close>

fun lookup_rows ::
  "'w px \<Rightarrow> client \<Rightarrow> int \<Rightarrow> vm_resource list \<Rightarrow> (('w, 'x) st_scheme, vm option) eff" where
  "lookup_rows P c vmid [] = okE None"
| "lookup_rows P c vmid (row # rows) =
     (if row_id row = vmid \<and> res_type row = ''qemu'' then
        bindE (attemptE (GetVM P c (res_node row) vmid)) (\<lambda>res. case res of
            Inl err \<Rightarrow> if IsNotFoundErr P (Some err) then okE None else errE err
          | Inr v \<Rightarrow> okE (Some v))
      else lookup_rows P c vmid rows)"

definition search_vmid :: "'w px \<Rightarrow> client \<Rightarrow> int \<Rightarrow> (('w, 'x) st_scheme, vm option) eff" where
  "search_vmid P c vmid = bindE (ListVMs P c) (lookup_rows P c vmid)"

definition lookup_vm :: "'w px \<Rightarrow> client \<Rightarrow> drv \<Rightarrow> (('w, 'x) st_scheme, vm option) eff" where
  "lookup_vm P c d =
     (if VMID d \<noteq> 0 then
        (if PVENode d \<noteq> [] then
           bindE (attemptE (GetVM P c (PVENode d) (VMID d))) (\<lambda>res. case res of
               Inr v \<Rightarrow> okE (Some v)
             | Inl err \<Rightarrow>
                 if \<not> IsNotFoundErr P (Some err) then errE err else search_vmid P c (VMID d))
         else search_vmid P c (VMID d))
      else FindVMByNameAndTag P c (MachineName d) MachineTag)"

definition lookupVM :: "'w px \<Rightarrow> client \<Rightarrow> (('w, 'x) dst_scheme, vm option) eff" where
  "lookupVM P c = bindE (getsE drv) (lookup_vm P c)"

definition the_client :: "'w px \<Rightarrow> (('w, 'x) dst_scheme, client) eff" where
  "the_client P = bindE (getsE drv) (\<lambda>d. liftE (client_of P d))"

section \<open>Frame, trace and totality\<close>

lemma keeps_emits_modify_drv [keepsI]: "keeps (emits A) (modifyE (drv_update f))"
  by (simp add: keeps_def emits_def)

lemma same_ext_drv: "same_ext s t \<Longrightarrow> drv t = drv s"
  for s t :: "('w, 'x) dst_scheme"
  by (cases s; cases t) (simp add: same_ext_def)

lemma keeps_lookup_rows:
  "(\<And>n. A (ENode n)) \<Longrightarrow> (\<And>n. A (EGetVM n vmid)) \<Longrightarrow> keeps (emits A) (lookup_rows P c vmid rows)"
  "keeps same_ext (lookup_rows P c vmid rows)"
  by (induction rows) (auto intro!: keepsI)

lemma keeps_lookup_vm [keepsI]:
  "A EResources \<Longrightarrow> (\<And>n. A (ENode n)) \<Longrightarrow> (\<And>n i. A (EGetVM n i)) \<Longrightarrow> keeps (emits A) (lookup_vm P c d)"
  "keeps same_ext (lookup_vm P c d)"
  unfolding lookup_vm_def search_vmid_def by (intro keepsI keeps_lookup_rows | simp)+

lemma keeps_lookupVM [keepsI]:
  "A EResources \<Longrightarrow> (\<And>n. A (ENode n)) \<Longrightarrow> (\<And>n i. A (EGetVM n i)) \<Longrightarrow> keeps (emits A) (lookupVM P c)"
  "keeps same_ext (lookupVM P c)"
  unfolding lookupVM_def by (intro keepsI | simp)+

lemma keeps_the_client [keepsI]:
  "keeps (emits A) (the_client P)" "keeps same_ext (the_client P)"
  unfolding the_client_def by (intro keepsI)+

lemma proper_lookup_rows: "proper (lookup_rows P c vmid rows)"
  by (induction rows) (auto intro!: properI)

lemma proper_lookup_vm [properI]: "proper (lookup_vm P c d)"
  unfolding lookup_vm_def search_vmid_def by (intro properI proper_lookup_rows)

lemma proper_lookupVM [properI]: "proper (lookupVM P c)"
  unfolding lookupVM_def by (intro properI)

lemma client_of_cases:
  obtains (ok) c where "client_of P d = Ok c" | (err) e where "client_of P d = Err e"
  by (cases "CACert d \<noteq> [] \<and> \<not> rt_append_certs P (CACert d)") (simp_all add: client_of_def New_def Let_def)

lemma proper_the_client [properI]: "proper (the_client P)"
  unfolding proper_def the_client_def
proof
  fix s
  show "\<exists>r s'. bindE (getsE drv) (\<lambda>d. liftE (client_of P d)) s = Some (r, s') \<and> (\<forall>p. r \<noteq> Panic p)"
    by (cases rule: client_of_cases [of P "drv s"]) (simp_all add: bindE_def getsE_def liftE_def)
qed

lemma the_client_iff [simp]: "the_client P s = Some (r, s') \<longleftrightarrow> client_of P (drv s) = r \<and> s' = s"
  by (simp add: the_client_def bindE_def getsE_def liftE_def eq_commute)

lemma lookupVM_eq: "lookupVM P c s = lookup_vm P c (drv s) s"
  by (simp add: lookupVM_def bindE_def getsE_def)

section \<open>Properties\<close>

text \<open>
  Without a persisted identifier the lookup is the search by name and ownership tag, so it
  provides the contract of \<open>owned_search\<close> in theory \<open>Resources\<close>.
\<close>

lemma lookup_vm_by_tag: "VMID d = 0 \<Longrightarrow> lookup_vm P c d = FindVMByNameAndTag P c (MachineName d) MachineTag"
  by (simp add: lookup_vm_def)

lemma lookup_rows_Some:
  "lookup_rows P c vmid rows s = Some (Ok (Some v), s') \<Longrightarrow>
   \<exists>row \<in> set rows. row_id row = vmid \<and> res_type row = ''qemu''
     \<and> (\<exists>u. GetVM P c (res_node row) vmid u = Some (Ok v, s'))"
  by (induction rows) (auto elim!: bindE_OkE attemptE_OkE split: if_splits)

lemma lookupVM_result:
  fixes s :: "('w, 'x) dst_scheme"
  shows "\<exists>r s'. lookupVM P c s = Some (r, s') \<and> (\<forall>p. r \<noteq> Panic p) \<and> emits reading s s' \<and> drv s' = drv s
    \<and> (case r of
         Ok (Some v) \<Rightarrow>
           if VMID (drv s) \<noteq> 0
           then \<exists>node (u :: ('w, 'x) dst_scheme). GetVM P c node (VMID (drv s)) u = Some (Ok v, s')
           else px_has_tag P v MachineTag \<and> (\<exists>row (u :: ('w, 'x) dst_scheme). res_name row = MachineName (drv s)
                  \<and> GetVM P c (res_node row) (row_id row) u = Some (Ok v, s'))
       | _ \<Rightarrow> True)"
proof -
  obtain r s' where run: "lookupVM P c s = Some (r, s')" and np: "\<forall>p. r \<noteq> Panic p"
    using proper_lookupVM unfolding proper_def by blast
  have "keeps (emits reading) (lookupVM P c :: (('w, 'x) dst_scheme, vm option) eff)" by (intro keepsI) simp_all
  then have em: "emits reading s s'" using run by (rule keepsD)
  have fr: "drv s' = drv s" by (rule same_ext_drv) (rule keepsD [OF keeps_lookupVM(2) run])
  show ?thesis
  proof (cases "\<exists>v. r = Ok (Some v)")
    case True
    then obtain v where r: "r = Ok (Some v)" by blast
    show ?thesis
    proof (cases "VMID (drv s) = 0")
      case True
      with run r have "FindVMByNameAndTag P c (MachineName (drv s)) MachineTag s = Some (Ok (Some v), s')"
        by (simp add: lookupVM_eq lookup_vm_by_tag)
      then have "px_has_tag P v MachineTag \<and> (\<exists>row u. res_name row = MachineName (drv s)
          \<and> GetVM P c (res_node row) (row_id row) u = Some (Ok v, s'))"
        unfolding FindVMByNameAndTag_def by (auto elim!: bindE_OkE dest!: find_rows_Some)
      with True run r em fr show ?thesis by auto
    next
      case False
      with run r have "\<exists>node u. GetVM P c node (VMID (drv s)) u = Some (Ok v, s')"
        unfolding lookupVM_eq lookup_vm_def search_vmid_def
        by (auto elim!: bindE_OkE attemptE_OkE dest!: lookup_rows_Some split: if_splits) blast+
      with False run r em fr show ?thesis by auto
    qed
  next
    case False
    with run np em fr show ?thesis by (intro exI [of _ r] exI [of _ s']) (auto split: go.splits option.splits)
  qed
qed

text \<open>
  What the lookup is to do, case by case. \<open>says_gone\<close>: an error by which PVE (or the library)
  says that a VM does not exist. \<open>searched\<close>: the search of the cluster listing for the first QEMU
  row with the identifier. \<open>looked_up\<close>: the persisted node first, then that search; by name and
  ownership tag when no identifier is persisted. Exactly one case applies to a state.
\<close>

definition says_gone :: "'w px \<Rightarrow> goerr \<Rightarrow> bool" where
  "says_gone P e \<longleftrightarrow>
     px_is_not_found P e \<or> sublist ''does not exist'' (err_text e) \<or> sublist ''no such'' (err_text e)"

inductive searched ::
  "'w px \<Rightarrow> client \<Rightarrow> int \<Rightarrow> ('w, 'x) st_scheme \<Rightarrow> vm option go \<Rightarrow> ('w, 'x) st_scheme \<Rightarrow> bool"
  for P c i s where
  not_listed: "ListVMs P c s = Some (Err e, s') \<Longrightarrow> searched P c i s (Err e) s'"
| no_row: "ListVMs P c s = Some (Ok rows, s') \<Longrightarrow>
     find (\<lambda>row. row_id row = i \<and> res_type row = ''qemu'') rows = None \<Longrightarrow>
     searched P c i s (Ok None) s'"
| row_read: "ListVMs P c s = Some (Ok rows, t) \<Longrightarrow>
     find (\<lambda>row. row_id row = i \<and> res_type row = ''qemu'') rows = Some row \<Longrightarrow>
     GetVM P c (res_node row) i t = Some (Ok v, s') \<Longrightarrow>
     searched P c i s (Ok (Some v)) s'"
| row_gone: "ListVMs P c s = Some (Ok rows, t) \<Longrightarrow>
     find (\<lambda>row. row_id row = i \<and> res_type row = ''qemu'') rows = Some row \<Longrightarrow>
     GetVM P c (res_node row) i t = Some (Err e, s') \<Longrightarrow> says_gone P e \<Longrightarrow>
     searched P c i s (Ok None) s'"
| row_unread: "ListVMs P c s = Some (Ok rows, t) \<Longrightarrow>
     find (\<lambda>row. row_id row = i \<and> res_type row = ''qemu'') rows = Some row \<Longrightarrow>
     GetVM P c (res_node row) i t = Some (Err e, s') \<Longrightarrow> \<not> says_gone P e \<Longrightarrow>
     searched P c i s (Err e) s'"

inductive looked_up ::
  "'w px \<Rightarrow> client \<Rightarrow> drv \<Rightarrow> ('w, 'x) st_scheme \<Rightarrow> vm option go \<Rightarrow> ('w, 'x) st_scheme \<Rightarrow> bool"
  for P c d s where
  persisted: "VMID d \<noteq> 0 \<Longrightarrow> PVENode d \<noteq> [] \<Longrightarrow>
     GetVM P c (PVENode d) (VMID d) s = Some (Ok v, s') \<Longrightarrow> looked_up P c d s (Ok (Some v)) s'"
| unread: "VMID d \<noteq> 0 \<Longrightarrow> PVENode d \<noteq> [] \<Longrightarrow>
     GetVM P c (PVENode d) (VMID d) s = Some (Err e, s') \<Longrightarrow> \<not> says_gone P e \<Longrightarrow>
     looked_up P c d s (Err e) s'"
| moved: "VMID d \<noteq> 0 \<Longrightarrow> PVENode d \<noteq> [] \<Longrightarrow>
     GetVM P c (PVENode d) (VMID d) s = Some (Err e, t) \<Longrightarrow> says_gone P e \<Longrightarrow>
     searched P c (VMID d) t r s' \<Longrightarrow> looked_up P c d s r s'"
| no_node: "VMID d \<noteq> 0 \<Longrightarrow> PVENode d = [] \<Longrightarrow> searched P c (VMID d) s r s' \<Longrightarrow>
     looked_up P c d s r s'"
| by_tag: "VMID d = 0 \<Longrightarrow>
     FindVMByNameAndTag P c (MachineName d) ''rancher-pvenode'' s = Some (r, s') \<Longrightarrow>
     looked_up P c d s r s'"

lemma IsNotFoundErr_says_gone: "IsNotFoundErr P (Some e) \<longleftrightarrow> says_gone P e"
  by (simp add: IsNotFoundErr_def says_gone_def contains_iff_sublist)

lemma lookup_rows_find:
  "lookup_rows P c i rows =
     (case find (\<lambda>row. row_id row = i \<and> res_type row = ''qemu'') rows of
        None \<Rightarrow> okE None
      | Some row \<Rightarrow> bindE (attemptE (GetVM P c (res_node row) i)) (\<lambda>res. case res of
            Inl err \<Rightarrow> if IsNotFoundErr P (Some err) then okE None else errE err
          | Inr v \<Rightarrow> okE (Some v)))"
  by (induction rows) simp_all

lemma search_vmid_searched:
  assumes run: "search_vmid P c i s = Some (r, s')" and np: "\<forall>p. r \<noteq> Panic p"
  shows "searched P c i s r s'"
  using run unfolding search_vmid_def
proof (cases rule: bindE_SomeE)
  case (ok rows t)
  show ?thesis
  proof (cases "find (\<lambda>row. row_id row = i \<and> res_type row = ''qemu'') rows")
    case None
    with ok show ?thesis by (auto simp: lookup_rows_find intro: searched.no_row)
  next
    case (Some row)
    with ok np show ?thesis
      by (auto simp: lookup_rows_find IsNotFoundErr_says_gone elim!: bindE_SomeE attemptE_SomeE split: if_splits
          intro: searched.row_read [OF ok(1) Some] searched.row_gone [OF ok(1) Some]
            searched.row_unread [OF ok(1) Some])
  qed
qed (use np in \<open>auto intro: searched.not_listed\<close>)

lemma lookup_vm_looked_up:
  assumes run: "lookup_vm P c d s = Some (r, s')" and np: "\<forall>p. r \<noteq> Panic p"
  shows "looked_up P c d s r s'"
proof (cases "VMID d = 0")
  case True
  with run show ?thesis by (auto simp: lookup_vm_by_tag MachineTag_def intro: looked_up.by_tag)
next
  case id: False
  show ?thesis
  proof (cases "PVENode d = []")
    case True
    with run id np show ?thesis
      by (auto simp: lookup_vm_def intro: looked_up.no_node search_vmid_searched)
  next
    case False
    show ?thesis
    proof (cases rule: properE [OF proper_GetVM [of P c "PVENode d" "VMID d"], of s, case_names ok err])
      case (ok v t)
      with run id False have "r = Ok (Some v)" "s' = t"
        by (simp_all add: lookup_vm_def bindE_def attemptE_def okE_def)
      with looked_up.persisted [OF id False ok] show ?thesis by simp
    next
      case (err e t)
      show ?thesis
      proof (cases "says_gone P e")
        case True
        with run id False err have "search_vmid P c (VMID d) t = Some (r, s')"
          by (simp add: lookup_vm_def bindE_def attemptE_def IsNotFoundErr_says_gone)
        from looked_up.moved [OF id False err True search_vmid_searched [OF this np]] show ?thesis .
      next
        case no: False
        with run id False err have "r = Err e" "s' = t"
          by (simp_all add: lookup_vm_def bindE_def attemptE_def errE_def IsNotFoundErr_says_gone)
        with looked_up.unread [OF id False err no] show ?thesis by simp
      qed
    qed
  qed
qed

text \<open>Where a lookup without a VM comes from: a whole listing, or the read that failed.\<close>

lemma find_rows_Err:
  fixes s s' :: "('w, 'x) st_scheme"
  shows "find_rows P c name tag rows s = Some (Err e, s') \<Longrightarrow>
   \<exists>node i (t :: ('w, 'x) st_scheme). GetVM P c node i t = Some (Err e, s') \<and> \<not> says_gone P e"
proof (induction rows arbitrary: s)
  case (Cons row rows)
  show ?case
  proof (cases "res_type row \<noteq> ''qemu'' \<or> res_template row = 1 \<or> res_name row \<noteq> name")
    case True
    with Cons show ?thesis by auto
  next
    case False
    with Cons.prems Cons.IH show ?thesis
      by (fastforce simp: IsNotFoundErr_says_gone elim!: bindE_SomeE attemptE_SomeE split: if_splits sum.splits)
  qed
qed simp

lemma looked_up_nothing:
  fixes s s' :: "('w, 'x) st_scheme"
  assumes "looked_up P c d s r s'"
  shows "case r of
      Ok (Some v) \<Rightarrow> True
    | Ok None \<Rightarrow> \<exists>rows (t :: ('w, 'x) st_scheme) u. ListVMs P c t = Some (Ok rows, u)
    | Err e \<Rightarrow> (\<exists>t :: ('w, 'x) st_scheme. ListVMs P c t = Some (Err e, s'))
        \<or> (\<exists>node i (t :: ('w, 'x) st_scheme). GetVM P c node i t = Some (Err e, s') \<and> \<not> says_gone P e)
    | Panic p \<Rightarrow> True"
proof -
  have search: "case r of
      Ok (Some v) \<Rightarrow> True
    | Ok None \<Rightarrow> \<exists>rows (t :: ('w, 'x) st_scheme) u. ListVMs P c t = Some (Ok rows, u)
    | Err e \<Rightarrow> (\<exists>t :: ('w, 'x) st_scheme. ListVMs P c t = Some (Err e, s'))
        \<or> (\<exists>node i (t :: ('w, 'x) st_scheme). GetVM P c node i t = Some (Err e, s') \<and> \<not> says_gone P e)
    | Panic p \<Rightarrow> True" if "searched P c i t r s'" for i t
    using that by cases auto
  from assms show ?thesis
  proof cases
    case by_tag
    then have "bindE (ListVMs P c) (find_rows P c (MachineName d) ''rancher-pvenode'') s = Some (r, s')"
      by (simp add: FindVMByNameAndTag_def)
    then show ?thesis
    proof (cases rule: bindE_SomeE)
      case (ok rows t)
      show ?thesis
      proof (cases r)
        case (Err e)
        with find_rows_Err [of P c "MachineName d" "''rancher-pvenode''" rows t e s'] ok(2)
        show ?thesis by simp
      qed (use ok(1) in \<open>auto split: option.splits\<close>)
    qed auto
  qed (use search in auto)
qed

text \<open>
  C20. \<open>lookupVM\<close> always returns, only reads, and leaves the driver's fields alone; and its
  result is exactly the one that \<open>looked_up\<close> gives: with a persisted identifier the VM read on
  the persisted node, or, if PVE says there is none, the VM of the first QEMU row of the cluster
  listing with that identifier; no VM only if no such row is listed or the VM of the row is gone;
  every other failed read is reported as an error. A VM that is found was read under the
  persisted identifier, or it carries the ownership tag and was listed under the machine's name.
\<close>

theorem lookupVM_sound:
  fixes s :: "('w, 'x) dst_scheme"
  shows "\<exists>r s'. lookupVM P c s = Some (r, s') \<and> (\<forall>p. r \<noteq> Panic p) \<and> emits reading s s' \<and> drv s' = drv s
    \<and> looked_up P c (drv s) s r s'
    \<and> (case r of
         Ok (Some v) \<Rightarrow>
           if VMID (drv s) \<noteq> 0
           then \<exists>node (u :: ('w, 'x) dst_scheme). GetVM P c node (VMID (drv s)) u = Some (Ok v, s')
           else px_has_tag P v MachineTag \<and> (\<exists>row (u :: ('w, 'x) dst_scheme). res_name row = MachineName (drv s)
                  \<and> GetVM P c (res_node row) (row_id row) u = Some (Ok v, s'))
       | Ok None \<Rightarrow> \<exists>rows (t :: ('w, 'x) dst_scheme) u. ListVMs P c t = Some (Ok rows, u)
       | Err e \<Rightarrow> (\<exists>t :: ('w, 'x) dst_scheme. ListVMs P c t = Some (Err e, s'))
           \<or> (\<exists>node i (t :: ('w, 'x) dst_scheme). GetVM P c node i t = Some (Err e, s') \<and> \<not> says_gone P e)
       | Panic p \<Rightarrow> False)"
proof -
  obtain r s' where run: "lookupVM P c s = Some (r, s')" "\<forall>p. r \<noteq> Panic p"
    and rest: "emits reading s s'" "drv s' = drv s"
    "case r of
         Ok (Some v) \<Rightarrow>
           if VMID (drv s) \<noteq> 0
           then \<exists>node (u :: ('w, 'x) dst_scheme). GetVM P c node (VMID (drv s)) u = Some (Ok v, s')
           else px_has_tag P v MachineTag \<and> (\<exists>row (u :: ('w, 'x) dst_scheme). res_name row = MachineName (drv s)
                  \<and> GetVM P c (res_node row) (row_id row) u = Some (Ok v, s'))
       | _ \<Rightarrow> True"
    using lookupVM_result [of P c s] by blast
  from lookup_vm_looked_up [OF run(1) [unfolded lookupVM_eq] run(2)]
  have up: "looked_up P c (drv s) s r s'" .
  from run up rest looked_up_nothing [OF up] show ?thesis
    by (intro exI [of _ r] exI [of _ s']) (auto split: go.splits option.splits)
qed

end
