(* ===== verification/Flags.thy ===== *)
theory Flags
  imports Driver
begin

text \<open>
  The driver's options, \<open>pkg/driver/flags.go\<close>: their declaration, and the validation that
  turns them into the driver's fields.
\<close>

section \<open>Options\<close>

definition flagURL :: string where "flagURL = ''pvenode-url''"
definition flagTokenID :: string where "flagTokenID = ''pvenode-token-id''"
definition flagTokenSecret :: string where "flagTokenSecret = ''pvenode-token-secret''"
definition flagInsecureTLS :: string where "flagInsecureTLS = ''pvenode-insecure-tls''"
definition flagCACert :: string where "flagCACert = ''pvenode-ca-cert''"
definition flagNode :: string where "flagNode = ''pvenode-node''"
definition flagTemplate :: string where "flagTemplate = ''pvenode-template''"
definition flagStorage :: string where "flagStorage = ''pvenode-storage''"
definition flagLinkedClone :: string where "flagLinkedClone = ''pvenode-linked-clone''"
definition flagCores :: string where "flagCores = ''pvenode-cores''"
definition flagMemory :: string where "flagMemory = ''pvenode-memory''"
definition flagCPUType :: string where "flagCPUType = ''pvenode-cpu-type''"
definition flagDiskSize :: string where "flagDiskSize = ''pvenode-disk-size''"
definition flagBridge :: string where "flagBridge = ''pvenode-bridge''"
definition flagVLAN :: string where "flagVLAN = ''pvenode-vlan''"
definition flagPool :: string where "flagPool = ''pvenode-pool''"
definition flagSSHUser :: string where "flagSSHUser = ''pvenode-ssh-user''"
definition flagAgentTimeout :: string where "flagAgentTimeout = ''pvenode-agent-timeout''"
definition flagVMIDRange :: string where "flagVMIDRange = ''pvenode-vmid-range''"
definition flagCIPassword :: string where "flagCIPassword = ''pvenode-cipassword''"
definition flagNameserver :: string where "flagNameserver = ''pvenode-nameserver''"
definition flagSearchdomain :: string where "flagSearchdomain = ''pvenode-searchdomain''"
definition flagOnBoot :: string where "flagOnBoot = ''pvenode-onboot''"
definition flagTags :: string where "flagTags = ''pvenode-tags''"
definition flagKeepOnFailure :: string where "flagKeepOnFailure = ''pvenode-keep-on-failure''"

lemmas flag_names = flagURL_def flagTokenID_def flagTokenSecret_def flagInsecureTLS_def flagCACert_def
  flagNode_def flagTemplate_def flagStorage_def flagLinkedClone_def flagCores_def flagMemory_def
  flagCPUType_def flagDiskSize_def flagBridge_def flagVLAN_def flagPool_def flagSSHUser_def
  flagAgentTimeout_def flagVMIDRange_def flagCIPassword_def flagNameserver_def flagSearchdomain_def
  flagOnBoot_def flagTags_def flagKeepOnFailure_def

definition defaultCores :: int where "defaultCores = 2"
definition defaultMemoryMB :: int where "defaultMemoryMB = 4096"
definition defaultSSHUser :: string where "defaultSSHUser = ''rancher''"
definition defaultAgentTimeout :: int where "defaultAgentTimeout = 300"
definition defaultVMIDRange :: string where "defaultVMIDRange = ''10000-19999''"

definition envVar :: "string \<Rightarrow> string" where
  "envVar flag = to_upper (replace_char (CHR ''-'') (CHR ''_'') flag)"

text \<open>
  \<open>mcnflag.Flag\<close>: name, environment variable, usage, default value (\<open>Value\<close> is the zero value
  where the literal leaves it out).
\<close>

datatype flag =
    StringFlag string string string string
  | IntFlag string string string int
  | BoolFlag string string string

definition string_flag :: "string \<Rightarrow> string \<Rightarrow> string \<Rightarrow> flag" where
  "string_flag name usage val = StringFlag name (envVar name) usage val"

definition int_flag :: "string \<Rightarrow> string \<Rightarrow> int \<Rightarrow> flag" where
  "int_flag name usage val = IntFlag name (envVar name) usage val"

definition bool_flag :: "string \<Rightarrow> string \<Rightarrow> flag" where
  "bool_flag name usage = BoolFlag name (envVar name) usage"

definition GetCreateFlags :: "flag list" where
  "GetCreateFlags = [
     string_flag flagURL ''Proxmox VE API URL, e.g. https://pve.example.com:8006'' [],
     string_flag flagTokenID ''PVE API token ID (user@realm!tokenname)'' [],
     string_flag flagTokenSecret ''PVE API token secret'' [],
     bool_flag flagInsecureTLS ''Skip TLS certificate verification'',
     string_flag flagCACert ''PEM CA certificate to trust for the PVE API (content, not a path)'' [],
     string_flag flagNode ''Target PVE node name (default: the template's node)'' [],
     string_flag flagTemplate ''Template to clone: VM name or numeric VMID (required)'' [],
     string_flag flagStorage ''Target storage for full clones (default: same as template)'' [],
     bool_flag flagLinkedClone ''Use a linked clone instead of a full clone'',
     int_flag flagCores ''Number of CPU cores'' defaultCores,
     int_flag flagMemory ''Memory in MB'' defaultMemoryMB,
     string_flag flagCPUType ''CPU type, e.g. host (default: PVE default)'' [],
     int_flag flagDiskSize ''Boot disk size in GB (grow-only; 0 = keep template size)'' 0,
     string_flag flagBridge ''Network bridge for net0, e.g. vmbr0 (default: keep template's)'' [],
     int_flag flagVLAN ''VLAN tag for net0 (0 = none)'' 0,
     string_flag flagPool ''PVE resource pool for created VMs'' [],
     string_flag flagSSHUser ''Cloud-init user for SSH provisioning'' defaultSSHUser,
     int_flag flagAgentTimeout ''Seconds to wait for the guest agent to report an IP'' defaultAgentTimeout,
     string_flag flagVMIDRange ''VMID allocation range lo-hi'' defaultVMIDRange,
     string_flag flagCIPassword ''Optional cloud-init password (console rescue)'' [],
     string_flag flagNameserver ''Optional DNS server override via cloud-init'' [],
     string_flag flagSearchdomain ''Optional DNS search domain via cloud-init'' [],
     bool_flag flagOnBoot ''Start the VM automatically when the PVE host boots'',
     string_flag flagTags ''Extra PVE tags, comma-separated'' [],
     bool_flag flagKeepOnFailure ''Keep the VM when Create fails (standalone CLI debugging only)'']"

section \<open>parseVMIDRange\<close>

definition parseVMIDRange :: "string \<Rightarrow> (int \<times> int) go" where
  "parseVMIDRange s =
     (case split_n2 (CHR ''-'') s of
        [p0, p1] \<Rightarrow>
          (case atoi (trim_space p0) of
             (lo, Some e) \<Rightarrow> Err (wrapw (''invalid VMID range '' @ quote s @ '': '') [] (num_goerr (trim_space p0) e))
           | (lo, None) \<Rightarrow>
               (case atoi (trim_space p1) of
                  (hi, Some e) \<Rightarrow> Err (wrapw (''invalid VMID range '' @ quote s @ '': '') [] (num_goerr (trim_space p1) e))
                | (hi, None) \<Rightarrow>
                    if lo < 100 \<or> hi > 999999999 \<or> lo \<ge> hi
                    then Err (ErrorString (''invalid VMID range '' @ itoa lo @ ''-'' @ itoa hi
                           @ '': need 100 <= lo < hi <= 999999999''))
                    else Ok (lo, hi)))
      | _ \<Rightarrow> Err (ErrorString (''invalid VMID range '' @ quote s @ '', expected lo-hi (e.g. 10000-19999)'')))"

section \<open>SetConfigFromFlags\<close>

text \<open>\<open>drivers.DriverOptions\<close>: the typed values of the options.\<close>

record options =
  op_String :: "string \<Rightarrow> string"
  op_Int :: "string \<Rightarrow> int"
  op_Bool :: "string \<Rightarrow> bool"

definition read_options :: "options \<Rightarrow> drv \<Rightarrow> drv" where
  "read_options opts d = d\<lparr>
     URL := op_String opts flagURL,
     TokenID := op_String opts flagTokenID,
     TokenSecret := op_String opts flagTokenSecret,
     InsecureTLS := op_Bool opts flagInsecureTLS,
     CACert := op_String opts flagCACert,
     NodeName := op_String opts flagNode,
     TemplateRef := op_String opts flagTemplate,
     Storage := op_String opts flagStorage,
     LinkedClone := op_Bool opts flagLinkedClone,
     Cores := op_Int opts flagCores,
     MemoryMB := op_Int opts flagMemory,
     CPUType := op_String opts flagCPUType,
     DiskSizeGB := op_Int opts flagDiskSize,
     Bridge := op_String opts flagBridge,
     VLANTag := op_Int opts flagVLAN,
     ResourcePool := op_String opts flagPool,
     SSHUser := op_String opts flagSSHUser,
     SSHPort := 22,
     AgentTimeout := op_Int opts flagAgentTimeout,
     VMIDRange := op_String opts flagVMIDRange,
     CIPassword := op_String opts flagCIPassword,
     Nameserver := op_String opts flagNameserver,
     Searchdomain := op_String opts flagSearchdomain,
     OnBoot := op_Bool opts flagOnBoot,
     ExtraTags := op_String opts flagTags,
     KeepOnFailure := op_Bool opts flagKeepOnFailure\<rparr>"

definition set_defaults :: "drv \<Rightarrow> drv" where
  "set_defaults d = d\<lparr>
     Cores := (if Cores d = 0 then defaultCores else Cores d),
     MemoryMB := (if MemoryMB d = 0 then defaultMemoryMB else MemoryMB d),
     SSHUser := (if SSHUser d = [] then defaultSSHUser else SSHUser d),
     AgentTimeout := (if AgentTimeout d = 0 then defaultAgentTimeout else AgentTimeout d),
     VMIDRange := (if VMIDRange d = [] then defaultVMIDRange else VMIDRange d)\<rparr>"

text \<open>
  The loop over the map of required options: \<open>ord\<close> is the order in which Go iterates over it.
\<close>

definition required_options :: "drv \<Rightarrow> (string \<times> string) list" where
  "required_options d = [(flagURL, URL d), (flagTokenID, TokenID d), (flagTokenSecret, TokenSecret d),
     (flagTemplate, TemplateRef d)]"

fun check_required :: "(string \<times> string) list \<Rightarrow> goerr option" where
  "check_required [] = None"
| "check_required ((flag, val) # entries) =
     (if val = [] then Some (ErrorString (''required option --'' @ flag @ '' is not set''))
      else check_required entries)"

definition check_config :: "((string \<times> string) list \<Rightarrow> (string \<times> string) list) \<Rightarrow> drv \<Rightarrow> goerr option" where
  "check_config ord d =
     (case check_required (ord (required_options d)) of
        Some err \<Rightarrow> Some err
      | None \<Rightarrow>
          (case parseVMIDRange (VMIDRange d) of
             Err err \<Rightarrow> Some (wrapw (''--'' @ flagVMIDRange @ '': '') [] err)
           | _ \<Rightarrow>
               if VLANTag d < 0 \<or> VLANTag d > 4094
               then Some (ErrorString (''--'' @ flagVLAN @ '' must be between 0 and 4094, got '' @ itoa (VLANTag d)))
               else if VLANTag d > 0 \<and> Bridge d = []
               then Some (ErrorString (''--'' @ flagVLAN @ '' requires --'' @ flagBridge
                      @ '' (the VLAN tag is set on net0, which must name a bridge)''))
               else if DiskSizeGB d < 0
               then Some (ErrorString (''--'' @ flagDiskSize @ '' must be >= 0, got '' @ itoa (DiskSizeGB d)))
               else None))"

definition SetConfigFromFlags ::
  "((string \<times> string) list \<Rightarrow> (string \<times> string) list) \<Rightarrow> options \<Rightarrow> drv \<Rightarrow> goerr option \<times> drv" where
  "SetConfigFromFlags ord opts d =
     (let d' = set_defaults (read_options opts d) in (check_config ord d', d'))"

section \<open>Properties\<close>

lemma split_n2_absent: "sep \<notin> set s \<Longrightarrow> split_n2 sep s = [s]"
  by (simp add: split_n2_def cut_absent)

lemma parseVMIDRange_Ok:
  assumes "parseVMIDRange s = Ok (lo, hi)"
  obtains p0 p1 where "s = p0 @ CHR ''-'' # p1" "CHR ''-'' \<notin> set p0" "atoi (trim_space p0) = (lo, None)"
    "atoi (trim_space p1) = (hi, None)" "vmid_range_ok lo hi"
proof -
  obtain b a found where c: "cut (CHR ''-'') s = (b, a, found)" by (cases "cut (CHR ''-'') s")
  with assms have found by (cases found) (auto simp: parseVMIDRange_def split_n2_def)
  with c cut_found [of "CHR ''-''" s b a] have s: "s = b @ CHR ''-'' # a" "CHR ''-'' \<notin> set b" by auto
  from assms c \<open>found\<close> have "atoi (trim_space b) = (lo, None) \<and> atoi (trim_space a) = (hi, None)
      \<and> vmid_range_ok lo hi"
    by (auto simp: parseVMIDRange_def split_n2_def vmid_range_ok_def split: prod.splits option.splits if_splits)
  with s show ?thesis by (intro that) auto
qed

lemma trim_space_itoa: "trim_space (itoa n) = itoa n"
proof (cases "n < 0")
  case True
  then have "list_all (\<lambda>c. \<not> is_space c) (itoa n)"
    using dec_digits_chars [of "- n"] by (auto simp: itoa_def list_all_iff is_space_def)
  then show ?thesis by (rule trim_space_id)
qed (simp add: itoa_def trim_space_dec_digits)

text \<open>
  C26. Only ranges with 100 <= lo < hi <= 999999999 are accepted, and every such range is: the
  text \<open>lo-hi\<close> that prints it is parsed back to it.
\<close>

theorem parseVMIDRange_roundtrip:
  "(\<exists>s. parseVMIDRange s = Ok (lo, hi)) = vmid_range_ok lo hi
   \<and> (parseVMIDRange (itoa lo @ ''-'' @ itoa hi) = Ok (lo, hi)) = vmid_range_ok lo hi"
proof -
  have print: "parseVMIDRange (itoa lo @ ''-'' @ itoa hi) = Ok (lo, hi)" if ok: "vmid_range_ok lo hi"
  proof -
    have lo: "atoi (itoa lo) = (lo, None)" and hi: "atoi (itoa hi) = (hi, None)"
      using ok by (auto intro!: atoi_itoa simp: vmid_range_ok_def min_int64_def max_int64_def)
    have "CHR ''-'' \<notin> set (itoa lo)"
      using ok dec_digits_chars [of lo "CHR ''-''"] by (auto simp: itoa_def vmid_range_ok_def)
    then show ?thesis
      using ok by (simp add: parseVMIDRange_def split_n2_def cut_append trim_space_itoa lo hi vmid_range_ok_def)
  qed
  moreover have "vmid_range_ok lo hi" if "parseVMIDRange s = Ok (lo, hi)" for s
    using that by (rule parseVMIDRange_Ok)
  ultimately show ?thesis by blast
qed


lemma parseVMIDRange_no_panic: "parseVMIDRange s \<noteq> Panic p"
  by (auto simp: parseVMIDRange_def split: list.splits prod.splits option.splits)

text \<open>What the driver's fields satisfy once the options have been accepted.\<close>

definition config_valid :: "drv \<Rightarrow> bool" where
  "config_valid d \<longleftrightarrow>
     URL d \<noteq> [] \<and> TokenID d \<noteq> [] \<and> TokenSecret d \<noteq> [] \<and> TemplateRef d \<noteq> []
     \<and> (\<exists>lo hi. parseVMIDRange (VMIDRange d) = Ok (lo, hi))
     \<and> 0 \<le> VLANTag d \<and> VLANTag d \<le> 4094 \<and> (VLANTag d = 0 \<or> Bridge d \<noteq> []) \<and> 0 \<le> DiskSizeGB d"

text \<open>Go iterates over a map in some order: \<open>ord\<close> rearranges the entries.\<close>

definition iteration_order :: "('a list \<Rightarrow> 'a list) \<Rightarrow> bool" where
  "iteration_order ord \<longleftrightarrow> (\<forall>xs. set (ord xs) = set xs)"

lemma check_required_None: "check_required entries = None \<longleftrightarrow> (\<forall>(flag, val) \<in> set entries. val \<noteq> [])"
  by (induction entries rule: check_required.induct) auto

lemma check_config_None:
  assumes "iteration_order ord"
  shows "check_config ord d = None \<longleftrightarrow> config_valid d"
proof -
  have req: "check_required (ord (required_options d)) = None \<longleftrightarrow>
      URL d \<noteq> [] \<and> TokenID d \<noteq> [] \<and> TokenSecret d \<noteq> [] \<and> TemplateRef d \<noteq> []"
    using assms by (auto simp: check_required_None iteration_order_def required_options_def)
  show ?thesis
    using parseVMIDRange_no_panic [of "VMIDRange d"] req
    by (auto simp: check_config_def config_valid_def split: option.splits go.splits)
qed

lemma set_defaults_nonzero:
  "Cores (set_defaults d) \<noteq> 0 \<and> MemoryMB (set_defaults d) \<noteq> 0 \<and> SSHUser (set_defaults d) \<noteq> []
   \<and> AgentTimeout (set_defaults d) \<noteq> 0 \<and> VMIDRange (set_defaults d) \<noteq> []"
  by (simp add: set_defaults_def defaultCores_def defaultMemoryMB_def defaultSSHUser_def
      defaultAgentTimeout_def defaultVMIDRange_def)

lemma set_defaults_keeps:
  "SSHPort (set_defaults d) = SSHPort d \<and> MachineName (set_defaults d) = MachineName d
   \<and> StorePath (set_defaults d) = StorePath d \<and> IPAddress (set_defaults d) = IPAddress d
   \<and> VMID (set_defaults d) = VMID d \<and> PVENode (set_defaults d) = PVENode d"
  by (simp add: set_defaults_def)

lemma read_options_keeps:
  "SSHPort (read_options opts d) = 22 \<and> MachineName (read_options opts d) = MachineName d
   \<and> StorePath (read_options opts d) = StorePath d \<and> IPAddress (read_options opts d) = IPAddress d
   \<and> VMID (read_options opts d) = VMID d \<and> PVENode (read_options opts d) = PVENode d"
  by (simp add: read_options_def)

text \<open>
  C25. The options are accepted exactly when the resulting fields are valid, whatever the order
  in which the required options are looked at; zero values have been replaced by the defaults,
  and the machine's name, its VMID, its node and its address are left alone.
\<close>

theorem SetConfigFromFlags_accepts:
  assumes "iteration_order ord" and "SetConfigFromFlags ord opts d = (err, d')"
  shows "(err = None) = config_valid d'
    \<and> Cores d' \<noteq> 0 \<and> MemoryMB d' \<noteq> 0 \<and> SSHUser d' \<noteq> [] \<and> AgentTimeout d' \<noteq> 0 \<and> VMIDRange d' \<noteq> []
    \<and> SSHPort d' = 22
    \<and> (MachineName d', StorePath d', IPAddress d', VMID d', PVENode d')
      = (MachineName d, StorePath d, IPAddress d, VMID d, PVENode d)"
proof -
  let ?d = "set_defaults (read_options opts d)"
  from assms(2) have run: "err = check_config ord ?d" "d' = ?d" by (auto simp: SetConfigFromFlags_def Let_def)
  show ?thesis
    unfolding run check_config_None [OF assms(1)] using set_defaults_nonzero [of "read_options opts d"]
      set_defaults_keeps [of "read_options opts d"] read_options_keeps [of opts d] by simp
qed

definition opts0 :: options where
  "opts0 = \<lparr>
     op_String = (\<lambda>f. if f = flagURL then ''https://pve:8006''
        else if f = flagTokenID then ''rancher@pve!t'' else if f = flagTokenSecret then ''secret''
        else if f = flagTemplate then ''ubuntu'' else []),
     op_Int = (\<lambda>f. 0), op_Bool = (\<lambda>f. False)\<rparr>"

definition drv0 :: drv where
  "drv0 = snd (SetConfigFromFlags rev opts0 (NewDriver ''node-1'' ''/store''))"

theorem SetConfigFromFlags_accepts_witness:
  "config_valid drv0 \<and> Cores drv0 \<noteq> 0 \<and> MachineName drv0 = ''node-1''"
proof -
  have "fst (SetConfigFromFlags rev opts0 (NewDriver ''node-1'' ''/store'')) = None" by code_simp
  then have run: "SetConfigFromFlags rev opts0 (NewDriver ''node-1'' ''/store'') = (None, drv0)"
    by (metis drv0_def prod.collapse)
  have "iteration_order (rev :: (string \<times> string) list \<Rightarrow> (string \<times> string) list)"
    by (simp add: iteration_order_def)
  from SetConfigFromFlags_accepts [OF this run] show ?thesis by (simp add: NewDriver_def)
qed

text \<open>A valid configuration has the range that the clone needs.\<close>

lemma config_valid_range:
  "parseVMIDRange (VMIDRange d) = Ok (lo, hi) \<Longrightarrow> vmid_range_ok lo hi"
  by (rule parseVMIDRange_Ok)

section \<open>Declared options\<close>

primrec flag_name :: "flag \<Rightarrow> string" where
  "flag_name (StringFlag name env usage val) = name"
| "flag_name (IntFlag name env usage val) = name"
| "flag_name (BoolFlag name env usage) = name"

primrec flag_env :: "flag \<Rightarrow> string" where
  "flag_env (StringFlag name env usage val) = env"
| "flag_env (IntFlag name env usage val) = env"
| "flag_env (BoolFlag name env usage) = env"

primrec is_string_flag :: "flag \<Rightarrow> bool" where
  "is_string_flag (StringFlag name env usage val) = True"
| "is_string_flag (IntFlag name env usage val) = False"
| "is_string_flag (BoolFlag name env usage) = False"

primrec is_int_flag :: "flag \<Rightarrow> bool" where
  "is_int_flag (StringFlag name env usage val) = False"
| "is_int_flag (IntFlag name env usage val) = True"
| "is_int_flag (BoolFlag name env usage) = False"

primrec is_bool_flag :: "flag \<Rightarrow> bool" where
  "is_bool_flag (StringFlag name env usage val) = False"
| "is_bool_flag (IntFlag name env usage val) = False"
| "is_bool_flag (BoolFlag name env usage) = True"

definition names_of :: "(flag \<Rightarrow> bool) \<Rightarrow> string list" where
  "names_of kind = map flag_name (filter kind GetCreateFlags)"

text \<open>The options as a plugin host can set them: what is not declared has its zero value.\<close>

definition declared_only :: "options \<Rightarrow> options" where
  "declared_only opts = \<lparr>
     op_String = (\<lambda>n. if n \<in> set (names_of is_string_flag) then op_String opts n else []),
     op_Int = (\<lambda>n. if n \<in> set (names_of is_int_flag) then op_Int opts n else 0),
     op_Bool = (\<lambda>n. if n \<in> set (names_of is_bool_flag) then op_Bool opts n else False)\<rparr>"

lemma names_strings: "names_of is_string_flag =
  [flagURL, flagTokenID, flagTokenSecret, flagCACert, flagNode, flagTemplate, flagStorage, flagCPUType,
   flagBridge, flagPool, flagSSHUser, flagVMIDRange, flagCIPassword, flagNameserver, flagSearchdomain,
   flagTags]"
  by (simp add: names_of_def GetCreateFlags_def string_flag_def int_flag_def bool_flag_def)

lemma names_ints: "names_of is_int_flag =
  [flagCores, flagMemory, flagDiskSize, flagVLAN, flagAgentTimeout]"
  by (simp add: names_of_def GetCreateFlags_def string_flag_def int_flag_def bool_flag_def)

lemma names_bools: "names_of is_bool_flag =
  [flagInsecureTLS, flagLinkedClone, flagOnBoot, flagKeepOnFailure]"
  by (simp add: names_of_def GetCreateFlags_def string_flag_def int_flag_def bool_flag_def)

lemma upper_letters:
  "map upper_char ''abcdefghijklmnopqrstuvwxyz_'' = ''ABCDEFGHIJKLMNOPQRSTUVWXYZ_''"
  by code_simp

lemmas upper_table = upper_letters [simplified list.map list.inject simp_thms]

lemma distinct_if_suffixes: "distinct (map (drop k) xs) \<Longrightarrow> distinct xs"
  by (simp add: distinct_map)

text \<open>
  C27. The option declarations and their use agree: names and environment variables are unique,
  and \<open>SetConfigFromFlags\<close> reads only declared options, each with the type it is declared with.
\<close>

theorem options_declared:
  "distinct (map flag_name GetCreateFlags) \<and> distinct (map flag_env GetCreateFlags)
   \<and> SetConfigFromFlags ord opts d = SetConfigFromFlags ord (declared_only opts) d"
proof (intro conjI)
  show "distinct (map flag_name GetCreateFlags)"
    by (rule distinct_if_suffixes [of 8])
       (simp add: GetCreateFlags_def string_flag_def int_flag_def bool_flag_def flag_names)
  show "distinct (map flag_env GetCreateFlags)"
    by (rule distinct_if_suffixes [of 8])
       (simp add: GetCreateFlags_def string_flag_def int_flag_def bool_flag_def flag_names
          envVar_def to_upper_def replace_char_def upper_table)
  have "read_options opts d = read_options (declared_only opts) d"
    by (simp add: read_options_def declared_only_def names_strings names_ints names_bools)
  then show "SetConfigFromFlags ord opts d = SetConfigFromFlags ord (declared_only opts) d"
    by (simp add: SetConfigFromFlags_def)
qed


section \<open>Driver states for the witnesses\<close>

text \<open>
  The driver of \<open>drv0\<close> in the simulated cluster: before its VM is known, with a persisted VMID
  of its own, and with one that meanwhile belongs to another user's VM.
\<close>

definition dst_with :: "drv \<Rightarrow> sim_world \<Rightarrow> sim_world dst" where
  "dst_with d w = \<lparr>world = w, trace = [], drv = d\<rparr>"

definition named_dst :: "sim_world dst" where
  "named_dst = dst_with drv0 sim0"

definition known_dst :: "sim_world dst" where
  "known_dst = dst_with (drv0\<lparr>VMID := 10002, PVENode := ''pve1''\<rparr>) sim0"

definition foreign_dst :: "sim_world dst" where
  "foreign_dst = dst_with (drv0\<lparr>VMID := 10001, PVENode := ''pve1''\<rparr>) sim0"

definition gone_dst :: "sim_world dst" where
  "gone_dst = dst_with (drv0\<lparr>VMID := 10777, PVENode := ''pve1''\<rparr>) sim0"

end
