(* ===== verification/PreCreate.thy ===== *)
theory PreCreate
  imports Flags
begin

text \<open>
  The checks before anything is created, \<open>pkg/driver/precreate.go\<close>: \<open>PreCreateCheck\<close> and
  \<open>resolvePlacement\<close>, which \<open>Create\<close> runs again.
\<close>

section \<open>Operations\<close>

record placement =
  pl_Template :: vm
  pl_TargetNode :: string
  pl_BootDiskKey :: string
  pl_TemplateGB :: int

text \<open>\<open>if err := validate(...); err != nil { return err }\<close>\<close>

definition checkE :: "goerr option \<Rightarrow> ('s, unit) eff" where
  "checkE err = (case err of None \<Rightarrow> okE () | Some e \<Rightarrow> errE e)"

text \<open>The loop over the storages keeps the last row with a name.\<close>

definition storage_named :: "string \<Rightarrow> StorageInfo list \<Rightarrow> StorageInfo option" where
  "storage_named name storages = find (\<lambda>st. si_Name st = name) (rev storages)"

definition check_storage :: "drv \<Rightarrow> string \<Rightarrow> StorageInfo list \<Rightarrow> goerr option" where
  "check_storage d targetNode storages =
     (if Storage d = [] then None
      else (case storage_named (Storage d) storages of
          None \<Rightarrow> Some (ErrorString (''storage '' @ quote (Storage d) @ '' not found on node ''
            @ quote targetNode @ ''; available: '' @ join '', '' (map si_Name storages)))
        | Some st \<Rightarrow>
            if \<not> contains (si_Content st) ''images''
            then Some (ErrorString (''storage '' @ quote (Storage d) @ '' on node '' @ quote targetNode
              @ '' cannot hold VM disks (content='' @ quote (si_Content st) @ '')''))
            else None))"

definition check_bridge :: "drv \<Rightarrow> string \<Rightarrow> string list \<Rightarrow> goerr option" where
  "check_bridge d targetNode bridges =
     (if Bridge d \<in> set bridges then None
      else Some (ErrorString (''bridge '' @ quote (Bridge d) @ '' not found on node '' @ quote targetNode
        @ ''; available bridges: '' @ join '', '' bridges)))"

definition no_cloud_init :: "vm \<Rightarrow> goerr" where
  "no_cloud_init tmpl =
     ErrorString (''template '' @ quote (vm_name tmpl) @ '' has no cloud-init drive '' @ dash
       @ '' without one, user/SSH-key/network settings are never delivered to the guest. Add one in PVE: qm set ''
       @ itoa (vm_id tmpl) @ '' --ide2 <storage>:cloudinit'')"

definition template_error :: "vm \<Rightarrow> goerr \<Rightarrow> goerr" where
  "template_error tmpl = wrapw (''template '' @ quote (vm_name tmpl) @ '': '') []"

text \<open>The checks of the template alone: its boot disk.\<close>

definition check_template :: "drv \<Rightarrow> vm \<Rightarrow> (('w, 'x) st_scheme, string \<times> int \<times> string) eff" where
  "check_template d tmpl =
     bindE (checkE (EnsureTemplate tmpl)) (\<lambda>_.
     bindE (liftE (CloudInitDrive (vm_config tmpl))) (\<lambda>(drive, ok).
     if \<not> ok then errE (no_cloud_init tmpl)
     else
       bindE (mapErrE (template_error tmpl) (liftE (NICMAC (vm_config tmpl) ''net0''))) (\<lambda>_.
       bindE (mapErrE (template_error tmpl) (liftE (BootDisk (vm_config tmpl)))) (\<lambda>(bootKey, templateGB, bootVal).
       bindE (checkE (ValidateDiskSize (DiskSizeGB d) templateGB)) (\<lambda>_.
         okE (bootKey, templateGB, bootVal))))))"

definition target_node :: "drv \<Rightarrow> vm \<Rightarrow> string" where
  "target_node d tmpl = (if NodeName d = [] then vm_node tmpl else NodeName d)"

definition template_storage :: "string \<Rightarrow> StorageInfo list \<Rightarrow> StorageInfo option" where
  "template_storage bootVal storages = storage_named (fst (cut (CHR '':'') bootVal)) storages"

definition check_placement :: "drv \<Rightarrow> vm \<Rightarrow> string \<Rightarrow> StorageInfo list \<Rightarrow> goerr option" where
  "check_placement d tmpl bootVal storages =
     (case check_storage d (target_node d tmpl) storages of
        Some err \<Rightarrow> Some err
      | None \<Rightarrow>
          (let tst = template_storage bootVal storages;
               shared = (case tst of None \<Rightarrow> False | Some st \<Rightarrow> si_Shared st)
           in case ValidateCloneMode (LinkedClone d) (Storage d) (NodeName d) (vm_node tmpl) shared of
                Some err \<Rightarrow> Some err
              | None \<Rightarrow>
                  (case tst of
                     None \<Rightarrow> None
                   | Some st \<Rightarrow> if LinkedClone d then LinkedCloneOK bootVal (si_Type st) else None)))"

definition resolve_placement :: "'w px \<Rightarrow> client \<Rightarrow> drv \<Rightarrow> (('w, 'x) st_scheme, placement) eff" where
  "resolve_placement P c d =
     bindE (ResolveTemplate P c (TemplateRef d)) (\<lambda>tmpl.
     bindE (check_template d tmpl) (\<lambda>(bootKey, templateGB, bootVal).
     bindE (NodeStorages P c (target_node d tmpl)) (\<lambda>storages.
     bindE (checkE (check_placement d tmpl bootVal storages)) (\<lambda>_.
     bindE (if Bridge d \<noteq> []
            then bindE (NodeBridges P c (target_node d tmpl))
                   (\<lambda>bridges. checkE (check_bridge d (target_node d tmpl) bridges))
            else okE ()) (\<lambda>_.
       okE \<lparr>pl_Template = tmpl, pl_TargetNode = target_node d tmpl, pl_BootDiskKey = bootKey,
            pl_TemplateGB = templateGB\<rparr>)))))"

definition resolvePlacement :: "'w px \<Rightarrow> client \<Rightarrow> (('w, 'x) dst_scheme, placement) eff" where
  "resolvePlacement P c = bindE (getsE drv) (resolve_placement P c)"

definition missing_privileges :: "int \<Rightarrow> string list \<Rightarrow> goerr" where
  "missing_privileges major missing =
     ErrorString (''the API token is missing privileges: '' @ join '', '' missing
       @ ''. Grant them via a role on the token itself (privsep tokens do NOT inherit the user's permissions) ''
       @ ''or recreate the token with privsep=0. See the driver README for ready-made PVE '' @ itoa major
       @ '' role definitions'')"

definition PreCreateCheck :: "'w px \<Rightarrow> (('w, 'x) dst_scheme, unit) eff" where
  "PreCreateCheck P =
     bindE (the_client P) (\<lambda>c.
     bindE (getsE drv) (\<lambda>d.
     bindE (checkE (ValidateMachineName (MachineName d))) (\<lambda>_.
     bindE (PVEMajorVersion P c) (\<lambda>major.
     bindE (attemptE (TokenPermissions P c)) (\<lambda>res.
     bindE (case res of
              Inl err \<Rightarrow> okE ()
            | Inr perms \<Rightarrow>
                let missing = Missing perms (RequiredChecks major (Storage d) (Bridge d) (ResourcePool d)) in
                if 0 < length missing then errE (missing_privileges major missing) else okE ()) (\<lambda>_.
     bindE (resolvePlacement P c) (\<lambda>_. okE ())))))))"

section \<open>Frame, trace and totality\<close>

lemma keeps_checkE [keepsI]: "keeps (emits A) (checkE err)" "keeps same_ext (checkE err)"
  unfolding checkE_def by (intro keepsI)+

lemma proper_checkE [properI]: "proper (checkE err)"
  unfolding checkE_def by (intro properI)

lemma checkE_Ok [simp]: "checkE err s = Some (Ok u, s') \<longleftrightarrow> err = None \<and> s' = s"
  by (auto simp: checkE_def split: option.splits)

lemma keeps_check_template [keepsI]:
  "keeps (emits A) (check_template d tmpl)" "keeps same_ext (check_template d tmpl)"
  unfolding check_template_def by (intro keepsI)+

lemma keeps_resolve_placement [keepsI]:
  "(\<And>e. reading e \<Longrightarrow> A e) \<Longrightarrow> keeps (emits A) (resolve_placement P c d)"
  "keeps same_ext (resolve_placement P c d)"
  unfolding resolve_placement_def by (intro keepsI | simp)+

lemma keeps_resolvePlacement [keepsI]:
  "(\<And>e. reading e \<Longrightarrow> A e) \<Longrightarrow> keeps (emits A) (resolvePlacement P c)"
  "keeps same_ext (resolvePlacement P c)"
  unfolding resolvePlacement_def by (intro keepsI | simp)+

lemma keeps_PreCreateCheck [keepsI]:
  "(\<And>e. reading e \<Longrightarrow> A e) \<Longrightarrow> keeps (emits A) (PreCreateCheck P)"
  "keeps same_ext (PreCreateCheck P)"
  unfolding PreCreateCheck_def by (intro keepsI | simp)+

text \<open>
  The template checks never panic: a template without a configuration is refused before the
  configuration is read.
\<close>

lemma boot_scan_no_panic: "boot_scan cfg keys \<noteq> Panic p"
  by (induction keys) (auto simp: Let_def split: option.splits prod.splits if_splits)

lemma proper_check_template [properI]: "proper (check_template d tmpl)"
  unfolding proper_def
proof
  fix s
  show "\<exists>r s'. check_template d tmpl s = Some (r, s') \<and> (\<forall>p. r \<noteq> Panic p)"
  proof (cases "EnsureTemplate tmpl")
    case (Some e)
    then show ?thesis by (simp add: check_template_def checkE_def errE_def)
  next
    case None
    then obtain cfg where cfg: "vm_config tmpl = Some cfg"
      by (auto simp: EnsureTemplate_def split: if_splits option.splits)
    have nic: "proper (liftE (NICMAC (Some cfg) ''net0''))"
      by (auto simp: proper_def liftE_def NICMAC_def split: option.splits)
    have boot: "proper (liftE (BootDisk (Some cfg)))"
      using boot_scan_no_panic by (simp add: proper_def liftE_def BootDisk_def)
    have drive: "proper (liftE (CloudInitDrive (Some cfg)))"
      by (simp add: proper_def liftE_def CloudInitDrive_def)
    have "proper (check_template d tmpl)"
      unfolding check_template_def cfg by (intro properI nic boot drive)
    then show ?thesis unfolding proper_def by blast
  qed
qed

lemma proper_resolve_placement [properI]: "proper (resolve_placement P c d)"
  unfolding resolve_placement_def by (intro properI)

lemma proper_resolvePlacement [properI]: "proper (resolvePlacement P c)"
  unfolding resolvePlacement_def by (intro properI)

lemma proper_PreCreateCheck [properI]: "proper (PreCreateCheck P)"
  unfolding PreCreateCheck_def by (intro properI)


section \<open>Properties\<close>

lemma wrapped: "(mapErrE g (liftE r) t = Some (Ok x, t')) = (r = Ok x \<and> t' = t)"
  by (cases r) (auto simp: mapErrE_def liftE_def)

lemma check_template_iff:
  "check_template d tmpl s = Some (Ok (key, gb, val), s') \<longleftrightarrow>
   s' = s \<and> vm_template tmpl \<and>
   (\<exists>cfg. vm_config tmpl = Some cfg
      \<and> cfg_agent cfg \<noteq> [] \<and> hd (cfg_agent cfg) \<noteq> CHR ''0'' \<and> \<not> sublist ''enabled=0'' (cfg_agent cfg)
      \<and> (\<exists>k v. (k, v) \<in> drive_entries cfg \<and> sublist ''cloudinit'' v)
      \<and> (\<exists>mac. NICMAC (Some cfg) ''net0'' = Ok mac)
      \<and> BootDisk (Some cfg) = Ok (key, gb, val) \<and> (DiskSizeGB d = 0 \<or> gb \<le> DiskSizeGB d))"
proof (cases "EnsureTemplate tmpl")
  case (Some e)
  then have "\<not> (vm_template tmpl \<and> (\<exists>cfg. vm_config tmpl = Some cfg
      \<and> cfg_agent cfg \<noteq> [] \<and> hd (cfg_agent cfg) \<noteq> CHR ''0'' \<and> \<not> sublist ''enabled=0'' (cfg_agent cfg)))"
    using EnsureTemplate_accepts [of tmpl] by simp
  with Some show ?thesis by (auto simp: check_template_def checkE_def errE_def)
next
  case None
  then obtain cfg where cfg: "vm_config tmpl = Some cfg" "vm_template tmpl" "cfg_agent cfg \<noteq> []"
    "hd (cfg_agent cfg) \<noteq> CHR ''0''" "\<not> sublist ''enabled=0'' (cfg_agent cfg)"
    unfolding EnsureTemplate_accepts by blast
  obtain drive ok where drive: "CloudInitDrive (Some cfg) = Ok (drive, ok)"
    and ok: "ok = (\<exists>k v. (k, v) \<in> drive_entries cfg \<and> sublist ''cloudinit'' v)"
    using CloudInitDrive_spec [of cfg] by blast
  show ?thesis
  proof (cases ok)
    case False
    with None drive ok cfg(1) show ?thesis
      by (auto simp: check_template_def checkE_def bindE_def liftE_def okE_def errE_def)
  next
    case True
    have eq: "check_template d tmpl s = bindE (mapErrE (template_error tmpl) (liftE (NICMAC (Some cfg) ''net0''))) (\<lambda>_.
       bindE (mapErrE (template_error tmpl) (liftE (BootDisk (Some cfg)))) (\<lambda>(bootKey, templateGB, bootVal).
       bindE (checkE (ValidateDiskSize (DiskSizeGB d) templateGB)) (\<lambda>_.
         okE (bootKey, templateGB, bootVal)))) s"
      using None drive True cfg(1) by (simp add: check_template_def checkE_def bindE_def liftE_def okE_def)
    have "bindE (mapErrE (template_error tmpl) (liftE (NICMAC (Some cfg) ''net0''))) (\<lambda>_.
       bindE (mapErrE (template_error tmpl) (liftE (BootDisk (Some cfg)))) (\<lambda>(bootKey, templateGB, bootVal).
       bindE (checkE (ValidateDiskSize (DiskSizeGB d) templateGB)) (\<lambda>_.
         okE (bootKey, templateGB, bootVal)))) s = Some (Ok (key, gb, val), s') \<longleftrightarrow>
        s' = s \<and> (\<exists>mac. NICMAC (Some cfg) ''net0'' = Ok mac)
        \<and> BootDisk (Some cfg) = Ok (key, gb, val) \<and> (DiskSizeGB d = 0 \<or> gb \<le> DiskSizeGB d)"
      by (auto simp: bindE_Ok_iff wrapped)
    with eq cfg True [unfolded ok] show ?thesis by simp
  qed
qed

lemma check_template_same:
  "check_template d tmpl s = Some (Ok (key, gb, val), s') \<Longrightarrow> s' = s"
  by (simp add: check_template_iff)

text \<open>
  The requirements on the storages of the target node. When a name is listed twice the last row
  counts, so the rows are searched from the end.
\<close>

lemma check_storage_None:
  "check_storage d node storages = None \<longleftrightarrow> Storage d = [] \<or>
     (\<exists>st. find (\<lambda>st. si_Name st = Storage d) (rev storages) = Some st \<and> sublist ''images'' (si_Content st))"
  by (auto simp: check_storage_def storage_named_def contains_iff_sublist split: option.split)

lemma shared_iff: "(case tst of None \<Rightarrow> False | Some st \<Rightarrow> si_Shared st) \<longleftrightarrow> (\<exists>st. tst = Some st \<and> si_Shared st)"
  by (cases tst) simp_all

lemma linked_iff:
  "(case tst of None \<Rightarrow> None | Some st \<Rightarrow> if linked then LinkedCloneOK val (si_Type st) else None) = None
   \<longleftrightarrow> \<not> linked \<or> tst = None \<or> (\<exists>st. tst = Some st
      \<and> (si_Type st \<in> {''lvmthin'', ''zfspool'', ''rbd'', ''btrfs''} \<or> sublist ''.qcow2'' val))"
  by (cases tst) (simp_all add: LinkedCloneOK_def linkedCloneStorageTypes_def contains_iff_sublist)

lemma check_placement_None:
  "check_placement d tmpl bootVal storages = None \<longleftrightarrow>
   (Storage d = [] \<or>
     (\<exists>st. find (\<lambda>st. si_Name st = Storage d) (rev storages) = Some st \<and> sublist ''images'' (si_Content st)))
   \<and> (\<not> LinkedClone d \<or> Storage d = [])
   \<and> (NodeName d \<in> {[], vm_node tmpl} \<or>
     (\<exists>st. find (\<lambda>st. si_Name st = fst (cut (CHR '':'') bootVal)) (rev storages) = Some st \<and> si_Shared st))
   \<and> (\<not> LinkedClone d
     \<or> find (\<lambda>st. si_Name st = fst (cut (CHR '':'') bootVal)) (rev storages) = None
     \<or> (\<exists>st. find (\<lambda>st. si_Name st = fst (cut (CHR '':'') bootVal)) (rev storages) = Some st
          \<and> (si_Type st \<in> {''lvmthin'', ''zfspool'', ''rbd'', ''btrfs''} \<or> sublist ''.qcow2'' bootVal)))"
proof -
  let ?tst = "find (\<lambda>st. si_Name st = fst (cut (CHR '':'') bootVal)) (rev storages)"
  have "check_placement d tmpl bootVal storages = None \<longleftrightarrow>
      check_storage d (target_node d tmpl) storages = None
      \<and> ValidateCloneMode (LinkedClone d) (Storage d) (NodeName d) (vm_node tmpl)
          (case ?tst of None \<Rightarrow> False | Some st \<Rightarrow> si_Shared st) = None
      \<and> (case ?tst of None \<Rightarrow> None | Some st \<Rightarrow>
            if LinkedClone d then LinkedCloneOK bootVal (si_Type st) else None) = None"
    by (simp add: check_placement_def template_storage_def storage_named_def Let_def split: option.split)
  then show ?thesis
    unfolding check_storage_None ValidateCloneMode_accepts shared_iff linked_iff de_Morgan_conj not_not conj_assoc .
qed

lemma resolvePlacement_template:
  fixes s s' :: "('w, 'x) dst_scheme"
  assumes "resolvePlacement P c s = Some (Ok pl, s')"
  shows "vm_template (pl_Template pl)"
proof -
  from assms obtain key gb val and t t' :: "('w, 'x) dst_scheme" where "check_template (drv s) (pl_Template pl) t = Some (Ok (key, gb, val), t')"
    unfolding resolvePlacement_def resolve_placement_def by (auto elim!: bindE_OkE)
  then show ?thesis by (simp add: check_template_iff)
qed

text \<open>
  C22. \<open>resolvePlacement\<close> returns a placement exactly when every requirement of a clone is met:
  the reference resolves to a template with the guest agent enabled, a cloud-init drive, a
  readable MAC and a boot disk that is not larger than the requested one; the requested storage
  exists on the target node and holds images; a linked clone names no storage, and its boot disk
  is on a storage that can back it (if the target node lists that storage at all); another node
  is asked for only if the template's storage is shared; and the bridge exists on the target
  node. The placement is the template, the configured node (or else the template's), and the
  boot disk.
\<close>

theorem resolvePlacement_sound:
  fixes s s' :: "('w, 'x) dst_scheme" and pl :: placement
  shows "resolvePlacement P c s = Some (Ok pl, s') \<longleftrightarrow>
   (\<exists>t u cfg mac bootVal storages.
    ResolveTemplate P c (TemplateRef (drv s)) s = Some (Ok (pl_Template pl), t)
    \<and> vm_template (pl_Template pl) \<and> vm_config (pl_Template pl) = Some cfg
    \<and> cfg_agent cfg \<noteq> [] \<and> hd (cfg_agent cfg) \<noteq> CHR ''0'' \<and> \<not> sublist ''enabled=0'' (cfg_agent cfg)
    \<and> (\<exists>k v. (k, v) \<in> set (cfg_ides cfg) \<union> set (cfg_scsis cfg) \<union> set (cfg_satas cfg) \<and> sublist ''cloudinit'' v)
    \<and> NICMAC (Some cfg) ''net0'' = Ok mac
    \<and> BootDisk (Some cfg) = Ok (pl_BootDiskKey pl, pl_TemplateGB pl, bootVal)
    \<and> (DiskSizeGB (drv s) = 0 \<or> pl_TemplateGB pl \<le> DiskSizeGB (drv s))
    \<and> pl_TargetNode pl = (if NodeName (drv s) = [] then vm_node (pl_Template pl) else NodeName (drv s))
    \<and> NodeStorages P c (pl_TargetNode pl) t = Some (Ok storages, u)
    \<and> (Storage (drv s) = [] \<or>
        (\<exists>st. find (\<lambda>st. si_Name st = Storage (drv s)) (rev storages) = Some st \<and> sublist ''images'' (si_Content st)))
    \<and> (\<not> LinkedClone (drv s) \<or> Storage (drv s) = [])
    \<and> (NodeName (drv s) \<in> {[], vm_node (pl_Template pl)} \<or>
        (\<exists>st. find (\<lambda>st. si_Name st = fst (cut (CHR '':'') bootVal)) (rev storages) = Some st \<and> si_Shared st))
    \<and> (\<not> LinkedClone (drv s)
       \<or> find (\<lambda>st. si_Name st = fst (cut (CHR '':'') bootVal)) (rev storages) = None
       \<or> (\<exists>st. find (\<lambda>st. si_Name st = fst (cut (CHR '':'') bootVal)) (rev storages) = Some st
            \<and> (si_Type st \<in> {''lvmthin'', ''zfspool'', ''rbd'', ''btrfs''} \<or> sublist ''.qcow2'' bootVal)))
    \<and> (if Bridge (drv s) = [] then s' = u
       else \<exists>bridges. NodeBridges P c (pl_TargetNode pl) u = Some (Ok bridges, s') \<and> Bridge (drv s) \<in> set bridges))"
proof -
  let ?d = "drv s"
  have bridge: "(if Bridge ?d \<noteq> [] then bindE (NodeBridges P c node) (\<lambda>bridges. checkE (check_bridge ?d node bridges))
        else okE ()) u = Some (Ok x, t) \<longleftrightarrow>
      (if Bridge ?d = [] then t = u
       else \<exists>bridges. NodeBridges P c node u = Some (Ok bridges, t) \<and> Bridge ?d \<in> set bridges)"
    for node u x and t :: "('w, 'x) dst_scheme" by (auto simp: bindE_Ok_iff check_bridge_def)
  have "resolvePlacement P c s = resolve_placement P c ?d s"
    by (simp add: resolvePlacement_def bindE_def getsE_def)
  also have "resolve_placement P c ?d s = Some (Ok pl, s') \<longleftrightarrow> (\<exists>tmpl t key gb val storages u.
      ResolveTemplate P c (TemplateRef ?d) s = Some (Ok tmpl, t)
      \<and> check_template ?d tmpl t = Some (Ok (key, gb, val), t)
      \<and> NodeStorages P c (target_node ?d tmpl) t = Some (Ok storages, u)
      \<and> check_placement ?d tmpl val storages = None
      \<and> (if Bridge ?d = [] then s' = u
         else \<exists>bridges. NodeBridges P c (target_node ?d tmpl) u = Some (Ok bridges, s') \<and> Bridge ?d \<in> set bridges)
      \<and> pl = \<lparr>pl_Template = tmpl, pl_TargetNode = target_node ?d tmpl, pl_BootDiskKey = key,
            pl_TemplateGB = gb\<rparr>)"
    unfolding resolve_placement_def bindE_Ok_iff split_paired_Ex prod.case checkE_Ok okE_iff bridge go.inject
    by (blast dest: check_template_same)
  also have "\<dots> \<longleftrightarrow> (\<exists>t val storages u.
      ResolveTemplate P c (TemplateRef ?d) s = Some (Ok (pl_Template pl), t)
      \<and> check_template ?d (pl_Template pl) t = Some (Ok (pl_BootDiskKey pl, pl_TemplateGB pl, val), t)
      \<and> pl_TargetNode pl = target_node ?d (pl_Template pl)
      \<and> NodeStorages P c (pl_TargetNode pl) t = Some (Ok storages, u)
      \<and> check_placement ?d (pl_Template pl) val storages = None
      \<and> (if Bridge ?d = [] then s' = u
         else \<exists>bridges. NodeBridges P c (pl_TargetNode pl) u = Some (Ok bridges, s') \<and> Bridge ?d \<in> set bridges))"
    by (cases pl) (auto split del: if_split cong: if_cong)
  finally show ?thesis
    unfolding check_template_iff check_placement_None target_node_def drive_entries_def
    by (rule trans) (intro iffI; elim exE conjE; intro exI conjI; (assumption | rule refl))
qed

text \<open>
  C24. \<open>PreCreateCheck\<close> always returns, without a panic, changes nothing on the cluster (every
  request is a read) and nothing in the driver.
\<close>

theorem PreCreateCheck_reads_only:
  "\<exists>r s'. PreCreateCheck P s = Some (r, s') \<and> (\<forall>p. r \<noteq> Panic p) \<and> emits reading s s' \<and> drv s' = drv s"
proof -
  obtain r s' where run: "PreCreateCheck P s = Some (r, s')" and np: "\<forall>p. r \<noteq> Panic p"
    using proper_PreCreateCheck unfolding proper_def by blast
  have "drv s' = drv s" by (rule same_ext_drv) (rule keepsD [OF keeps_PreCreateCheck(2) run])
  moreover have "emits reading s s'" by (rule keepsD [OF keeps_PreCreateCheck(1) run])
  ultimately show ?thesis using run np by blast
qed

text \<open>
  C23. \<open>PreCreateCheck\<close> passes exactly when the machine name is valid, the PVE version can be read,
  the token's permissions either were read and lack none of the privileges that this version and
  this configuration require, or could not be read (then the privilege check is skipped), and
  the placement can be resolved after that.
\<close>

theorem PreCreateCheck_passed:
  fixes s s' :: "('w, 'x) dst_scheme"
  shows "PreCreateCheck P s = Some (Ok (), s') \<longleftrightarrow>
   (\<exists>c major res (t :: ('w, 'x) dst_scheme) u (pl :: placement).
      client_of P (drv s) = Ok c \<and> ValidateMachineName (MachineName (drv s)) = None
      \<and> PVEMajorVersion P c s = Some (Ok major, t) \<and> TokenPermissions P c t = Some (res, u)
      \<and> ((\<exists>perms. res = Ok perms \<and>
            Missing perms (RequiredChecks major (Storage (drv s)) (Bridge (drv s)) (ResourcePool (drv s))) = [])
         \<or> (\<exists>e. res = Err e))
      \<and> resolvePlacement P c u = Some (Ok pl, s'))"
proof -
  have checked: "(case res of
              Inl err \<Rightarrow> okE ()
            | Inr perms \<Rightarrow>
                let missing = Missing perms (RequiredChecks major (Storage d) (Bridge d) (ResourcePool d)) in
                if 0 < length missing then errE (missing_privileges major missing) else okE ()) u = Some (Ok x, v)
      \<longleftrightarrow> v = u \<and> ((\<exists>e. res = Inl e) \<or> (\<exists>perms. res = Inr perms \<and>
         Missing perms (RequiredChecks major (Storage d) (Bridge d) (ResourcePool d)) = []))"
    for major res d x and u v :: "('w, 'x) dst_scheme"
    by (cases res) (auto simp: Let_def)
  have attempt: "attemptE (TokenPermissions P c) t = Some (Ok res, u) \<longleftrightarrow>
      (\<exists>q. TokenPermissions P c t = Some (q, u)
         \<and> ((\<exists>perms. q = Ok perms \<and> res = Inr perms) \<or> (\<exists>e. q = Err e \<and> res = Inl e)))"
    for c res and t u :: "('w, 'x) dst_scheme"
    by (auto simp: attemptE_def split: option.splits go.splits)
  show ?thesis
    unfolding PreCreateCheck_def bindE_Ok_iff getsE_iff the_client_iff checkE_Ok checked attempt okE_iff go.inject
    by (rule iffI; elim exE conjE disjE; simp; blast)
qed

theorem resolvePlacement_sound_witness:
  "\<exists>c (pl :: placement) s'. resolvePlacement sim c named_dst = Some (Ok pl, s') \<and> vm_template (pl_Template pl)"
proof -
  have "case resolvePlacement sim cl0 named_dst of Some (Ok pl, s') \<Rightarrow> True | _ \<Rightarrow> False" by code_simp
  then obtain pl s' where run: "resolvePlacement sim cl0 named_dst = Some (Ok pl, s')"
    by (auto split: option.splits go.splits)
  from run [unfolded resolvePlacement_sound] run show ?thesis by blast
qed

theorem PreCreateCheck_passed_witness:
  "\<exists>s'. PreCreateCheck sim named_dst = Some (Ok (), s')
     \<and> ValidateMachineName (MachineName (drv named_dst)) = None"
proof -
  have "map_option fst (PreCreateCheck sim named_dst) = Some (Ok ())" by code_simp
  from run_ends [OF this] obtain s' where run: "PreCreateCheck sim named_dst = Some (Ok (), s')" by blast
  from run [unfolded PreCreateCheck_passed] run show ?thesis by blast
qed

end
