(* ===== verification/Removal.thy ===== *)
theory Removal
  imports PreCreate
begin

text \<open>
  \<open>Remove\<close>, \<open>pkg/driver/remove.go\<close>: the machine's VM is shut down and deleted, but only if it
  carries the ownership tag.
\<close>

section \<open>Operation\<close>

definition gracefulShutdownTimeout :: int where
  "gracefulShutdownTimeout = 90 * second"

definition refuse_delete :: "vm \<Rightarrow> goerr" where
  "refuse_delete v =
     ErrorString (''refusing to delete VM '' @ itoa (vm_id v) @ '' ('' @ vm_name v @ ''): it does not carry the ''
       @ quote MachineTag @ '' ownership tag '' @ dash
       @ '' it may have been replaced or modified outside the driver'')"

definition stop_for_removal :: "'w px \<Rightarrow> vm \<Rightarrow> (('w, 'x) st_scheme, unit) eff" where
  "stop_for_removal P v =
     (if vm_status v = ''running'' then
        bindE (attemptE (ShutdownVM P v gracefulShutdownTimeout)) (\<lambda>res. case res of
            Inr u \<Rightarrow> okE ()
          | Inl err \<Rightarrow>
              mapErrE (wrapw (''could not stop VM '' @ itoa (vm_id v) @ '' before removal: '') []) (StopVM P v))
      else okE ())"

definition remove_found :: "'w px \<Rightarrow> vm option \<Rightarrow> (('w, 'x) st_scheme, unit) eff" where
  "remove_found P found =
     (case found of
        None \<Rightarrow> okE ()
      | Some v \<Rightarrow>
          if \<not> px_has_tag P v MachineTag then errE (refuse_delete v)
          else bindE (stop_for_removal P v) (\<lambda>_. DeleteVM P v))"

definition Remove :: "'w px \<Rightarrow> (('w, 'x) dst_scheme, unit) eff" where
  "Remove P =
     bindE (the_client P) (\<lambda>c.
     bindE (lookupVM P c) (remove_found P))"

section \<open>Frame, trace and totality\<close>

text \<open>The requests that \<open>Remove\<close> may make of a VM.\<close>

fun removal_step :: "(vm \<Rightarrow> bool) \<Rightarrow> event \<Rightarrow> bool" where
  "removal_step owned (EShutdown v) = owned v"
| "removal_step owned (EStop v) = owned v"
| "removal_step owned (EDelete v opts) = (owned v \<and> opts = purge_options)"
| "removal_step owned e = (\<not> mutating e)"

lemma reading_removal: "reading e \<Longrightarrow> removal_step owned e"
  by (cases e) auto

lemma keeps_stop_for_removal [keepsI]:
  "A (EShutdown v) \<Longrightarrow> A (EStop v) \<Longrightarrow> (\<And>u d. A (EWait u d)) \<Longrightarrow> keeps (emits A) (stop_for_removal P v)"
  "keeps same_ext (stop_for_removal P v)"
  unfolding stop_for_removal_def by (intro keepsI | simp)+

lemma proper_stop_for_removal [properI]: "proper (stop_for_removal P v)"
  unfolding stop_for_removal_def by (intro properI)

lemma keeps_remove_found:
  "keeps (emits (removal_step (\<lambda>v. px_has_tag P v MachineTag))) (remove_found P found)"
  unfolding remove_found_def by (intro keepsI) (simp_all add: purge_options_def)

lemma frame_remove_found [keepsI]: "keeps same_ext (remove_found P found)"
  unfolding remove_found_def by (intro keepsI)

lemma proper_remove_found [properI]: "proper (remove_found P found)"
  unfolding remove_found_def by (intro properI)

lemma keeps_Remove:
  "keeps (emits (removal_step (\<lambda>v. px_has_tag P v MachineTag))) (Remove P)"
  unfolding Remove_def
  by (intro keepsI keeps_remove_found) (simp_all add: reading_removal)

lemma frame_Remove [keepsI]: "keeps same_ext (Remove P)"
  unfolding Remove_def by (intro keepsI)

lemma proper_Remove [properI]: "proper (Remove P)"
  unfolding Remove_def by (intro properI)

section \<open>Properties\<close>

text \<open>
  C1. \<open>Remove\<close> never harms a VM that is not the driver's: whatever it looks up, every request
  that changes the cluster is a shutdown, a stop or a purging delete of a VM that carries the
  ownership tag. It always returns, never panics, sends at most five delete requests and leaves
  the driver's fields alone.
\<close>

theorem Remove_only_owned:
  "\<exists>r s'. Remove P s = Some (r, s') \<and> (\<forall>p. r \<noteq> Panic p) \<and> drv s' = drv s
     \<and> emits (removal_step (\<lambda>v. px_has_tag P v MachineTag)) s s' \<and> grew is_delete 5 s s'"
proof -
  obtain r s' where run: "Remove P s = Some (r, s')" and np: "\<forall>p. r \<noteq> Panic p"
    using proper_Remove unfolding proper_def by blast
  have "drv s' = drv s" by (rule same_ext_drv) (rule keepsD [OF frame_Remove run])
  moreover have "emits (removal_step (\<lambda>v. px_has_tag P v MachineTag)) s s'"
    by (rule keepsD [OF keeps_Remove run])
  moreover have "grew is_delete 5 s s'"
  proof -
    have look: "keeps (grew is_delete 0) (lookupVM P c)" for c
      by (intro keeps_grew_none keepsI) simp_all
    have cl: "keeps (grew is_delete 0) (the_client P)"
      by (intro keeps_grew_none keepsI)
    have stop: "keeps (grew is_delete 0) (stop_for_removal P v)" for v
      by (intro keeps_grew_none keepsI) simp_all
    have "keeps (grew is_delete (nat deleteAttempts)) (DeleteVM P v)" for v
      unfolding DeleteVM_def by (rule delete_retried.calls_bounded)
    then have del: "keeps (grew is_delete 5) (DeleteVM P v)" for v
      by (simp add: deleteAttempts_def)
    have "keeps (grew is_delete 5) (remove_found P found)" for found
    proof (cases found)
      case (Some v)
      have "keeps (grew is_delete (0 + 5)) (bindE (stop_for_removal P v) (\<lambda>_. DeleteVM P v))"
        by (rule keeps_grew_bindE [OF stop del])
      with Some show ?thesis
        by (cases "px_has_tag P v MachineTag") (simp_all add: remove_found_def keeps_def grew_refl)
    qed (simp add: remove_found_def keeps_def grew_refl)
    from keeps_grew_bindE [OF cl keeps_grew_bindE [OF look this]]
    have "keeps (grew is_delete 5) (Remove P)" by (simp add: Remove_def)
    then show ?thesis using run by (rule keepsD)
  qed
  ultimately show ?thesis using run np by blast
qed

lemma Remove_eq:
  "Remove P s = (case client_of P (drv s) of
     Ok c \<Rightarrow> bindE (lookupVM P c) (remove_found P) s | Err e \<Rightarrow> Some (Err e, s) | Panic p \<Rightarrow> Some (Panic p, s))"
  by (simp add: Remove_def the_client_def bindE_def getsE_def liftE_def split: go.split)

text \<open>
  \<open>Remove\<close> succeeds exactly when the machine has no VM any more, in which case it does
  nothing after the lookup, or its VM carries the tag, could be stopped if it was running, and
  \<open>DeleteVM\<close> succeeded as the last step.
\<close>

lemma Remove_Ok_iff:
  "Remove P s = Some (Ok (), s') \<longleftrightarrow>
   (\<exists>c. client_of P (drv s) = Ok c \<and>
      (lookupVM P c s = Some (Ok None, s') \<or>
       (\<exists>v t u. lookupVM P c s = Some (Ok (Some v), t) \<and> px_has_tag P v MachineTag
          \<and> stop_for_removal P v t = Some (Ok (), u) \<and> DeleteVM P v u = Some (Ok (), s'))))"
proof -
  have found: "remove_found P found t = Some (Ok (), s') \<longleftrightarrow>
      (found = None \<and> s' = t) \<or> (\<exists>v u. found = Some v \<and> px_has_tag P v MachineTag
         \<and> stop_for_removal P v t = Some (Ok (), u) \<and> DeleteVM P v u = Some (Ok (), s'))" for found t
    by (auto simp: remove_found_def bindE_def split: option.splits go.splits)
  have "Remove P s = Some (Ok (), s') \<longleftrightarrow>
      (\<exists>c. client_of P (drv s) = Ok c \<and> bindE (lookupVM P c) (remove_found P) s = Some (Ok (), s'))"
    unfolding Remove_eq by (auto split: go.splits)
  also have "\<dots> \<longleftrightarrow> (\<exists>c. client_of P (drv s) = Ok c \<and> (\<exists>found t. lookupVM P c s = Some (Ok found, t)
      \<and> remove_found P found t = Some (Ok (), s')))"
    unfolding bindE_Ok_iff ..
  finally show ?thesis unfolding found by blast
qed

text \<open>
  A VM without the ownership tag is refused: \<open>Remove\<close> reports the error right after the
  lookup and changes nothing.
\<close>

lemma Remove_refuses_foreign:
  assumes "client_of P (drv s) = Ok c" and "lookupVM P c s = Some (Ok (Some v), t)"
    and "\<not> px_has_tag P v MachineTag"
  shows "Remove P s = Some (Err (refuse_delete v), t) \<and> emits reading s t"
proof
  show "Remove P s = Some (Err (refuse_delete v), t)"
    using assms by (simp add: Remove_eq bindE_def remove_found_def errE_def)
  have "keeps (emits reading) (lookupVM P c)" by (intro keepsI) simp_all
  then show "emits reading s t" using assms(2) by (rule keepsD)
qed

end
