(* ===== verification/Lifecycle.thy ===== *)
theory Lifecycle
  imports Removal
begin

text \<open>
  The operations on an existing machine, \<open>pkg/driver/lifecycle.go\<close>: its state, power operations,
  address and URL. The power operations share \<open>withVM\<close>; the locale \<open>vm_action\<close> is the contract
  of the function they pass to it.
\<close>

section \<open>Operations\<close>

definition machine_gone :: "drv \<Rightarrow> goerr" where
  "machine_gone d =
     ErrorString (''machine '' @ quote (MachineName d) @ '' (VMID '' @ itoa (VMID d)
       @ '') no longer exists on PVE'')"

definition withVM :: "'w px \<Rightarrow> (vm \<Rightarrow> (('w, 'x) dst_scheme, unit) eff) \<Rightarrow> (('w, 'x) dst_scheme, unit) eff" where
  "withVM P fn =
     bindE (the_client P) (\<lambda>c.
     bindE (lookupVM P c) (\<lambda>found. case found of
         None \<Rightarrow> bindE (getsE drv) (\<lambda>d. errE (machine_gone d))
       | Some v \<Rightarrow> fn v))"

text \<open>\<open>state.State\<close> of \<open>rancher/machine\<close>, as far as the driver returns it.\<close>

datatype mstate = SNone | SError | SNotFound | SStarting | SRunning | SStopped | SPaused

definition vm_state :: "vm \<Rightarrow> mstate \<times> goerr option" where
  "vm_state v =
     (if vm_status v = ''running'' then
        (if vm_lock v = ''clone'' then (SStarting, None) else (SRunning, None))
      else if vm_status v = ''stopped'' then (SStopped, None)
      else if vm_status v = ''paused'' then (SPaused, None)
      else (SError, Some (ErrorString (''unknown PVE VM status '' @ quote (vm_status v)))))"

text \<open>The result is the pair of the state and Go's error.\<close>

definition GetState :: "'w px \<Rightarrow> (('w, 'x) dst_scheme, mstate \<times> goerr option) eff" where
  "GetState P =
     bindE (attemptE (the_client P)) (\<lambda>res. case res of
         Inl err \<Rightarrow> okE (SNone, Some err)
       | Inr c \<Rightarrow>
           bindE (attemptE (lookupVM P c)) (\<lambda>res. case res of
               Inl err \<Rightarrow> okE (SError, Some err)
             | Inr found \<Rightarrow>
                 (case found of None \<Rightarrow> okE (SNotFound, None) | Some v \<Rightarrow> okE (vm_state v))))"

definition Start :: "'w px \<Rightarrow> (('w, 'x) dst_scheme, unit) eff" where
  "Start P = withVM P (StartVM P)"

definition stop_vm :: "'w px \<Rightarrow> vm \<Rightarrow> (('w, 'x) st_scheme, unit) eff" where
  "stop_vm P v =
     bindE (attemptE (ShutdownVM P v gracefulShutdownTimeout)) (\<lambda>res. case res of
         Inl err \<Rightarrow> StopVM P v
       | Inr u \<Rightarrow> okE ())"

definition Stop :: "'w px \<Rightarrow> (('w, 'x) dst_scheme, unit) eff" where
  "Stop P = withVM P (stop_vm P)"

definition Kill :: "'w px \<Rightarrow> (('w, 'x) dst_scheme, unit) eff" where
  "Kill P = withVM P (StopVM P)"

definition reboot_vm :: "'w px \<Rightarrow> vm \<Rightarrow> (('w, 'x) dst_scheme, unit) eff" where
  "reboot_vm P v =
     bindE (getsE drv) (\<lambda>d.
     bindE (mapErrE (wrapw (''rebooting VM '' @ itoa (VMID d) @ '': '') []) (callE (EReboot v) (px_reboot P v)))
       (\<lambda>task. WaitTask P task gracefulShutdownTimeout))"

definition Restart :: "'w px \<Rightarrow> (('w, 'x) dst_scheme, unit) eff" where
  "Restart P = withVM P (reboot_vm P)"

definition cached_ip :: "(('w, 'x) dst_scheme, string) eff" where
  "cached_ip =
     bindE (getsE drv) (\<lambda>d.
       if IPAddress d \<noteq> [] then okE (IPAddress d)
       else errE (ErrorString (''no IP address known for machine '' @ quote (MachineName d) @ '' yet'')))"

definition GetIP :: "'w px \<Rightarrow> (('w, 'x) dst_scheme, string) eff" where
  "GetIP P =
     bindE (the_client P) (\<lambda>c.
     bindE (attemptE (lookupVM P c)) (\<lambda>res. case res of
         Inl err \<Rightarrow> cached_ip
       | Inr found \<Rightarrow>
           (case found of
              None \<Rightarrow> cached_ip
            | Some v \<Rightarrow>
                bindE (attemptE (QueryAgentIP P v)) (\<lambda>q. case q of
                    Inl qerr \<Rightarrow> cached_ip
                  | Inr ip \<Rightarrow>
                      bindE (modifyE (drv_update (\<lambda>d. d\<lparr>IPAddress := ip\<rparr>))) (\<lambda>_. okE ip)))))"

definition GetSSHHostname :: "'w px \<Rightarrow> (('w, 'x) dst_scheme, string) eff" where
  "GetSSHHostname P = GetIP P"

text \<open>
  \<open>drivers.MustBeRunning\<close> is code of \<open>rancher/machine\<close>; it is a parameter that is given the
  driver's \<open>GetState\<close>.
\<close>

definition GetURL ::
  "((('w, 'x) dst_scheme, mstate \<times> goerr option) eff \<Rightarrow> (('w, 'x) dst_scheme, unit) eff) \<Rightarrow> 'w px
   \<Rightarrow> (('w, 'x) dst_scheme, string) eff" where
  "GetURL must_be_running P =
     bindE (must_be_running (GetState P)) (\<lambda>_.
     bindE (GetIP P) (\<lambda>ip. okE (''tcp://'' @ join_host_port ip ''2376'')))"

section \<open>The contract of the power operations\<close>

definition power_request :: "vm \<Rightarrow> event \<Rightarrow> bool" where
  "power_request v e \<longleftrightarrow> e \<in> {EStart v, EShutdown v, EStop v, EReboot v}"

locale vm_action =
  fixes P :: "'w px" and fn :: "vm \<Rightarrow> (('w, 'x) dst_scheme, unit) eff"
  assumes fn_emits: "keeps (emits (\<lambda>e. \<not> mutating e \<or> power_request v e)) (fn v)"
    and fn_frame: "keeps same_ext (fn v)"
    and fn_proper: "proper (fn v)"
begin

lemma withVM_proper: "proper (withVM P fn)"
  unfolding withVM_def by (intro properI fn_proper)

lemma withVM_frame: "keeps same_ext (withVM P fn)"
  unfolding withVM_def by (intro keepsI fn_frame)

text \<open>Every request that changes the cluster is about the VM that the lookup found.\<close>

lemma withVM_requests:
  assumes run: "withVM P fn s = Some (r, s')"
  shows "emits (\<lambda>e. \<not> mutating e \<or> (\<exists>c v t. lookupVM P c s = Some (Ok (Some v), t) \<and> power_request v e)) s s'"
proof -
  let ?A = "\<lambda>e. \<not> mutating e \<or> (\<exists>c v t. lookupVM P c s = Some (Ok (Some v), t) \<and> power_request v e)"
  have look: "keeps (emits ?A) (lookupVM P c)" for c by (intro keepsI) simp_all
  from run show ?thesis unfolding withVM_def
  proof (cases rule: bindE_SomeE)
    case (ok c u)
    then have u: "u = s" by simp
    from ok(2) show ?thesis unfolding u
    proof (cases rule: bindE_SomeE)
      case found: (ok f t)
      have "emits ?A t s'"
      proof (cases f)
        case None
        with found(2) show ?thesis by (simp add: bindE_def getsE_def errE_def emits.R_refl)
      next
        case (Some v)
        with found(2) have "emits (\<lambda>e. \<not> mutating e \<or> power_request v e) t s'"
          using keepsD [OF fn_emits] by auto
        then show ?thesis by (rule emits_mono) (use found(1) Some in blast)
      qed
      with keepsD [OF look found(1)] show ?thesis by (rule emits.R_trans)
    qed (auto dest: keepsD [OF look])
  qed (simp_all add: emits.R_refl)
qed

lemma withVM_summary:
  "\<exists>r s'. withVM P fn s = Some (r, s') \<and> (\<forall>p. r \<noteq> Panic p) \<and> drv s' = drv s
     \<and> emits (\<lambda>e. \<not> mutating e \<or> (\<exists>c v t. lookupVM P c s = Some (Ok (Some v), t) \<and> power_request v e)) s s'
     \<and> (VMID (drv s) \<noteq> 0
        \<or> emits (\<lambda>e. \<not> mutating e \<or> (\<exists>v. px_has_tag P v MachineTag \<and> power_request v e)) s s')"
proof -
  obtain r s' where run: "withVM P fn s = Some (r, s')" and np: "\<forall>p. r \<noteq> Panic p"
    using withVM_proper unfolding proper_def by blast
  have "emits (\<lambda>e. \<not> mutating e \<or> (\<exists>v. px_has_tag P v MachineTag \<and> power_request v e)) s s'"
    if "VMID (drv s) = 0"
  proof (rule emits_mono [OF withVM_requests [OF run]])
    have owned: "px_has_tag P v MachineTag" if "lookupVM P c s = Some (Ok (Some v), t)" for c v t
      using that \<open>VMID (drv s) = 0\<close> by_tag.found_owned by (auto simp: lookupVM_eq lookup_vm_by_tag)
    show "\<not> mutating e \<or> (\<exists>v. px_has_tag P v MachineTag \<and> power_request v e)"
      if "\<not> mutating e \<or> (\<exists>c v t. lookupVM P c s = Some (Ok (Some v), t) \<and> power_request v e)" for e
      using that owned by blast
  qed
  then have "VMID (drv s) \<noteq> 0
      \<or> emits (\<lambda>e. \<not> mutating e \<or> (\<exists>v. px_has_tag P v MachineTag \<and> power_request v e)) s s'"
    by blast
  moreover have "drv s' = drv s" by (rule same_ext_drv) (rule keepsD [OF withVM_frame run])
  ultimately show ?thesis using run np withVM_requests [OF run] by blast
qed

end

lemma keeps_stop_vm [keepsI]:
  "A (EShutdown v) \<Longrightarrow> A (EStop v) \<Longrightarrow> (\<And>u d. A (EWait u d)) \<Longrightarrow> keeps (emits A) (stop_vm P v)"
  "keeps same_ext (stop_vm P v)"
  unfolding stop_vm_def by (intro keepsI | simp)+

lemma proper_stop_vm [properI]: "proper (stop_vm P v)"
  unfolding stop_vm_def by (intro properI)

lemma keeps_reboot_vm [keepsI]:
  "A (EReboot v) \<Longrightarrow> (\<And>u d. A (EWait u d)) \<Longrightarrow> keeps (emits A) (reboot_vm P v)"
  "keeps same_ext (reboot_vm P v)"
  unfolding reboot_vm_def by (intro keepsI | simp)+

lemma proper_reboot_vm [properI]: "proper (reboot_vm P v)"
  unfolding reboot_vm_def by (intro properI)

interpretation start_action: vm_action P "StartVM P" for P
  by unfold_locales (intro keepsI properI | simp add: power_request_def)+

interpretation stop_action: vm_action P "stop_vm P" for P
  by unfold_locales (intro keepsI properI | simp add: power_request_def)+

interpretation kill_action: vm_action P "StopVM P" for P
  by unfold_locales (intro keepsI properI | simp add: power_request_def)+

interpretation restart_action: vm_action P "reboot_vm P" for P
  by unfold_locales (intro keepsI properI | simp add: power_request_def)+


section \<open>Properties\<close>

text \<open>
  C21. Start, Stop, Kill and Restart always return without a panic, leave the driver's fields
  alone, and every request they make to change the cluster is a power request for the VM that
  the lookup found; with no persisted VMID that VM carries the ownership tag.
\<close>

theorem power_operations_target:
  assumes "op \<in> {Start P, Stop P, Kill P, Restart P}"
  shows "\<exists>r s'. op s = Some (r, s') \<and> (\<forall>p. r \<noteq> Panic p) \<and> drv s' = drv s
     \<and> emits (\<lambda>e. \<not> mutating e \<or> (\<exists>c v t. lookupVM P c s = Some (Ok (Some v), t) \<and> power_request v e)) s s'
     \<and> (VMID (drv s) \<noteq> 0
        \<or> emits (\<lambda>e. \<not> mutating e \<or> (\<exists>v. px_has_tag P v MachineTag \<and> power_request v e)) s s')"
  using assms start_action.withVM_summary [of P s] stop_action.withVM_summary [of P s]
    kill_action.withVM_summary [of P s] restart_action.withVM_summary [of P s]
  unfolding Start_def Stop_def Kill_def Restart_def by blast

theorem power_operations_target_witness:
  "\<exists>r s'. Kill sim named_dst = Some (r, s')
     \<and> emits (\<lambda>e. \<not> mutating e \<or> (\<exists>v. px_has_tag sim v MachineTag \<and> power_request v e)) named_dst s'"
proof -
  have "Kill sim \<in> {Start sim, Stop sim, Kill sim, Restart sim}" by simp
  moreover have "VMID (drv named_dst) = 0" by code_simp
  ultimately show ?thesis using power_operations_target [of "Kill sim" sim named_dst] by auto
qed

lemma withVM_found:
  "client_of P (drv s) = Ok c \<Longrightarrow> lookupVM P c s = Some (Ok (Some v), t) \<Longrightarrow> withVM P fn s = fn v t"
  by (simp add: withVM_def the_client_def bindE_def getsE_def liftE_def)

text \<open>
  C40. With a persisted VMID, Stop looks at nothing but the identifier: it sends a shutdown
  request to whatever VM the lookup finds under it, with or without the ownership tag, and
  forces a stop when the shutdown fails.
\<close>

theorem Stop_unguarded:
  assumes "client_of P (drv s) = Ok c" and "lookupVM P c s = Some (Ok (Some v), t)"
  shows "\<exists>r s' evs. Stop P s = Some (r, s') \<and> trace s' = trace t @ EShutdown v # evs
    \<and> (r = (case ShutdownVM P v gracefulShutdownTimeout t of
              Some (Err e, u) \<Rightarrow> (case StopVM P v u of Some (q, u') \<Rightarrow> q | None \<Rightarrow> r)
            | _ \<Rightarrow> Ok ()))"
proof -
  have stop: "Stop P s = stop_vm P v t" unfolding Stop_def by (rule withVM_found [OF assms])
  have shut: "proper (ShutdownVM P v gracefulShutdownTimeout)" by (intro properI)
  show ?thesis
  proof (cases rule: properE [OF shut, of t, case_names ok err])
    case (ok x u)
    from shutdown.op_trace [OF ok] obtain ws where "trace u = trace t @ EShutdown v # ws" by blast
    with ok stop show ?thesis by (simp add: stop_vm_def bindE_def attemptE_def okE_def)
  next
    case (err e u)
    obtain q u' where q: "StopVM P v u = Some (q, u')" using stop.op_proper unfolding proper_def by blast
    from shutdown.op_trace [OF err] obtain ws where "trace u = trace t @ EShutdown v # ws" by blast
    moreover from stop.op_trace [OF q] obtain ws' where "trace u' = trace u @ EStop v # ws'" by blast
    ultimately show ?thesis using err q stop by (simp add: stop_vm_def bindE_def attemptE_def)
  qed
qed

lemma foreign_client: obtains c where "client_of sim (drv foreign_dst) = Ok c"
  by (cases rule: client_of_cases [of sim "drv foreign_dst"])
     (simp_all add: foreign_dst_def dst_with_def drv0_def SetConfigFromFlags_def Let_def set_defaults_def
        read_options_def client_of_def New_def opts0_def flag_names)

lemma foreign_lookup: "\<exists>t. lookupVM sim c foreign_dst = Some (Ok (Some other_vm), t)"
  by (rule run_ends) (simp add: lookupVM_eq lookup_vm_def foreign_dst_def dst_with_def GetVM_def bindE_def
      mapErrE_def callE_def attemptE_def okE_def sim_def sim0_def of_sum_def other_vm_id)

theorem Stop_unguarded_witness:
  "\<exists>r s' pre evs. Stop sim foreign_dst = Some (r, s') \<and> trace s' = pre @ EShutdown other_vm # evs
     \<and> \<not> px_has_tag sim other_vm MachineTag"
proof -
  obtain c where c: "client_of sim (drv foreign_dst) = Ok c" by (rule foreign_client)
  obtain t where t: "lookupVM sim c foreign_dst = Some (Ok (Some other_vm), t)" using foreign_lookup by blast
  have "\<not> px_has_tag sim other_vm MachineTag" by code_simp
  with Stop_unguarded [OF c t] show ?thesis by blast
qed

text \<open>
  C28. \<open>GetState\<close> always returns a state, only reads, and each state has exactly its cause: none
  without a client, the error state for a failed lookup or an unknown status, not found when the
  lookup finds no VM; starting for a running VM that is still locked by a clone, else running;
  stopped and paused as PVE says. The first two come with the error, the others without one.
\<close>

theorem GetState_spec:
  "\<exists>st err s'. GetState P s = Some (Ok (st, err), s') \<and> emits reading s s' \<and> drv s' = drv s
     \<and> (st = SNotFound) = (\<exists>c. client_of P (drv s) = Ok c \<and> lookupVM P c s = Some (Ok None, s'))
     \<and> (st = SNone) = (\<exists>e. client_of P (drv s) = Err e \<and> err = Some e)
     \<and> (st = SError) = (\<exists>c. client_of P (drv s) = Ok c \<and>
          ((\<exists>e. lookupVM P c s = Some (Err e, s') \<and> err = Some e)
           \<or> (\<exists>v. lookupVM P c s = Some (Ok (Some v), s') \<and> vm_status v \<notin> {''running'', ''stopped'', ''paused''}
                \<and> err = Some (ErrorString (''unknown PVE VM status '' @ quote (vm_status v))))))
     \<and> (err = None) = (st \<notin> {SNone, SError})
     \<and> (st = SRunning) = (\<exists>c v. client_of P (drv s) = Ok c \<and> lookupVM P c s = Some (Ok (Some v), s')
          \<and> vm_status v = ''running'' \<and> vm_lock v \<noteq> ''clone'')
     \<and> (st = SStarting) = (\<exists>c v. client_of P (drv s) = Ok c \<and> lookupVM P c s = Some (Ok (Some v), s')
          \<and> vm_status v = ''running'' \<and> vm_lock v = ''clone'')
     \<and> (st = SStopped) = (\<exists>c v. client_of P (drv s) = Ok c \<and> lookupVM P c s = Some (Ok (Some v), s')
          \<and> vm_status v = ''stopped'')
     \<and> (st = SPaused) = (\<exists>c v. client_of P (drv s) = Ok c \<and> lookupVM P c s = Some (Ok (Some v), s')
          \<and> vm_status v = ''paused'')"
proof (cases rule: client_of_cases [of P "drv s"])
  case (err e)
  then have "GetState P s = Some (Ok (SNone, Some e), s)"
    by (simp add: GetState_def the_client_def bindE_def attemptE_def getsE_def liftE_def okE_def)
  with err show ?thesis by (simp add: emits.R_refl)
next
  case (ok c)
  then have st: "GetState P s = bindE (attemptE (lookupVM P c)) (\<lambda>res. case res of
               Inl err \<Rightarrow> okE (SError, Some err)
             | Inr found \<Rightarrow> (case found of None \<Rightarrow> okE (SNotFound, None) | Some v \<Rightarrow> okE (vm_state v))) s"
    by (simp add: GetState_def the_client_def bindE_def attemptE_def getsE_def liftE_def)
  have look: "proper (lookupVM P c)" by (intro properI)
  have em: "keeps (emits reading) (lookupVM P c)" by (intro keepsI) simp_all
  show ?thesis
  proof (cases rule: properE [OF look, of s, case_names found err])
    case (err e t)
    from err st have "GetState P s = Some (Ok (SError, Some e), t)"
      by (simp add: bindE_def attemptE_def okE_def)
    with ok err keepsD [OF em err] same_ext_drv [OF keepsD [OF keeps_lookupVM(2) err]] show ?thesis by simp
  next
    case (found f t)
    show ?thesis
    proof (cases f)
      case None
      with found st have "GetState P s = Some (Ok (SNotFound, None), t)"
        by (simp add: bindE_def attemptE_def okE_def)
      with ok found None keepsD [OF em found] same_ext_drv [OF keepsD [OF keeps_lookupVM(2) found]]
      show ?thesis by simp
    next
      case (Some v)
      with found st have "GetState P s = Some (Ok (vm_state v), t)"
        by (simp add: bindE_def attemptE_def okE_def)
      with ok found Some keepsD [OF em found] same_ext_drv [OF keepsD [OF keeps_lookupVM(2) found]]
      show ?thesis by (cases "vm_state v") (auto simp: vm_state_def split: if_splits)
    qed
  qed
qed

section \<open>The address\<close>

lemma keeps_QueryAgentIP [keepsI]:
  "A (EAgent v) \<Longrightarrow> keeps (emits A) (QueryAgentIP P v)"
  "keeps same_ext (QueryAgentIP P v)"
  unfolding QueryAgentIP_def by (intro keepsI | simp)+

lemma QueryAgentIP_returns: "\<exists>r s'. QueryAgentIP P v s = Some (r, s')"
  by (auto simp: QueryAgentIP_def bindE_def liftE_def callE_def Let_def okE_def errE_def
      split: go.split prod.split)

lemma keeps_cached_ip [keepsI]: "keeps (emits A) cached_ip" "keeps same_ext cached_ip"
  unfolding cached_ip_def by (intro keepsI)+

lemma cached_ip_eq:
  "cached_ip s = Some (r, s') \<longleftrightarrow> s' = s \<and>
     (if IPAddress (drv s) \<noteq> [] then r = Ok (IPAddress (drv s))
      else r = Err (ErrorString (''no IP address known for machine '' @ quote (MachineName (drv s)) @ '' yet'')))"
  by (auto simp: cached_ip_def bindE_def getsE_def)

lemma keeps_GetIP: "keeps (emits (\<lambda>e. reading e \<or> is_agent e)) (GetIP P)"
  unfolding GetIP_def by (intro keepsI) simp_all

text \<open>
  What the guest agent of a VM reports in a world: the first usable IPv4 address on the
  interface with the MAC of \<open>net0\<close>, or nothing, also when the MAC or the agent cannot be read.
\<close>

definition reported :: "'w px \<Rightarrow> vm \<Rightarrow> 'w \<Rightarrow> string" where
  "reported P v w =
     (case vm_config v of
        None \<Rightarrow> []
      | Some cfg \<Rightarrow>
          (case NICMAC (Some cfg) ''net0'' of
             Ok mac \<Rightarrow> (case fst (px_agent P v w) of Inl e \<Rightarrow> [] | Inr ifaces \<Rightarrow> pickIPv4 ifaces mac)
           | Err e \<Rightarrow> []
           | Panic p \<Rightarrow> []))"

lemma QueryAgentIP_reported:
  assumes q: "QueryAgentIP P v t = Some (q, u)" and cfg: "vm_config v = Some cfg"
  shows "if reported P v (world t) \<noteq> []
    then q = Ok (reported P v (world t)) \<and> trace u = trace t @ [EAgent v]
    else \<exists>e. q = Err e"
proof (cases "NICMAC (Some cfg) ''net0''")
  case (Ok mac)
  obtain a w where a: "px_agent P v (world t) = (a, w)" by (cases "px_agent P v (world t)")
  with q cfg Ok show ?thesis
    by (cases a) (auto simp: QueryAgentIP_def reported_def bindE_def liftE_def callE_def Let_def okE_def errE_def)
next
  case (Err e)
  have "QueryAgentIP P v t = Some (Err e, t)" using cfg Err by (simp add: QueryAgentIP_def bindE_def liftE_def)
  with q have "q = Err e" by simp
  moreover have "reported P v (world t) = []" using cfg Err by (simp add: reported_def)
  ultimately show ?thesis by simp
next
  case (Panic p)
  then show ?thesis by (simp add: NICMAC_def split: option.splits if_splits)
qed

lemma QueryAgentIP_no_config: "QueryAgentIP P v t = Some (q, u) \<Longrightarrow> vm_config v = None \<Longrightarrow> \<exists>p. q = Panic p"
  by (auto simp: QueryAgentIP_def bindE_def liftE_def NICMAC_def)

text \<open>The answer from what the driver remembers, which stays as it is.\<close>

definition last_known :: "drv \<Rightarrow> string go \<Rightarrow> drv \<Rightarrow> bool" where
  "last_known d r d' \<longleftrightarrow> d' = d \<and>
     r = (if IPAddress d \<noteq> [] then Ok (IPAddress d)
          else Err (ErrorString (''no IP address known for machine '' @ quote (MachineName d) @ '' yet'')))"

lemma cached_ip_last_known:
  "drv t = drv s \<Longrightarrow> \<exists>r s'. cached_ip t = Some (r, s') \<and> last_known (drv s) r (drv s')"
  for s t :: "('w, 'x) dst_scheme"
  by (cases "IPAddress (drv s) = []") (simp_all add: cached_ip_eq last_known_def)

text \<open>What follows a lookup that found a VM, and what \<open>GetIP\<close> does with a client.\<close>

definition agent_answer :: "'w px \<Rightarrow> vm \<Rightarrow> drv \<Rightarrow> ('w, 'x) dst_scheme \<Rightarrow> string go \<Rightarrow> ('w, 'x) dst_scheme \<Rightarrow> bool" where
  "agent_answer P v d t r s' \<longleftrightarrow>
     (if vm_config v = None then (\<exists>p. r = Panic p) \<and> drv s' = d
      else if reported P v (world t) \<noteq> []
      then r = Ok (reported P v (world t)) \<and> drv s' = d\<lparr>IPAddress := reported P v (world t)\<rparr>
        \<and> trace s' = trace t @ [EAgent v]
      else last_known d r (drv s'))"

lemma GetIP_after_found:
  fixes t :: "('w, 'x) dst_scheme"
  shows "\<exists>r s'. bindE (attemptE (QueryAgentIP P v)) (\<lambda>q. case q of
        Inl qerr \<Rightarrow> cached_ip
      | Inr ip \<Rightarrow> bindE (modifyE (drv_update (\<lambda>d. d\<lparr>IPAddress := ip\<rparr>))) (\<lambda>_. okE ip)) t = Some (r, s')
    \<and> agent_answer P v (drv t) t r s'"
proof -
  obtain q u where q: "QueryAgentIP P v t = Some (q, u)" using QueryAgentIP_returns by blast
  have u: "drv u = drv t" by (rule same_ext_drv) (rule keepsD [OF keeps_QueryAgentIP(2) q])
  show ?thesis
  proof (cases "vm_config v")
    case None
    from QueryAgentIP_no_config [OF q None] obtain p where "q = Panic p" by blast
    with q u None show ?thesis by (simp add: bindE_def attemptE_def agent_answer_def)
  next
    case cfg: (Some cfg)
    note rep = QueryAgentIP_reported [OF q cfg]
    show ?thesis
    proof (cases "reported P v (world t) = []")
      case False
      with rep q u cfg show ?thesis
        by (simp add: bindE_def attemptE_def modifyE_def okE_def agent_answer_def)
    next
      case True
      with rep obtain e where "q = Err e" by auto
      with q cached_ip_last_known [OF u] cfg True show ?thesis
        by (simp add: bindE_def attemptE_def agent_answer_def)
    qed
  qed
qed

lemma GetIP_with_client:
  fixes s :: "('w, 'x) dst_scheme"
  assumes "client_of P (drv s) = Ok c"
  shows "\<exists>r s' found (t :: ('w, 'x) dst_scheme). GetIP P s = Some (r, s') \<and> lookupVM P c s = Some (found, t) \<and>
    (case found of
       Ok (Some v) \<Rightarrow> agent_answer P v (drv s) t r s'
     | Ok None \<Rightarrow> last_known (drv s) r (drv s')
     | Err e \<Rightarrow> last_known (drv s) r (drv s')
     | Panic p \<Rightarrow> False)"
proof -
  have ip: "GetIP P s = bindE (attemptE (lookupVM P c)) (\<lambda>res. case res of
         Inl err \<Rightarrow> cached_ip
       | Inr found \<Rightarrow>
           (case found of
              None \<Rightarrow> cached_ip
            | Some v \<Rightarrow>
                bindE (attemptE (QueryAgentIP P v)) (\<lambda>q. case q of
                    Inl qerr \<Rightarrow> cached_ip
                  | Inr ip \<Rightarrow>
                      bindE (modifyE (drv_update (\<lambda>d. d\<lparr>IPAddress := ip\<rparr>))) (\<lambda>_. okE ip)))) s"
    using assms by (simp add: GetIP_def the_client_def bindE_def getsE_def liftE_def)
  have look: "proper (lookupVM P c)" by (intro properI)
  show ?thesis
  proof (cases rule: properE [OF look, of s, case_names found err])
    case (err e t)
    have "GetIP P s = cached_ip t" using err ip by (simp add: bindE_def attemptE_def)
    with cached_ip_last_known [OF same_ext_drv [OF keepsD [OF keeps_lookupVM(2) err]]] err
    show ?thesis by simp
  next
    case (found f t)
    note t = same_ext_drv [OF keepsD [OF keeps_lookupVM(2) found]]
    show ?thesis
    proof (cases f)
      case None
      then have "GetIP P s = cached_ip t" using found ip by (simp add: bindE_def attemptE_def)
      with cached_ip_last_known [OF t] found None show ?thesis by simp
    next
      case (Some v)
      from GetIP_after_found [of P v t] obtain r s' where
        "bindE (attemptE (QueryAgentIP P v)) (\<lambda>q. case q of
            Inl qerr \<Rightarrow> cached_ip
          | Inr ip \<Rightarrow> bindE (modifyE (drv_update (\<lambda>d. d\<lparr>IPAddress := ip\<rparr>))) (\<lambda>_. okE ip)) t = Some (r, s')"
        and ans: "agent_answer P v (drv t) t r s'" by blast
      then have "GetIP P s = Some (r, s')"
        unfolding ip using found Some by (simp add: bindE_def [of "attemptE (lookupVM P c)"] attemptE_def [of "lookupVM P c"])
      with found Some ans t show ?thesis by simp
    qed
  qed
qed

text \<open>
  C29. \<open>GetIP\<close> asks the agent of the looked-up VM: a usable address that it reports for the MAC
  of \<open>net0\<close> is the result and is remembered. In every other case, whether no VM is found, the
  lookup fails, or the agent reports nothing, the result is the last known address, or the
  error that none is known, and nothing is forgotten. Without a client it fails; on a VM without a
  configuration it panics. It only reads.
\<close>

theorem GetIP_spec:
  fixes s :: "('w, 'x) dst_scheme"
  shows "\<exists>r s'. GetIP P s = Some (r, s') \<and> emits (\<lambda>e. reading e \<or> is_agent e) s s'
    \<and> (case client_of P (drv s) of
         Err e \<Rightarrow> r = Err e \<and> s' = s
       | Panic p \<Rightarrow> False
       | Ok c \<Rightarrow> \<exists>found (t :: ('w, 'x) dst_scheme). lookupVM P c s = Some (found, t) \<and>
           (case found of
              Ok (Some v) \<Rightarrow>
                if vm_config v = None then (\<exists>p. r = Panic p) \<and> drv s' = drv s
                else if reported P v (world t) \<noteq> []
                then r = Ok (reported P v (world t)) \<and> drv s' = (drv s)\<lparr>IPAddress := reported P v (world t)\<rparr>
                  \<and> trace s' = trace t @ [EAgent v]
                else last_known (drv s) r (drv s')
            | Ok None \<Rightarrow> last_known (drv s) r (drv s')
            | Err e \<Rightarrow> last_known (drv s) r (drv s')
            | Panic p \<Rightarrow> False))"
proof (cases rule: client_of_cases [of P "drv s"])
  case (err e)
  then have "GetIP P s = Some (Err e, s)"
    by (simp add: GetIP_def the_client_def bindE_def getsE_def liftE_def)
  with err show ?thesis by (simp add: emits.R_refl)
next
  case (ok c)
  from GetIP_with_client [OF ok] obtain r s' found t where run: "GetIP P s = Some (r, s')"
    and post: "lookupVM P c s = Some (found, t)" "case found of
       Ok (Some v) \<Rightarrow> agent_answer P v (drv s) t r s'
     | Ok None \<Rightarrow> last_known (drv s) r (drv s')
     | Err e \<Rightarrow> last_known (drv s) r (drv s')
     | Panic p \<Rightarrow> False" by blast
  from keepsD [OF keeps_GetIP run] run post show ?thesis unfolding ok go.case agent_answer_def by blast
qed

end
