(* ===== verification/Creation.thy ===== *)
theory Creation
  imports Lifecycle
begin

text \<open>
  \<open>Create\<close>, \<open>pkg/driver/create.go\<close>: clone, configure, start, wait for the address, and remove the
  half-created VM when a step after the clone fails.
\<close>

section \<open>Operations\<close>

definition boolToInt :: "bool \<Rightarrow> int" where
  "boolToInt b = (if b then 1 else 0)"

definition int_opt :: "string \<Rightarrow> int \<Rightarrow> vm_option" where
  "int_opt name val = \<lparr>opt_name = name, opt_value = VInt val\<rparr>"

definition str_opt :: "string \<Rightarrow> string \<Rightarrow> vm_option" where
  "str_opt name val = \<lparr>opt_name = name, opt_value = VStr val\<rparr>"

definition net0_value :: "drv \<Rightarrow> string" where
  "net0_value d = ''virtio,bridge='' @ Bridge d @ (if VLANTag d > 0 then '',tag='' @ itoa (VLANTag d) else [])"

definition provision_options :: "'w px \<Rightarrow> drv \<Rightarrow> string \<Rightarrow> vm_option list" where
  "provision_options P d pubKey =
     [int_opt ''cores'' (Cores d),
      int_opt ''memory'' (MemoryMB d),
      str_opt ''agent'' ''1'',
      int_opt ''onboot'' (boolToInt (OnBoot d)),
      str_opt ''ciuser'' (bd_ssh_username P (SSHUser d)),
      str_opt ''sshkeys'' (px_encode_ssh_keys P pubKey),
      str_opt ''ipconfig0'' ''ip=dhcp'']
     @ (if CPUType d \<noteq> [] then [str_opt ''cpu'' (CPUType d)] else [])
     @ (if CIPassword d \<noteq> [] then [str_opt ''cipassword'' (CIPassword d)] else [])
     @ (if Nameserver d \<noteq> [] then [str_opt ''nameserver'' (Nameserver d)] else [])
     @ (if Searchdomain d \<noteq> [] then [str_opt ''searchdomain'' (Searchdomain d)] else [])
     @ (if Bridge d \<noteq> [] then [str_opt ''net0'' (net0_value d)] else [])"

definition grow_disk :: "'w px \<Rightarrow> vm \<Rightarrow> placement \<Rightarrow> drv \<Rightarrow> (('w, 'x) st_scheme, unit) eff" where
  "grow_disk P v place d =
     (if DiskSizeGB d > pl_TemplateGB place
      then ResizeVMDisk P v (pl_BootDiskKey place) (DiskSizeGB d) else okE ())"

definition provision ::
  "'w px \<Rightarrow> vm \<Rightarrow> placement \<Rightarrow> string \<Rightarrow> (('w, 'x) dst_scheme, unit) eff" where
  "provision P v place pubKey =
     bindE (getsE drv) (\<lambda>d.
     bindE (ApplyConfig P v (provision_options P d pubKey)) (\<lambda>_.
     bindE (grow_disk P v place d) (\<lambda>_.
     bindE (StartVM P v) (\<lambda>_.
     bindE (mapErrE (wrapw (''refreshing VM '' @ itoa (VMID d) @ '' config: '') [])
              (callE (EPing v) (px_ping P v))) (\<lambda>v'.
     bindE (WaitForIP P v' (SSHPort d) (wrap64 (AgentTimeout d * second))) (\<lambda>ip.
       modifyE (drv_update (\<lambda>d. d\<lparr>IPAddress := ip\<rparr>))))))))"

definition machine_tags :: "drv \<Rightarrow> string list" where
  "machine_tags d =
     [MachineTag] @
     (if ExtraTags d \<noteq> []
      then filter (\<lambda>tag. tag \<noteq> []) (map trim_space (split (CHR '','') (ExtraTags d))) else [])"

definition create_spec :: "drv \<Rightarrow> int \<Rightarrow> int \<Rightarrow> CloneSpec" where
  "create_spec d lo hi =
     \<lparr>cs_Name = MachineName d, cs_TargetNode = NodeName d, cs_Storage = Storage d,
      cs_Linked = LinkedClone d, cs_Pool = ResourcePool d, cs_VMIDLo = lo, cs_VMIDHi = hi,
      cs_Tags = machine_tags d\<rparr>"

definition key_path :: "'w px \<Rightarrow> drv \<Rightarrow> (('w, 'x) dst_scheme, string) eff" where
  "key_path P d = quietE (bd_ssh_key_path P (StorePath d) (MachineName d))"

text \<open>Everything before the clone: the key, the placement and the identifier range.\<close>

definition prepare :: "'w px \<Rightarrow> client \<Rightarrow> (('w, 'x) dst_scheme, string \<times> placement \<times> int \<times> int) eff" where
  "prepare P c =
     bindE (getsE drv) (\<lambda>d.
     bindE (key_path P d) (\<lambda>path.
     bindE (mapErrE (wrapw ''generating SSH key: '' []) (callE (EKeyGen path) (rt_keygen P path))) (\<lambda>_.
     bindE (key_path P d) (\<lambda>path.
     bindE (mapErrE (wrapw ''reading generated SSH public key: '' [])
              (callE (EReadFile (path @ ''.pub'')) (rt_read_file P (path @ ''.pub'')))) (\<lambda>pub.
     bindE (resolvePlacement P c) (\<lambda>place.
     bindE (liftE (parseVMIDRange (VMIDRange d))) (\<lambda>(lo, hi). okE (pub, place, lo, hi))))))))"

definition cleanup_failed :: "goerr \<Rightarrow> goerr \<Rightarrow> int \<Rightarrow> goerr" where
  "cleanup_failed err cerr vmid =
     wrapw [] ('' (cleanup also failed: '' @ err_text cerr @ '' '' @ dash @ '' delete VM '' @ itoa vmid
       @ '' manually in PVE)'') err"

text \<open>What follows the clone: the fields are set, the VM is provisioned, or removed again.\<close>

definition remove_half_created :: "'w px \<Rightarrow> goerr \<Rightarrow> (('w, 'x) dst_scheme, unit) eff" where
  "remove_half_created P err =
     bindE (attemptE (Remove P)) (\<lambda>cres. case cres of
         Inl cerr \<Rightarrow> bindE (getsE drv) (\<lambda>d. errE (cleanup_failed err cerr (VMID d)))
       | Inr u \<Rightarrow> errE err)"

definition finish_create ::
  "'w px \<Rightarrow> vm \<Rightarrow> placement \<Rightarrow> string \<Rightarrow> (('w, 'x) dst_scheme, unit) eff" where
  "finish_create P v place pub =
     bindE (modifyE (drv_update (\<lambda>d. d\<lparr>VMID := vm_id v, PVENode := pl_TargetNode place\<rparr>))) (\<lambda>_.
     bindE (attemptE (provision P v place (trim_space pub))) (\<lambda>res. case res of
         Inr u \<Rightarrow> okE ()
       | Inl err \<Rightarrow>
           bindE (getsE drv) (\<lambda>d.
             if KeepOnFailure d then errE err else remove_half_created P err)))"

definition Create :: "'w px \<Rightarrow> (('w, 'x) dst_scheme, unit) eff" where
  "Create P =
     bindE (the_client P) (\<lambda>c.
     bindE (prepare P c) (\<lambda>(pub, place, lo, hi).
     bindE (getsE drv) (\<lambda>d.
     bindE (CloneFromTemplate P c (pl_Template place) (create_spec d lo hi)) (\<lambda>v.
       finish_create P v place pub))))"

section \<open>Frame, trace and totality\<close>

lemma keeps_grow_disk [keepsI]:
  "A (EResize v (pl_BootDiskKey place) (itoa (DiskSizeGB d) @ ''G'')) \<Longrightarrow> (\<And>u d. A (EWait u d)) \<Longrightarrow>
   keeps (emits A) (grow_disk P v place d)"
  "keeps same_ext (grow_disk P v place d)"
  unfolding grow_disk_def by (intro keepsI | simp)+

lemma proper_grow_disk [properI]: "proper (grow_disk P v place d)"
  unfolding grow_disk_def by (intro properI)

text \<open>Before the clone nothing is changed, on the cluster or in the driver.\<close>

lemma keeps_key_path [keepsI]:
  "keeps (emits A) (key_path P d)" "keeps same_ext (key_path P d)"
  unfolding key_path_def by (intro keepsI)+

lemma proper_key_path [properI]: "proper (key_path P d)"
  unfolding key_path_def by (rule proper_quietE)

lemma keeps_prepare [keepsI]:
  "(\<And>e. \<not> mutating e \<Longrightarrow> A e) \<Longrightarrow> keeps (emits A) (prepare P c)"
  "keeps same_ext (prepare P c)"
  unfolding prepare_def by (intro keepsI | simp add: reading_not_mutating)+

lemma ensures_prepare: "ensures (prepare P c) (\<lambda>(pub, place, lo, hi). vmid_range_ok lo hi)"
  by (auto simp: ensures_def prepare_def elim!: bindE_OkE dest: config_valid_range)

lemma prepare_Ok:
  assumes "prepare P c s = Some (Ok (pub, place, lo, hi), t)"
  shows "drv t = drv s \<and> parseVMIDRange (VMIDRange (drv s)) = Ok (lo, hi)
    \<and> (\<exists>u. resolvePlacement P c u = Some (Ok place, t) \<and> drv u = drv s)"
proof -
  from assms obtain p1 s1 a s2 p2 s3 k u where p: "key_path P (drv s) s = Some (Ok p1, s1)"
      "key_path P (drv s) s2 = Some (Ok p2, s3)"
    and a: "mapErrE (wrapw ''generating SSH key: '' []) (callE (EKeyGen p1) (rt_keygen P p1)) s1 = Some (Ok a, s2)"
    and k: "mapErrE (wrapw ''reading generated SSH public key: '' [])
       (callE (EReadFile (p2 @ ''.pub'')) (rt_read_file P (p2 @ ''.pub''))) s3 = Some (Ok k, u)"
    and rest: "resolvePlacement P c u = Some (Ok place, t)" "parseVMIDRange (VMIDRange (drv s)) = Ok (lo, hi)"
    unfolding prepare_def by (auto elim!: bindE_OkE)
  have call: "keeps same_ext (mapErrE g (callE ev f))" for g ev and f :: "'a \<Rightarrow> (goerr + 'c) \<times> 'a"
    by (intro keepsI)
  have "drv u = drv s"
    using same_ext_drv [OF keepsD [OF keeps_key_path(2) p(1)]] same_ext_drv [OF keepsD [OF call a]]
      same_ext_drv [OF keepsD [OF keeps_key_path(2) p(2)]] same_ext_drv [OF keepsD [OF call k]] by simp
  moreover have "drv t = drv s" by (rule same_ext_drv) (rule keepsD [OF keeps_prepare(2) assms])
  ultimately show ?thesis using rest by auto
qed

lemma keeps_modify_quiet: "emits A s (drv_update f s)"
  by (simp add: emits_def)


section \<open>The order of the provisioning steps\<close>

fun is_wait :: "event \<Rightarrow> bool" where
  "is_wait (EWait u d) = True"
| "is_wait _ = False"

lemma all_waits: "list_all (\<lambda>e. \<exists>u d. e = EWait u d) ws \<Longrightarrow> list_all is_wait ws"
  by (auto simp: list_all_iff)

lemma provision_Ok:
  fixes s s' :: "('w, 'x) dst_scheme"
  assumes "provision P v place pub s = Some (Ok (), s')"
  obtains t1 t2 t3 t4 v' ip u where
    "ApplyConfig P v (provision_options P (drv s) pub) s = Some (Ok (), t1)"
    "grow_disk P v place (drv s) t1 = Some (Ok (), t2)"
    "StartVM P v t2 = Some (Ok (), t3)"
    "trace t4 = trace t3 @ [EPing v]" "same_ext t3 t4"
    "WaitForIP P v' (SSHPort (drv s)) (wrap64 (AgentTimeout (drv s) * second)) t4 = Some (Ok ip, u)"
    "s' = drv_update (\<lambda>d. d\<lparr>IPAddress := ip\<rparr>) u"
proof -
  from assms obtain t1 t2 t3 t4 v' ip u where
    c: "ApplyConfig P v (provision_options P (drv s) pub) s = Some (Ok (), t1)"
    and g: "grow_disk P v place (drv s) t1 = Some (Ok (), t2)"
    and st: "StartVM P v t2 = Some (Ok (), t3)"
    and p: "callE (EPing v) (px_ping P v) t3 = Some (Ok v', t4)"
    and w: "WaitForIP P v' (SSHPort (drv s)) (wrap64 (AgentTimeout (drv s) * second)) t4 = Some (Ok ip, u)"
    and s': "s' = drv_update (\<lambda>d. d\<lparr>IPAddress := ip\<rparr>) u"
    unfolding provision_def by (auto elim!: bindE_OkE mapErrE_OkE)
  from p have "trace t4 = trace t3 @ [EPing v]" "same_ext t3 t4"
    by (auto elim!: callE_SomeE simp: same_ext_def)
  from that [OF c g st this w s'] show ?thesis .
qed

lemma keeps_provision:
  assumes "\<And>e. \<not> mutating e \<Longrightarrow> A e" and "\<And>opts. A (EConfig v opts)" and "\<And>disk n. A (EResize v disk n)"
    and "A (EStart v)"
  shows "keeps (emits A) (provision P v place pub)"
  unfolding provision_def using assms by (intro keepsI) simp_all

lemma provision_steps:
  fixes s s' :: "('w, 'x) dst_scheme"
  assumes "provision P v place pub s = Some (Ok (), s')"
  shows "\<exists>w1 w2 w3 w4 v' ip (t :: ('w, 'x) dst_scheme) u.
    trace s' = trace s @ [EConfig v (provision_options P (drv s) pub)] @ w1
      @ (if DiskSizeGB (drv s) > pl_TemplateGB place
         then [EResize v (pl_BootDiskKey place) (itoa (DiskSizeGB (drv s)) @ ''G'')] else [])
      @ w2 @ [EStart v] @ w3 @ [EPing v] @ w4
    \<and> list_all is_wait (w1 @ w2 @ w3) \<and> list_all (\<lambda>e. \<not> mutating e) w4
    \<and> WaitForIP P v' (SSHPort (drv s)) (wrap64 (AgentTimeout (drv s) * second)) t = Some (Ok ip, u)
    \<and> drv s' = (drv s)\<lparr>IPAddress := ip\<rparr>"
proof -
  from assms obtain t1 t2 t3 t4 v' ip u where
    c: "ApplyConfig P v (provision_options P (drv s) pub) s = Some (Ok (), t1)"
    and g: "grow_disk P v place (drv s) t1 = Some (Ok (), t2)"
    and st: "StartVM P v t2 = Some (Ok (), t3)"
    and p: "trace t4 = trace t3 @ [EPing v]" "same_ext t3 t4"
    and w: "WaitForIP P v' (SSHPort (drv s)) (wrap64 (AgentTimeout (drv s) * second)) t4 = Some (Ok ip, u)"
    and s': "s' = drv_update (\<lambda>d. d\<lparr>IPAddress := ip\<rparr>) u"
    by (rule provision_Ok)
  obtain w1 where w1: "trace t1 = trace s @ EConfig v (provision_options P (drv s) pub) # w1" "list_all is_wait w1"
    using config.op_trace [OF c] all_waits by blast
  obtain w2 where w2: "trace t2 = trace t1
      @ (if DiskSizeGB (drv s) > pl_TemplateGB place
         then [EResize v (pl_BootDiskKey place) (itoa (DiskSizeGB (drv s)) @ ''G'')] else []) @ w2"
    "list_all is_wait w2"
  proof (cases "DiskSizeGB (drv s) > pl_TemplateGB place")
    case True
    with g have "ResizeVMDisk P v (pl_BootDiskKey place) (DiskSizeGB (drv s)) t1 = Some (Ok (), t2)"
      by (simp add: grow_disk_def)
    from resize.op_trace [OF this] all_waits True that show ?thesis by auto
  next
    case False
    with g that [of "[]"] show ?thesis by (simp add: grow_disk_def)
  qed
  obtain w3 where w3: "trace t3 = trace t2 @ EStart v # w3" "list_all is_wait w3"
    using start.op_trace [OF st] all_waits by blast
  have "keeps (emits (\<lambda>e. \<not> mutating e)) (WaitForIP P v' (SSHPort (drv s)) (wrap64 (AgentTimeout (drv s) * second)))"
    by (intro keepsI) simp_all
  from keepsD [OF this w] obtain w4 where w4: "trace u = trace t4 @ w4" "list_all (\<lambda>e. \<not> mutating e) w4"
    by (auto simp: emits_def)
  have "keeps same_ext (grow_disk P v place (drv s))" by (intro keepsI)
  note frames = keepsD [OF config.op_frame c] keepsD [OF this g] keepsD [OF start.op_frame st] p(2)
    keepsD [OF keeps_WaitForIP(2) w]
  from frames have "same_ext s u" by (blast intro: frame.R_trans)
  then have "drv s' = (drv s)\<lparr>IPAddress := ip\<rparr>" using s' same_ext_drv by fastforce
  moreover have "trace s' = trace s @ [EConfig v (provision_options P (drv s) pub)] @ w1
      @ (if DiskSizeGB (drv s) > pl_TemplateGB place
         then [EResize v (pl_BootDiskKey place) (itoa (DiskSizeGB (drv s)) @ ''G'')] else [])
      @ w2 @ [EStart v] @ w3 @ [EPing v] @ w4"
    using s' w1(1) w2(1) w3(1) p(1) w4(1) by simp
  ultimately show ?thesis using w1(2) w2(2) w3(2) w4(2) w by (metis list_all_append)
qed

lemma provision_address:
  "provision P v place pub s = Some (Ok (), s') \<Longrightarrow> \<exists>ip. drv s' = (drv s)\<lparr>IPAddress := ip\<rparr>"
  using provision_steps by blast

text \<open>
  C6. A successful provisioning makes its requests in this order and no others that change the
  cluster: the configuration (with the cloud-init user, key and network), the disk resize if the
  disk must grow, the start, each followed by the wait for its task, then the refresh of the
  VM's data, and the wait for the address of the refreshed VM, which becomes the driver's
  address.
\<close>

theorem provision_order:
  fixes s s' :: "('w, 'x) dst_scheme"
  assumes "provision P v place pub s = Some (Ok (), s')"
  shows "\<exists>w1 w2 w3 w4 v' ip (t :: ('w, 'x) dst_scheme) u.
    trace s' = trace s @ [EConfig v (provision_options P (drv s) pub)] @ w1
      @ (if DiskSizeGB (drv s) > pl_TemplateGB place
         then [EResize v (pl_BootDiskKey place) (itoa (DiskSizeGB (drv s)) @ ''G'')] else [])
      @ w2 @ [EStart v] @ w3 @ [EPing v] @ w4
    \<and> list_all is_wait (w1 @ w2 @ w3) \<and> list_all (\<lambda>e. \<not> mutating e) w4
    \<and> WaitForIP P v' (SSHPort (drv s)) (wrap64 (AgentTimeout (drv s) * second)) t = Some (Ok ip, u)
    \<and> drv s' = (drv s)\<lparr>IPAddress := ip\<rparr>"
  using assms by (rule provision_steps)

section \<open>What Create leaves behind\<close>

lemma MachineTag_in_spec: "MachineTag \<in> set (cs_Tags (create_spec d lo hi))" "cs_Tags (create_spec d lo hi) \<noteq> []"
  by (simp_all add: create_spec_def machine_tags_def)

lemma finish_create_eq:
  "finish_create P v place pub s =
     (let t = drv_update (\<lambda>d. d\<lparr>VMID := vm_id v, PVENode := pl_TargetNode place\<rparr>) s in
      case provision P v place (trim_space pub) t of
        None \<Rightarrow> None
      | Some (r, u) \<Rightarrow>
          (case r of
             Ok x \<Rightarrow> Some (Ok (), u)
           | Err err \<Rightarrow> if KeepOnFailure (drv u) then Some (Err err, u) else remove_half_created P err u
           | Panic p \<Rightarrow> Some (Panic p, u)))"
  by (simp add: finish_create_def bindE_def modifyE_def attemptE_def getsE_def okE_def errE_def Let_def
      split: option.split go.split)



text \<open>
  How \<open>Create\<close> can fail, and what the failure leaves behind. \<open>ready\<close> is the state in front of the
  clone request, \<open>cloned\<close> the state in front of the provisioning of the VM that was cloned.
\<close>

definition ready ::
  "'w px \<Rightarrow> ('w, 'x) dst_scheme \<Rightarrow> client \<Rightarrow> placement \<Rightarrow> string \<Rightarrow> int \<Rightarrow> int \<Rightarrow> ('w, 'x) dst_scheme \<Rightarrow> bool" where
  "ready P s c place pub lo hi t \<longleftrightarrow>
     client_of P (drv s) = Ok c \<and> prepare P c s = Some (Ok (pub, place, lo, hi), t)"

definition cloned ::
  "'w px \<Rightarrow> ('w, 'x) dst_scheme \<Rightarrow> vm \<Rightarrow> placement \<Rightarrow> string \<Rightarrow> ('w, 'x) dst_scheme \<Rightarrow> bool" where
  "cloned P s v place pub u \<longleftrightarrow>
     (\<exists>c lo hi t b. ready P s c place pub lo hi t
        \<and> CloneFromTemplate P c (pl_Template place) (create_spec (drv s) lo hi) t = Some (Ok v, b)
        \<and> u = drv_update (\<lambda>d. d\<lparr>VMID := vm_id v, PVENode := pl_TargetNode place\<rparr>) b)"

inductive create_failed ::
  "'w px \<Rightarrow> ('w, 'x) dst_scheme \<Rightarrow> goerr \<Rightarrow> ('w, 'x) dst_scheme \<Rightarrow> bool"
  for P and s :: "('w, 'x) dst_scheme" where
  nothing_cloned: "emits (\<lambda>e. \<not> mutating e) s s' \<Longrightarrow> drv s' = drv s \<Longrightarrow> create_failed P s e s'"
| clone_failed: "ready P s c place pub lo hi t \<Longrightarrow>
     CloneFromTemplate P c (pl_Template place) (create_spec (drv s) lo hi) t = Some (Err e, s') \<Longrightarrow>
     drv s' = drv s \<Longrightarrow> create_failed P s e s'"
| kept: "cloned P s v place pub t \<Longrightarrow> provision P v place (trim_space pub) t = Some (Err e, s') \<Longrightarrow>
     VMID (drv s') = vm_id v \<Longrightarrow> KeepOnFailure (drv s) \<Longrightarrow> create_failed P s e s'"
| removed: "cloned P s v place pub t \<Longrightarrow> provision P v place (trim_space pub) t = Some (Err e, u) \<Longrightarrow>
     VMID (drv u) = vm_id v \<Longrightarrow> \<not> KeepOnFailure (drv s) \<Longrightarrow> Remove P u = Some (Ok (), s') \<Longrightarrow>
     create_failed P s e s'"
| cleanup: "cloned P s v place pub t \<Longrightarrow> provision P v place (trim_space pub) t = Some (Err err, u) \<Longrightarrow>
     VMID (drv u) = vm_id v \<Longrightarrow> \<not> KeepOnFailure (drv s) \<Longrightarrow> Remove P u = Some (Err cerr, s') \<Longrightarrow>
     e = cleanup_failed err cerr (vm_id v) \<Longrightarrow> create_failed P s e s'"

lemma provision_frame:
  assumes "provision P v place pub s = Some (r, s')" and r: "r \<noteq> Ok ()"
  shows "drv s' = drv s"
proof -
  let ?rest = "\<lambda>d. bindE (ApplyConfig P v (provision_options P d pub)) (\<lambda>_.
     bindE (grow_disk P v place d) (\<lambda>_.
     bindE (StartVM P v) (\<lambda>_.
     bindE (mapErrE (wrapw (''refreshing VM '' @ itoa (VMID d) @ '' config: '') [])
              (callE (EPing v) (px_ping P v))) (\<lambda>v'.
     WaitForIP P v' (SSHPort d) (wrap64 (AgentTimeout d * second))))))"
  have "provision P v place pub s =
      bindE (?rest (drv s)) (\<lambda>ip. modifyE (drv_update (\<lambda>d. d\<lparr>IPAddress := ip\<rparr>))) s"
    by (simp add: provision_def bindE_assoc) (simp add: bindE_def getsE_def)
  with assms have "bindE (?rest (drv s)) (\<lambda>ip. modifyE (drv_update (\<lambda>d. d\<lparr>IPAddress := ip\<rparr>))) s = Some (r, s')"
    by simp
  then have "\<exists>q. ?rest (drv s) s = Some (q, s')"
    by (cases rule: bindE_SomeE) (simp_all add: r)
  moreover have "keeps same_ext (?rest (drv s))" by (intro keepsI)
  ultimately show ?thesis by (blast intro: same_ext_drv dest: keepsD)
qed

lemma remove_half_created_frame: "keeps same_ext (remove_half_created P err)"
  unfolding remove_half_created_def by (intro keepsI)

lemma remove_half_created_fails: "remove_half_created P err s = Some (r, s') \<Longrightarrow> r \<noteq> Ok ()"
  unfolding remove_half_created_def by (auto elim!: bindE_SomeE split: sum.splits)

text \<open>What follows the clone records the VM, whatever its outcome, and changes no other field but the address.\<close>

lemma finish_create_drv:
  assumes "finish_create P v place pub b = Some (r, s')"
  shows "\<exists>a. drv s' = (drv b)\<lparr>VMID := vm_id v, PVENode := pl_TargetNode place, IPAddress := a\<rparr>
    \<and> (r = Ok () \<or> a = IPAddress (drv b))"
proof -
  let ?t = "drv_update (\<lambda>d. d\<lparr>VMID := vm_id v, PVENode := pl_TargetNode place\<rparr>) b"
  from assms obtain q u where prov: "provision P v place (trim_space pub) ?t = Some (q, u)"
    by (auto simp: finish_create_eq Let_def split: option.splits)
  show ?thesis
  proof (cases q)
    case (Ok x)
    then show ?thesis using provision_address [of P v place "trim_space pub" ?t u] prov assms
      by (auto simp: finish_create_eq Let_def)
  next
    case (Err e)
    then have u: "drv u = drv ?t" using provision_frame [OF prov] by simp
    have "drv s' = drv u"
      using assms prov Err same_ext_drv [OF keepsD [OF remove_half_created_frame]]
      by (auto simp: finish_create_eq Let_def split: if_splits)
    with u show ?thesis by (intro exI [of _ "IPAddress (drv b)"]) simp
  next
    case (Panic p)
    then have "drv u = drv ?t" using provision_frame [OF prov] by simp
    moreover have "s' = u" using assms prov Panic by (simp add: finish_create_eq Let_def)
    ultimately show ?thesis by (intro exI [of _ "IPAddress (drv b)"]) simp
  qed
qed

lemma finish_create_Err:
  assumes "finish_create P v place pub b = Some (Err e, s')" and d: "drv b = drv s"
    and cl: "cloned P s v place pub (drv_update (\<lambda>d. d\<lparr>VMID := vm_id v, PVENode := pl_TargetNode place\<rparr>) b)"
  shows "create_failed P s e s'"
proof -
  let ?b = "drv_update (\<lambda>d. d\<lparr>VMID := vm_id v, PVENode := pl_TargetNode place\<rparr>) b"
  from assms(1) obtain err u where prov: "provision P v place (trim_space pub) ?b = Some (Err err, u)"
    and rest: "(if KeepOnFailure (drv u) then Some (Err err, u) else remove_half_created P err u) = Some (Err e, s')"
    unfolding finish_create_eq Let_def by (auto split: option.splits go.splits)
  have u: "drv u = (drv s)\<lparr>VMID := vm_id v, PVENode := pl_TargetNode place\<rparr>"
    using provision_frame [OF prov] d by simp
  then have vmid: "VMID (drv u) = vm_id v" and keep: "KeepOnFailure (drv u) = KeepOnFailure (drv s)" by simp_all
  show ?thesis
  proof (cases "KeepOnFailure (drv s)")
    case True
    with rest keep prov vmid cl show ?thesis by (auto intro: create_failed.kept)
  next
    case False
    with rest keep have "remove_half_created P err u = Some (Err e, s')" by simp
    moreover obtain r t where r: "Remove P u = Some (r, t)" "\<forall>p. r \<noteq> Panic p"
      using proper_Remove unfolding proper_def by blast
    moreover have "VMID (drv t) = vm_id v" using same_ext_drv [OF keepsD [OF frame_Remove r(1)]] vmid by simp
    ultimately consider "r = Ok ()" "e = err" "s' = t" | cerr where "r = Err cerr" "s' = t" "e = cleanup_failed err cerr (vm_id v)"
      by (cases r) (auto simp: remove_half_created_def bindE_def attemptE_def errE_def getsE_def)
    then show ?thesis
    proof cases
      case 1
      with cl prov vmid False r(1) show ?thesis by (auto intro: create_failed.removed)
    next
      case 2
      with cl prov vmid False r(1) show ?thesis by (auto intro: create_failed.cleanup)
    qed
  qed
qed

lemma Create_Err:
  assumes "Create P s = Some (Err e, s')"
  shows "create_failed P s e s'"
proof -
  have quiet: "keeps (emits (\<lambda>e. \<not> mutating e)) (prepare P c)" for c by (intro keepsI) simp
  from assms show ?thesis unfolding Create_def
  proof (cases rule: bindE_SomeE)
    case (ok c s1)
    then have s1: "s1 = s" and c: "client_of P (drv s) = Ok c" by auto
    from ok(2) show ?thesis unfolding s1
    proof (cases rule: bindE_SomeE)
      case (err e')
      have "drv s' = drv s" by (rule same_ext_drv) (rule keepsD [OF keeps_prepare(2) err(1)])
      with keepsD [OF quiet err(1)] show ?thesis by (rule create_failed.nothing_cloned)
    next
      case prep: (ok q t)
      obtain pub place lo hi where q: "q = (pub, place, lo, hi)" by (cases q)
      have d: "drv t = drv s" using prepare_Ok prep(1) q by blast
      have rdy: "ready P s c place pub lo hi t" using c prep(1) q by (simp add: ready_def)
      from prep(2) q d have "bindE (CloneFromTemplate P c (pl_Template place) (create_spec (drv s) lo hi))
          (\<lambda>v. finish_create P v place pub) t = Some (Err e, s')"
        by (simp add: bindE_def [of "getsE drv"] getsE_def)
      then show ?thesis
      proof (cases rule: bindE_SomeE)
        case (ok v b)
        have "drv b = drv s" using d same_ext_drv [OF keepsD [OF frame_CloneFromTemplate ok(1)]] by simp
        moreover have "cloned P s v place pub
            (drv_update (\<lambda>d. d\<lparr>VMID := vm_id v, PVENode := pl_TargetNode place\<rparr>) b)"
          unfolding cloned_def using rdy ok(1) by blast
        ultimately show ?thesis by (rule finish_create_Err [OF ok(2)])
      next
        case (err e')
        have "drv s' = drv s" using d same_ext_drv [OF keepsD [OF frame_CloneFromTemplate err(1)]] by simp
        with rdy err show ?thesis by (auto intro: create_failed.clone_failed)
      qed simp
    qed simp
  qed (auto intro!: create_failed.nothing_cloned simp: emits.R_refl)
qed

text \<open>
  C7. How \<open>Create\<close> fails: before the clone, with nothing changed on the cluster or in the
  driver; in \<open>CloneFromTemplate\<close>, with nothing changed in the driver; or in the provisioning of
  the clone, whose identifier the driver has then recorded. In that case the VM is kept on
  request, and otherwise \<open>Remove\<close> is the last thing that runs: if it succeeds the original error
  is reported, if not both are, together with the identifier to delete by hand.
\<close>

theorem Create_failure:
  assumes "Create P s = Some (Err e, s')"
  shows "create_failed P s e s'"
  using assms by (rule Create_Err)

section \<open>The clone requests of Create\<close>

text \<open>A clone request of this machine: from a template, with its name, in the configured range.\<close>

fun machine_clone :: "drv \<Rightarrow> event \<Rightarrow> bool" where
  "machine_clone d (EClone t opts) =
     (vm_template t \<and> co_name opts = MachineName d \<and>
      (case parseVMIDRange (VMIDRange d) of
         Ok (lo, hi) \<Rightarrow> lo \<le> co_newid opts \<and> co_newid opts \<le> hi | _ \<Rightarrow> False))"
| "machine_clone d e = True"

lemma clone_step_machine:
  assumes "parseVMIDRange (VMIDRange d) = Ok (lo, hi)" and "vm_template tmpl"
    and "clone_step tmpl (create_spec d lo hi) e"
  shows "machine_clone d e"
proof (cases e)
  case (EClone t opts)
  with assms(3) have "co_name opts = MachineName d" and "lo \<le> co_newid opts" "co_newid opts \<le> hi"
    by (auto simp: create_spec_def) (metis clone_options.select_convs(2) clone_opts_def CloneSpec.select_convs(1))
  with EClone assms show ?thesis by auto
qed simp_all

lemma no_clone_machine: "\<not> is_clone e \<Longrightarrow> machine_clone d e"
  by (cases e) simp_all

lemma finish_create_no_clone: "keeps (emits (\<lambda>e. \<not> is_clone e)) (finish_create P v place pub)"
proof -
  have rem: "keeps (emits (\<lambda>e. \<not> is_clone e)) (Remove P)"
    by (rule keeps_emits_mono [OF keeps_Remove]) (auto elim: is_clone.elims)
  have "keeps (emits (\<lambda>e. \<not> is_clone e)) (provision P v place key)" for key
    by (rule keeps_provision) (auto elim: is_clone.elims)
  with rem show ?thesis
    unfolding finish_create_def remove_half_created_def by (intro keepsI)
qed

text \<open>
  The three stages of a run: it ends before the clone request, or in \<open>CloneFromTemplate\<close>, or in
  what follows the clone.
\<close>

lemma Create_cases:
  fixes s s' :: "('w, 'x) dst_scheme"
  assumes "Create P s = Some (r, s')"
  obtains (early) "emits (\<lambda>e. \<not> mutating e) s s'" "drv s' = drv s" "r \<noteq> Ok ()"
  | (clone) c lo hi q and place :: placement and t u :: "('w, 'x) dst_scheme" where
    "drv t = drv s" "emits (\<lambda>e. \<not> mutating e) s t"
    "parseVMIDRange (VMIDRange (drv s)) = Ok (lo, hi)" "vm_template (pl_Template place)"
    "CloneFromTemplate P c (pl_Template place) (create_spec (drv s) lo hi) t = Some (q, u)"
    "\<And>v. q = Ok v \<Longrightarrow> \<exists>pub. finish_create P v place pub u = Some (r, s')"
    "(\<And>v. q \<noteq> Ok v) \<Longrightarrow> s' = u \<and> r \<noteq> Ok ()"
proof -
  have quiet: "keeps (emits (\<lambda>e. \<not> mutating e)) (prepare P c)" for c by (intro keepsI) simp
  from assms show ?thesis unfolding Create_def
  proof (cases rule: bindE_SomeE)
    case (ok c s1)
    then have s1: "s1 = s" by simp
    from ok(2) show ?thesis unfolding s1
    proof (cases rule: bindE_SomeE)
      case prep: (ok q t)
      obtain pub place lo hi where q: "q = (pub, place, lo, hi)" by (cases q)
      from prepare_Ok [OF prep(1) [unfolded q]] obtain w where
        d: "drv t = drv s" "parseVMIDRange (VMIDRange (drv s)) = Ok (lo, hi)"
        and place: "resolvePlacement P c w = Some (Ok place, t)" by blast
      have tmpl: "vm_template (pl_Template place)" by (rule resolvePlacement_template [OF place])
      from prep(2) q d have run: "bindE (CloneFromTemplate P c (pl_Template place) (create_spec (drv s) lo hi))
          (\<lambda>v. finish_create P v place pub) t = Some (r, s')"
        by (simp add: bindE_def [of "getsE drv"] getsE_def)
      note late = clone [OF d(1) keepsD [OF quiet prep(1)] d(2) tmpl]
      from run show ?thesis
        by (cases rule: bindE_SomeE) (rule late, assumption, auto)+
    next
      case (err e)
      with same_ext_drv [OF keepsD [OF keeps_prepare(2) err(1)]] keepsD [OF quiet err(1)]
      show ?thesis by (intro early) simp_all
    next
      case (panic p)
      with same_ext_drv [OF keepsD [OF keeps_prepare(2) panic(1)]] keepsD [OF quiet panic(1)]
      show ?thesis by (intro early) simp_all
    qed
  qed (auto intro: early simp: emits.R_refl)
qed

lemma Create_after_clone:
  assumes "\<And>v. q = Ok v \<Longrightarrow> \<exists>pub. finish_create P v place pub u = Some (r, s')"
    and "(\<And>v. q \<noteq> Ok v) \<Longrightarrow> s' = u \<and> r \<noteq> Ok ()"
  shows "emits (\<lambda>e. \<not> is_clone e) u s'"
proof (cases "\<exists>v. q = Ok v")
  case True
  with assms(1) obtain v pub where "finish_create P v place pub u = Some (r, s')" by blast
  with finish_create_no_clone show ?thesis by (rule keepsD)
next
  case False
  with assms(2) show ?thesis by (simp add: emits.R_refl)
qed

text \<open>
  C13. \<open>Create\<close> sends at most ten clone requests, each from a template, under the machine's name
  and into the configured identifier range.
\<close>

theorem Create_clone_requests:
  assumes rnd: "rand_in_range P" and run: "Create P s = Some (r, s')"
  shows "grew is_clone 10 s s' \<and> emits (machine_clone (drv s)) s s'"
  using run
proof (cases rule: Create_cases)
  case early
  have "emits (\<lambda>e. \<not> is_clone e) s s'" by (rule emits_mono [OF early(1)]) (auto elim: is_clone.elims)
  moreover from this have "emits (machine_clone (drv s)) s s'" by (rule emits_mono) (rule no_clone_machine)
  ultimately show ?thesis using grew_emits [OF grew_refl] by blast
next
  case late: (clone c lo hi q place t u)
  have after: "emits (\<lambda>e. \<not> is_clone e) u s'" by (rule Create_after_clone [OF late(6,7)])
  have nc: "\<not> is_clone e" if "\<not> mutating e" for e using that by (cases e) auto
  have range: "vmid_range_ok (cs_VMIDLo (create_spec (drv s) lo hi)) (cs_VMIDHi (create_spec (drv s) lo hi))"
    using config_valid_range [OF late(3)] by (simp add: create_spec_def)
  have st: "emits (\<lambda>e. \<not> is_clone e) s t" by (rule emits_mono [OF late(2)]) (rule nc)
  have "emits (clone_step (pl_Template place) (create_spec (drv s) lo hi)) t u"
    by (rule keepsD [OF keeps_CloneFromTemplate [OF range rnd] late(5)])
  then have "emits (machine_clone (drv s)) t u"
    by (rule emits_mono) (rule clone_step_machine [OF late(3,4)])
  moreover have "emits (machine_clone (drv s)) s t" by (rule emits_mono [OF st]) (rule no_clone_machine)
  moreover have "emits (machine_clone (drv s)) u s'" by (rule emits_mono [OF after]) (rule no_clone_machine)
  ultimately have "emits (machine_clone (drv s)) s s'" by (blast intro: emits.R_trans)
  moreover have "grew is_clone (0 + 10) s u"
    by (rule grew_trans [OF grew_emits [OF grew_refl st] keepsD [OF CloneFromTemplate_ten late(5)]])
  then have "grew is_clone 10 s s'" using grew_emits after by fastforce
  ultimately show ?thesis by blast
qed

section \<open>Witnesses\<close>

text \<open>
  A creation in the simulated cluster, one whose guest agent stays silent until the deadline,
  and a VM that has to be configured, grown and started.
\<close>

definition silent_dst :: "sim_world dst" where
  "silent_dst = dst_with (drv0\<lparr>AgentTimeout := 10\<rparr>) (sim0\<lparr>sw_agent_faults := replicate 12 ''not running''\<rparr>)"

definition grown_dst :: "sim_world dst" where
  "grown_dst = dst_with (drv0\<lparr>DiskSizeGB := 20, VMID := 10002, PVENode := ''pve1''\<rparr>) sim0"

definition place0 :: placement where
  "place0 = \<lparr>pl_Template = tmpl_vm, pl_TargetNode = ''pve1'', pl_BootDiskKey = ''scsi0'', pl_TemplateGB = 10\<rparr>"

lemma named_create: "\<exists>s'. Create sim named_dst = Some (Ok (), s') \<and> VMID (drv s') = 10000"
proof -
  have "map_option (\<lambda>(r, s). (r, VMID (drv s))) (Create sim named_dst) = Some (Ok (), 10000)" by code_simp
  then show ?thesis by auto
qed

theorem provision_order_witness:
  "\<exists>s' ip. provision sim owned_vm place0 ''key'' grown_dst = Some (Ok (), s')
     \<and> drv s' = (drv grown_dst)\<lparr>IPAddress := ip\<rparr>
     \<and> EResize owned_vm ''scsi0'' ''20G'' \<in> set (trace s')"
proof -
  have "map_option fst (provision sim owned_vm place0 ''key'' grown_dst) = Some (Ok ())" by code_simp
  from run_ends [OF this] obtain s' where run: "provision sim owned_vm place0 ''key'' grown_dst = Some (Ok (), s')"
    by blast
  have disk: "pl_TemplateGB place0 < DiskSizeGB (drv grown_dst)" "pl_BootDiskKey place0 = ''scsi0''"
    "itoa (DiskSizeGB (drv grown_dst)) = ''20''"
    by code_simp+
  from provision_order [OF run] run show ?thesis by (auto simp: disk)
qed


theorem Create_failure_witness:
  "\<exists>e s'. Create sim silent_dst = Some (Err e, s') \<and> create_failed sim silent_dst e s'"
proof -
  have "fails (Create sim silent_dst)" by code_simp
  from run_fails [OF this] obtain e s' where run: "Create sim silent_dst = Some (Err e, s')" by blast
  from Create_failure [OF run] run show ?thesis by blast
qed

theorem Create_clone_requests_witness:
  "\<exists>s'. Create sim named_dst = Some (Ok (), s') \<and> emits (machine_clone (drv named_dst)) named_dst s'"
proof -
  obtain s' where run: "Create sim named_dst = Some (Ok (), s')" using named_create by blast
  from Create_clone_requests [OF sim_rand_in_range run] run show ?thesis by blast
qed

end
