(* ===== verification/Session.thy ===== *)
theory Session
  imports Creation
begin

text \<open>
  The driver as \<open>rancher-machine\<close> uses it: a sequence of calls, each in a process of its own, on
  the fields persisted between them, while the cluster changes under other hands. The calls
  refine an abstract machine that knows only the assigned VM and the last known address, and
  what they may ask of the cluster is bounded over whole sequences.
\<close>

section \<open>Calls and sequences of calls\<close>

datatype driver_op = DoPreCreateCheck | DoCreate | DoStart | DoStop | DoKill | DoRestart | DoRemove
  | DoGetState | DoGetIP

fun run_op :: "'w px \<Rightarrow> driver_op \<Rightarrow> (('w, 'x) dst_scheme, unit) eff" where
  "run_op P DoPreCreateCheck = PreCreateCheck P"
| "run_op P DoCreate = Create P"
| "run_op P DoStart = Start P"
| "run_op P DoStop = Stop P"
| "run_op P DoKill = Kill P"
| "run_op P DoRestart = Restart P"
| "run_op P DoRemove = Remove P"
| "run_op P DoGetState = bindE (GetState P) (\<lambda>_. okE ())"
| "run_op P DoGetIP = bindE (GetIP P) (\<lambda>_. okE ())"

text \<open>
  A session: calls; calls whose results never reach the store, because the process or its
  caller died before they were persisted; and changes of the world by others.
\<close>

inductive session :: "'w px \<Rightarrow> ('w, 'x) dst_scheme \<Rightarrow> ('w, 'x) dst_scheme \<Rightarrow> bool"
  for P and s :: "('w, 'x) dst_scheme" where
  begins: "session P s s"
| call: "session P s t \<Longrightarrow> run_op P op t = Some (r, s') \<Longrightarrow> session P s s'"
| lost: "session P s t \<Longrightarrow> run_op P op t = Some (r, u) \<Longrightarrow> session P s (u\<lparr>drv := drv t\<rparr>)"
| others: "session P s t \<Longrightarrow> session P s (t\<lparr>world := w\<rparr>)"

section \<open>The abstract machine\<close>

record machine =
  m_vm :: "(int \<times> string) option"
  m_addr :: string

definition abs_machine :: "drv \<Rightarrow> machine" where
  "abs_machine d =
     \<lparr>m_vm = (if VMID d = 0 then None else Some (VMID d, PVENode d)), m_addr = IPAddress d\<rparr>"

text \<open>The fields that only the options set.\<close>

definition settings :: "drv \<Rightarrow> drv" where
  "settings d = d\<lparr>IPAddress := [], VMID := 0, PVENode := []\<rparr>"

text \<open>The identifiers of the configured range.\<close>

definition own_range :: "drv \<Rightarrow> int \<Rightarrow> bool" where
  "own_range d i \<longleftrightarrow>
     (case parseVMIDRange (VMIDRange d) of Ok (lo, hi) \<Rightarrow> lo \<le> i \<and> i \<le> hi | _ \<Rightarrow> False)"

text \<open>
  Only \<open>Create\<close> assigns a VM, with an identifier of the range, and it does when it succeeds; a
  \<open>Create\<close> that fails leaves the address alone; \<open>GetIP\<close> may change the address; nothing else
  changes anything.
\<close>

fun machine_step :: "drv \<Rightarrow> driver_op \<Rightarrow> unit go \<Rightarrow> machine \<Rightarrow> machine \<Rightarrow> bool" where
  "machine_step d DoCreate r m m' =
     (if r = Ok () then \<exists>i n. own_range d i \<and> m_vm m' = Some (i, n)
      else m_addr m' = m_addr m
        \<and> (m_vm m' = m_vm m \<or> (\<exists>i n. own_range d i \<and> m_vm m' = Some (i, n))))"
| "machine_step d DoGetIP r m m' = (m_vm m' = m_vm m)"
| "machine_step d op r m m' = (m' = m)"

section \<open>What a call may ask for\<close>

fun request_target :: "event \<Rightarrow> vm option" where
  "request_target (EConfig v opts) = Some v"
| "request_target (EResize v disk n) = Some v"
| "request_target (EStart v) = Some v"
| "request_target (EShutdown v) = Some v"
| "request_target (EStop v) = Some v"
| "request_target (EReboot v) = Some v"
| "request_target (EDelete v opts) = Some v"
| "request_target _ = None"

text \<open>
  A clone of this machine; or a request for a VM that carries the tag, or has an identifier of
  the range, or (power requests only) has the persisted identifier.
\<close>

definition may_send :: "'w px \<Rightarrow> drv \<Rightarrow> event \<Rightarrow> bool" where
  "may_send P d e \<longleftrightarrow> machine_clone d e \<and>
     (case request_target e of
        None \<Rightarrow> True
      | Some v \<Rightarrow> px_has_tag P v MachineTag \<or> own_range d (vm_id v)
          \<or> (VMID d \<noteq> 0 \<and> vm_id v = wrap64 (VMID d) \<and> power_request v e))"

text \<open>
  The documented behaviour of \<open>Node.VirtualMachine\<close>: the VM that is read has the identifier that
  was asked for, converted to the width of the field.
\<close>

definition reads_requested :: "'w px \<Rightarrow> bool" where
  "reads_requested P \<longleftrightarrow> (\<forall>c node i w v w'. px_vm P c node i w = (Inr v, w') \<longrightarrow> vm_id v = wrap64 i)"

lemma not_mutating_may_send: "\<not> mutating e \<Longrightarrow> may_send P d e"
  by (cases e) (simp_all add: may_send_def)

lemma target_may_send:
  "request_target e = Some v \<Longrightarrow> px_has_tag P v MachineTag \<or> own_range d (vm_id v) \<Longrightarrow> may_send P d e"
  by (cases e) (auto simp: may_send_def)

lemma removal_may_send: "removal_step (\<lambda>v. px_has_tag P v MachineTag) e \<Longrightarrow> may_send P d e"
  by (cases e) (auto simp: may_send_def)

lemma may_send_persisted: "\<not> mutating e \<or> power_request v e \<Longrightarrow>
    px_has_tag P v MachineTag \<or> (VMID d \<noteq> 0 \<and> vm_id v = wrap64 (VMID d)) \<Longrightarrow> may_send P d e"
  by (cases e) (auto simp: may_send_def power_request_def)

section \<open>The requests of a clone\<close>

lemma reads_requestedD:
  "reads_requested P \<Longrightarrow> px_vm P c node i w = (Inr v, w') \<Longrightarrow> vm_id v = wrap64 i"
  unfolding reads_requested_def by blast

lemma GetVM_id:
  "reads_requested P \<Longrightarrow> GetVM P c node i s = Some (Ok v, s') \<Longrightarrow> vm_id v = wrap64 i"
  unfolding GetVM_def by (auto elim!: bindE_OkE mapErrE_OkE callE_SomeE dest: reads_requestedD)

lemma attempt_GetVM_id:
  "reads_requested P \<Longrightarrow> attemptE (GetVM P c node i) s = Some (Ok (Inr v), s') \<Longrightarrow> vm_id v = wrap64 i"
  by (auto elim!: attemptE_OkE dest: GetVM_id)

lemma own_range_wrap:
  assumes "own_range d i"
  shows "wrap64 i = i" and "i \<noteq> 0"
proof -
  from assms obtain lo hi where p: "parseVMIDRange (VMIDRange d) = Ok (lo, hi)" and i: "lo \<le> i" "i \<le> hi"
    by (auto simp: own_range_def split: go.splits)
  from config_valid_range [OF p] i have "100 \<le> i" "i \<le> 999999999" by (simp_all add: vmid_range_ok_def)
  then show "wrap64 i = i" "i \<noteq> 0" by (simp_all add: wrap64_def)
qed

lemma keeps_cleanup_own:
  assumes "reads_requested P" and own: "own_range d i"
  shows "keeps (emits (may_send P d)) (bestEffortDelete P c node i)"
proof -
  let ?del = "\<lambda>v. bindE (attemptE (bindE (callE (EDelete v purge_options) (px_delete P v purge_options))
                       (\<lambda>task. WaitTask P task (5 * minute)))) (\<lambda>_. okE ())"
  have del: "keeps (emits (may_send P d)) (?del v)" if "vm_id v = wrap64 i" for v
    using that own own_range_wrap(1) [OF own]
    by (intro keepsI) (auto intro: target_may_send not_mutating_may_send)
  have get: "ensures (attemptE (GetVM P c node i)) (\<lambda>res. \<forall>v. res = Inr v \<longrightarrow> vm_id v = wrap64 i)"
    unfolding ensures_def using attempt_GetVM_id [OF assms(1)] by blast
  have "keeps (emits (may_send P d)) (attemptE (GetVM P c node i))"
    by (intro keepsI) (simp_all add: not_mutating_may_send)
  then have "keeps (emits (may_send P d)) (bindE (attemptE (GetVM P c node i))
      (\<lambda>res. case res of Inl err \<Rightarrow> okE () | Inr v \<Rightarrow> ?del v))"
  proof (rule emits.keeps_bindE_ensures [OF _ get])
    show "keeps (emits (may_send P d)) (case res of Inl err \<Rightarrow> okE () | Inr v \<Rightarrow> ?del v)"
      if "\<forall>v. res = Inr v \<longrightarrow> vm_id v = wrap64 i" for res
      using that by (cases res) (simp_all add: del emits.keeps_okE)
  qed
  with own_range_wrap(2) [OF own] show ?thesis by (simp add: bestEffortDelete_def)
qed

lemma keeps_stamp_own:
  "own_range d (vm_id v) \<Longrightarrow> keeps (emits (may_send P d)) (stamp_tags P v spec)"
  by (intro keepsI) (auto intro: target_may_send not_mutating_may_send)

lemma keeps_finish_clone_own:
  assumes reads: "reads_requested P" and own: "own_range d i"
  shows "keeps (emits (may_send P d)) (finish_clone P c tmpl spec i)"
  unfolding finish_clone_def
proof (rule emits.keeps_bindE_ensures)
  show "keeps (emits (may_send P d)) (attemptE (GetVM P c (clone_target tmpl spec) i))"
    by (intro keepsI) (simp_all add: not_mutating_may_send)
  show "ensures (attemptE (GetVM P c (clone_target tmpl spec) i)) (\<lambda>res. \<forall>v. res = Inr v \<longrightarrow> vm_id v = i)"
    unfolding ensures_def using attempt_GetVM_id [OF reads] own_range_wrap(1) [OF own] by metis
  show "keeps (emits (may_send P d)) (case res of
         Inl err \<Rightarrow> bindE (bestEffortDelete P c (clone_target tmpl spec) i) (\<lambda>_. errE (unreadable_error i err))
       | Inr v \<Rightarrow>
           if 0 < length (cs_Tags spec)
           then bindE (attemptE (stamp_tags P v spec)) (\<lambda>res. case res of
                    Inl err \<Rightarrow>
                      bindE (bestEffortDelete P c (clone_target tmpl spec) i) (\<lambda>_. errE (tagging_error i err))
                  | Inr u \<Rightarrow> okE v)
           else okE v)" if "\<forall>v. res = Inr v \<longrightarrow> vm_id v = i" for res
  proof (cases res)
    case (Inl err)
    show ?thesis unfolding Inl sum.case
      by (intro emits.keeps_bindE keeps_cleanup_own assms emits.keeps_errE)
  next
    case (Inr v)
    with that own have "own_range d (vm_id v)" by simp
    then show ?thesis unfolding Inr sum.case
      by (intro keeps_if keeps_sum emits.keeps_bindE emits.keeps_attemptE keeps_cleanup_own assms
          keeps_stamp_own emits.keeps_errE emits.keeps_okE)
  qed
qed

lemma ensures_bindE_from:
  assumes m: "ensures m Q" and f: "\<And>x. Q x \<Longrightarrow> ensures (f x) R"
  shows "ensures (bindE m f) R"
  unfolding ensures_def
proof (intro allI impI)
  fix s y s'
  assume "bindE m f s = Some (Ok y, s')"
  then obtain x t where "m s = Some (Ok x, t)" and y: "f x t = Some (Ok y, s')" by (rule bindE_OkE)
  from f [OF ensuresD [OF m this(1)]] y show "R y" by (rule ensuresD)
qed

lemma clone_call_id:
  assumes "clone_keeps_id P" and "i \<noteq> 0"
  shows "ensures (callE (EClone tmpl (clone_opts tmpl spec i)) (px_clone P tmpl (clone_opts tmpl spec i)))
    (\<lambda>x. fst x = i)"
  unfolding ensures_def
proof (intro allI impI)
  fix s x s'
  assume "callE (EClone tmpl (clone_opts tmpl spec i)) (px_clone P tmpl (clone_opts tmpl spec i)) s = Some (Ok x, s')"
  then obtain w where "px_clone P tmpl (clone_opts tmpl spec i) (world s) = (Inr (fst x, snd x), w)"
    by (auto elim!: callE_SomeE)
  from clone_keeps_idD [OF assms this] show "fst x = i" .
qed

text \<open>The clone specifications of this machine.\<close>

lemma create_spec_range:
  "parseVMIDRange (VMIDRange d) = Ok (lo, hi) \<Longrightarrow>
   own_range d = (\<lambda>i. cs_VMIDLo (create_spec d lo hi) \<le> i \<and> i \<le> cs_VMIDHi (create_spec d lo hi))"
  by (simp add: own_range_def create_spec_def fun_eq_iff)

lemma keeps_clone_attempt_own:
  assumes rnd: "rand_in_range P" and lib: "clone_keeps_id P" "reads_requested P"
    and parse: "parseVMIDRange (VMIDRange d) = Ok (lo, hi)" and tmpl: "vm_template tmpl"
  shows "keeps (emits (may_send P d)) (clone_attempt P c tmpl (create_spec d lo hi))"
    and "ensures (clone_attempt P c tmpl (create_spec d lo hi)) (own_range d)"
proof -
  let ?spec = "create_spec d lo hi"
  let ?pick = "randomFreeVMID P c (cs_VMIDLo ?spec) (cs_VMIDHi ?spec)"
  let ?rest = "\<lambda>x. bindE (attemptE (WaitTask P (snd x) cloneTaskTimeout)) (\<lambda>res. case res of
         Inl err \<Rightarrow> bindE (bestEffortDelete P c (clone_target tmpl ?spec) (fst x)) (\<lambda>_. errE err)
       | Inr u \<Rightarrow> okE (fst x))"
  let ?go = "\<lambda>i. bindE (callE (EClone tmpl (clone_opts tmpl ?spec i)) (px_clone P tmpl (clone_opts tmpl ?spec i))) ?rest"
  have att: "clone_attempt P c tmpl ?spec = bindE ?pick ?go"
    by (simp add: clone_attempt_def case_prod_beta')
  have range: "vmid_range_ok (cs_VMIDLo ?spec) (cs_VMIDHi ?spec)"
    using config_valid_range [OF parse] by (simp add: create_spec_def)
  have pick: "ensures ?pick (own_range d)"
    unfolding create_spec_range [OF parse] by (rule ensures_randomFreeVMID [OF range rnd])
  have own0: "i \<noteq> 0" if "own_range d i" for i using own_range_wrap(2) [OF that] .
  have clone: "may_send P d (EClone tmpl (clone_opts tmpl ?spec i))" if "own_range d i" for i
  proof -
    from that parse tmpl have "machine_clone d (EClone tmpl (clone_opts tmpl ?spec i))"
      by (simp add: own_range_def clone_opts_def create_spec_def)
    then show ?thesis by (simp add: may_send_def)
  qed
  have rest: "keeps (emits (may_send P d)) (?rest x)" if "fst x = i" "own_range d i" for x i
    using that by (intro keepsI keeps_cleanup_own lib) (simp_all add: not_mutating_may_send)
  have go: "keeps (emits (may_send P d)) (?go i)" if i: "own_range d i" for i
    by (rule emits.keeps_bindE_ensures [OF keeps_emits_callE [of "may_send P d", OF clone [OF i]] clone_call_id [OF lib(1) own0 [OF i]]])
       (rule rest [OF _ i])
  show "keeps (emits (may_send P d)) (clone_attempt P c tmpl ?spec)" unfolding att
  proof (rule emits.keeps_bindE_ensures [OF _ pick])
    show "keeps (emits (may_send P d)) ?pick"
      by (intro keepsI) (simp_all add: not_mutating_may_send)
  qed (rule go)
  have ret: "ensures (?rest x) (own_range d)" if "fst x = i" "own_range d i" for x i
    using that unfolding ensures_def by (auto elim!: bindE_OkE split: sum.splits)
  show "ensures (clone_attempt P c tmpl ?spec) (own_range d)" unfolding att
    by (rule ensures_bindE_from [OF pick], rule ensures_bindE_from [OF clone_call_id [OF lib(1) own0]])
       (assumption, rule ret)
qed


section \<open>The requests of each call\<close>

lemma keeps_CloneFromTemplate_own:
  assumes rnd: "rand_in_range P" and lib: "clone_keeps_id P" "reads_requested P"
    and parse: "parseVMIDRange (VMIDRange d) = Ok (lo, hi)" and tmpl: "vm_template tmpl"
  shows "keeps (emits (may_send P d)) (CloneFromTemplate P c tmpl (create_spec d lo hi))"
  unfolding CloneFromTemplate_def
proof (rule emits.keeps_bindE_ensures)
  note attempt = keeps_clone_attempt_own [OF assms]
  show "keeps (emits (may_send P d)) (mapErrE (cloning_error tmpl)
      (Retry P cloneAttempts cloneBackoffBase clone_retryable (clone_attempt P c tmpl (create_spec d lo hi))))"
    by (intro emits.keeps_mapErrE keeps_emits_Retry attempt) (simp_all add: not_mutating_may_send)
  show "ensures (mapErrE (cloning_error tmpl)
      (Retry P cloneAttempts cloneBackoffBase clone_retryable (clone_attempt P c tmpl (create_spec d lo hi)))) (own_range d)"
    by (intro ensures_mapErrE ensures_Retry attempt)
qed (rule keeps_finish_clone_own [OF lib(2)])

lemma cloned_id:
  fixes s s' :: "('w, 'x) st_scheme"
  assumes rnd: "rand_in_range P" and lib: "clone_keeps_id P" "reads_requested P"
    and parse: "parseVMIDRange (VMIDRange d) = Ok (lo, hi)"
    and run: "CloneFromTemplate P c tmpl (create_spec d lo hi) s = Some (Ok v, s')"
  shows "own_range d (vm_id v)"
proof -
  have range: "vmid_range_ok (cs_VMIDLo (create_spec d lo hi)) (cs_VMIDHi (create_spec d lo hi))"
    using config_valid_range [OF parse] by (simp add: create_spec_def)
  from CloneFromTemplate_Ok [OF range rnd lib(1) run] obtain i and t u :: "('w, 'x) st_scheme" where
    "own_range d i" "GetVM P c (clone_target tmpl (create_spec d lo hi)) i t = Some (Ok v, u)"
    unfolding create_spec_range [OF parse] by blast
  with GetVM_id [OF lib(2)] own_range_wrap(1) show ?thesis by metis
qed

lemma keeps_Remove_own: "keeps (emits (may_send P d)) (Remove P)"
  by (rule keeps_emits_mono [OF keeps_Remove]) (rule removal_may_send)

lemma keeps_finish_create_own:
  assumes "own_range d (vm_id v)"
  shows "keeps (emits (may_send P d)) (finish_create P v place pub)"
proof -
  have "keeps (emits (may_send P d)) (provision P v place key)" for key
    by (rule keeps_provision) (use assms in \<open>auto intro: target_may_send not_mutating_may_send\<close>)
  then show ?thesis
    unfolding finish_create_def remove_half_created_def by (intro keepsI keeps_Remove_own)
qed

lemma Create_requests:
  assumes rnd: "rand_in_range P" and lib: "clone_keeps_id P" "reads_requested P"
    and run: "Create P s = Some (r, s')"
  shows "emits (may_send P (drv s)) s s'"
  using run
proof (cases rule: Create_cases)
  case early
  from early(1) show ?thesis by (rule emits_mono) (rule not_mutating_may_send)
next
  case (clone c lo hi q place t u)
  have "emits (may_send P (drv s)) s t" by (rule emits_mono [OF clone(2)]) (rule not_mutating_may_send)
  moreover have "emits (may_send P (drv s)) t u"
    by (rule keepsD [OF keeps_CloneFromTemplate_own [OF rnd lib clone(3,4)] clone(5)])
  moreover have "emits (may_send P (drv s)) u s'"
  proof (cases "\<exists>v. q = Ok v")
    case True
    then obtain v where v: "q = Ok v" by blast
    with clone(6) obtain pub where fin: "finish_create P v place pub u = Some (r, s')" by blast
    have "own_range (drv s) (vm_id v)"
      using cloned_id [OF rnd lib clone(3)] clone(5) v by blast
    then show ?thesis by (rule keepsD [OF keeps_finish_create_own fin])
  next
    case False
    with clone(7) show ?thesis by (simp add: emits.R_refl)
  qed
  ultimately show ?thesis by (blast intro: emits.R_trans)
qed

text \<open>The VM that the power operations find carries the tag or has the persisted identifier.\<close>

lemma lookup_target:
  fixes s t :: "('w, 'x) dst_scheme"
  assumes lib: "reads_requested P" and run: "lookupVM P c s = Some (Ok (Some v), t)"
  shows "px_has_tag P v MachineTag \<or> (VMID (drv s) \<noteq> 0 \<and> vm_id v = wrap64 (VMID (drv s)))"
proof -
  from lookupVM_result [of P c s] run have
    "if VMID (drv s) \<noteq> 0
     then \<exists>node (u :: ('w, 'x) dst_scheme). GetVM P c node (VMID (drv s)) u = Some (Ok v, t)
     else px_has_tag P v MachineTag" by (auto split: if_splits)
  then show ?thesis by (auto split: if_splits dest: GetVM_id [OF lib])
qed

lemma power_requests:
  assumes lib: "reads_requested P"
    and "emits (\<lambda>e. \<not> mutating e \<or> (\<exists>c v t. lookupVM P c s = Some (Ok (Some v), t) \<and> power_request v e)) s s'"
  shows "emits (may_send P (drv s)) s s'"
  using assms(2)
proof (rule emits_mono)
  fix e
  assume "\<not> mutating e \<or> (\<exists>c v t. lookupVM P c s = Some (Ok (Some v), t) \<and> power_request v e)"
  then show "may_send P (drv s) e"
    using not_mutating_may_send may_send_persisted lookup_target [OF lib] by metis
qed


lemma keeps_GetState: "keeps (emits reading) (GetState P)" "keeps same_ext (GetState P)"
  unfolding GetState_def by (intro keepsI | simp)+

text \<open>The fields that \<open>GetIP\<close> keeps: all but the address.\<close>

definition same_vm :: "('w, 'x) dst_scheme \<Rightarrow> ('w, 'x) dst_scheme \<Rightarrow> bool" where
  "same_vm s s' \<longleftrightarrow> (drv s')\<lparr>IPAddress := []\<rparr> = (drv s)\<lparr>IPAddress := []\<rparr>"

interpretation same_vm: step_rel same_vm
  by unfold_locales (simp_all add: same_vm_def)

lemma keeps_same_vm: "keeps same_ext m \<Longrightarrow> keeps same_vm m"
  by (erule keeps_mono) (drule same_ext_drv, simp add: same_vm_def)

lemma same_vm_GetIP: "keeps same_vm (GetIP P)"
proof -
  have addr: "keeps same_vm (modifyE (drv_update (\<lambda>d. d\<lparr>IPAddress := a\<rparr>)))" for a
    by (simp add: keeps_def same_vm_def)
  have "keeps same_ext (the_client P)" "keeps same_ext (lookupVM P c)" "keeps same_ext cached_ip"
    "keeps same_ext (QueryAgentIP P v)" for c v by (intro keepsI)+
  note [THEN keeps_same_vm] = this
  then show ?thesis unfolding GetIP_def
    by (intro same_vm.keeps_bindE same_vm.keeps_attemptE keeps_sum keeps_option addr same_vm.keeps_okE)
qed

lemma same_vmD:
  assumes "same_vm s s'"
  shows "VMID (drv s') = VMID (drv s)" "PVENode (drv s') = PVENode (drv s)"
    "settings (drv s') = settings (drv s)" "VMIDRange (drv s') = VMIDRange (drv s)"
proof -
  note eq = assms [unfolded same_vm_def]
  show "VMID (drv s') = VMID (drv s)" using arg_cong [OF eq, of VMID] by simp
  show "PVENode (drv s') = PVENode (drv s)" using arg_cong [OF eq, of PVENode] by simp
  show "VMIDRange (drv s') = VMIDRange (drv s)" using arg_cong [OF eq, of VMIDRange] by simp
  show "settings (drv s') = settings (drv s)"
    using arg_cong [OF eq, of "\<lambda>d. d\<lparr>VMID := 0, PVENode := []\<rparr>"] by (simp add: settings_def)
qed

lemmas power_summaries = start_action.withVM_summary stop_action.withVM_summary
  kill_action.withVM_summary restart_action.withVM_summary

lemma power_op:
  assumes "op \<in> {DoStart, DoStop, DoKill, DoRestart}" and run: "run_op P op s = Some (r, s')"
  shows "drv s' = drv s"
    and "emits (\<lambda>e. \<not> mutating e \<or> (\<exists>c v t. lookupVM P c s = Some (Ok (Some v), t) \<and> power_request v e)) s s'"
  using assms power_summaries [of P s] by (auto simp: Start_def Stop_def Kill_def Restart_def)

text \<open>A call other than \<open>Create\<close> and \<open>GetIP\<close> leaves the driver's fields alone.\<close>

lemma quiet_ops:
  assumes "op \<notin> {DoCreate, DoGetIP}" and run: "run_op P op s = Some (r, s')"
  shows "drv s' = drv s"
proof (cases "op \<in> {DoStart, DoStop, DoKill, DoRestart}")
  case True
  then show ?thesis using run by (rule power_op)
next
  case False
  have "keeps same_ext (bindE (GetState P) (\<lambda>_. okE ()))"
    by (intro frame.keeps_bindE keeps_GetState frame.keeps_okE)
  with False assms have "keeps same_ext (run_op P op)"
    by (cases op) (simp_all add: keeps_PreCreateCheck frame_Remove)
  from same_ext_drv [OF keepsD [OF this run]] show ?thesis .
qed

lemma Create_drv:
  assumes rnd: "rand_in_range P" and lib: "clone_keeps_id P" "reads_requested P"
    and run: "Create P s = Some (r, s')"
  shows "drv s' = drv s \<and> r \<noteq> Ok () \<or>
    (\<exists>i n a. own_range (drv s) i \<and> drv s' = (drv s)\<lparr>VMID := i, PVENode := n, IPAddress := a\<rparr>
      \<and> (r = Ok () \<or> a = IPAddress (drv s)))"
  using run
proof (cases rule: Create_cases)
  case (clone c lo hi q place t u)
  have u: "drv u = drv s" using clone(1) same_ext_drv [OF keepsD [OF frame_CloneFromTemplate clone(5)]] by simp
  show ?thesis
  proof (cases "\<exists>v. q = Ok v")
    case True
    then obtain v where v: "q = Ok v" by blast
    with clone(6) obtain pub where fin: "finish_create P v place pub u = Some (r, s')" by blast
    have "own_range (drv s) (vm_id v)" using cloned_id [OF rnd lib clone(3)] clone(5) v by blast
    with finish_create_drv [OF fin] show ?thesis unfolding u by blast
  next
    case False
    with clone(7) u show ?thesis by simp
  qed
qed simp

lemma settings_updates [simp]:
  "settings (d\<lparr>VMID := i, PVENode := n, IPAddress := a\<rparr>) = settings d"
  by (simp add: settings_def)

lemma abs_machine_assigned: "i \<noteq> 0 \<Longrightarrow>
    abs_machine (d\<lparr>VMID := i, PVENode := n, IPAddress := a\<rparr>) = \<lparr>m_vm = Some (i, n), m_addr = a\<rparr>"
  by (simp add: abs_machine_def)

lemma quiet_machine_step: "op \<notin> {DoCreate, DoGetIP} \<Longrightarrow> machine_step d op r m m"
  by (cases op) simp_all

lemma run_op_step:
  assumes rnd: "rand_in_range P" and lib: "clone_keeps_id P" "reads_requested P"
    and run: "run_op P op s = Some (r, s')"
  shows "machine_step (drv s) op r (abs_machine (drv s)) (abs_machine (drv s'))
    \<and> settings (drv s') = settings (drv s)"
proof (cases "op \<in> {DoCreate, DoGetIP}")
  case False
  then show ?thesis using quiet_ops [OF False run] quiet_machine_step by simp
next
  case True
  show ?thesis
  proof (cases "op = DoCreate")
    case create: True
    with run have "Create P s = Some (r, s')" by simp
    from Create_drv [OF rnd lib this] consider (same) "drv s' = drv s" "r \<noteq> Ok ()"
      | (new) i n a where "own_range (drv s) i" "drv s' = (drv s)\<lparr>VMID := i, PVENode := n, IPAddress := a\<rparr>"
          "r = Ok () \<or> a = IPAddress (drv s)" by blast
    then show ?thesis
    proof cases
      case same
      with create show ?thesis by simp
    next
      case (new i n a)
      with own_range_wrap(2) [OF new(1)] create show ?thesis
        by (auto simp: abs_machine_assigned) (auto simp: abs_machine_def)
    qed
  next
    case False
    with True run have "bindE (GetIP P) (\<lambda>_. okE ()) s = Some (r, s')" by simp
    moreover have "keeps same_vm (bindE (GetIP P) (\<lambda>_. okE ()))"
      by (intro same_vm.keeps_bindE same_vm_GetIP same_vm.keeps_okE)
    ultimately have "same_vm s s'" by (blast dest: keepsD)
    with False True show ?thesis by (simp add: abs_machine_def same_vmD)
  qed
qed

lemma run_op_requests:
  assumes rnd: "rand_in_range P" and lib: "clone_keeps_id P" "reads_requested P"
    and run: "run_op P op s = Some (r, s')"
  shows "emits (may_send P (drv s)) s s'"
proof (cases op)
  case DoCreate
  with run Create_requests [OF rnd lib] show ?thesis by simp
next
  case DoRemove
  with run show ?thesis by (simp add: keepsD [OF keeps_Remove_own])
next
  case DoPreCreateCheck
  have "keeps (emits (may_send P (drv s))) (PreCreateCheck P)"
    by (intro keepsI) (simp add: not_mutating_may_send reading_not_mutating)
  with DoPreCreateCheck run show ?thesis by (auto dest: keepsD)
next
  case DoGetState
  have "keeps (emits (may_send P (drv s))) (bindE (GetState P) (\<lambda>_. okE ()))"
    by (intro emits.keeps_bindE keeps_emits_mono [OF keeps_GetState(1)] emits.keeps_okE)
       (simp add: not_mutating_may_send reading_not_mutating)
  with DoGetState run show ?thesis by (auto dest: keepsD)
next
  case DoGetIP
  have quiet: "may_send P (drv s) e" if "reading e \<or> is_agent e" for e
    using that reading_not_mutating by (intro not_mutating_may_send) (cases e; auto)
  have "keeps (emits (may_send P (drv s))) (bindE (GetIP P) (\<lambda>_. okE ()))"
    by (intro emits.keeps_bindE keeps_emits_mono [OF keeps_GetIP] emits.keeps_okE) (rule quiet)
  with DoGetIP run show ?thesis by (auto dest: keepsD)
qed (rule power_requests [OF lib(2)], rule power_op(2) [OF _ run], simp)+


text \<open>
  C4. Every call of the driver is a step of the abstract machine, whatever its outcome: only
  \<open>Create\<close> assigns a VM, and its identifier is one of the range; only a successful \<open>Create\<close> and
  \<open>GetIP\<close> change the address; and no call changes a setting.
\<close>

theorem operation_refines:
  assumes "rand_in_range P" and "clone_keeps_id P" and "reads_requested P"
    and "run_op P op s = Some (r, s')"
  shows "machine_step (drv s) op r (abs_machine (drv s)) (abs_machine (drv s'))
    \<and> settings (drv s') = settings (drv s)"
  using assms by (rule run_op_step)

section \<open>Sessions\<close>

lemma settings_fields: "VMIDRange (settings d) = VMIDRange d" "MachineName (settings d) = MachineName d"
  by (simp_all add: settings_def)

lemma settings_own:
  assumes "settings d = settings d'"
  shows "own_range d = own_range d'" and "machine_clone d e = machine_clone d' e"
proof -
  from assms have range: "VMIDRange d = VMIDRange d'" and name: "MachineName d = MachineName d'"
    by (metis settings_fields)+
  then show "own_range d = own_range d'" by (simp add: own_range_def fun_eq_iff)
  show "machine_clone d e = machine_clone d' e" by (cases e) (simp_all add: range name)
qed

text \<open>The invariant of a session, as a relation between its first and its current fields.\<close>

definition same_machine :: "drv \<Rightarrow> drv \<Rightarrow> bool" where
  "same_machine d d' \<longleftrightarrow> settings d' = settings d \<and> (VMID d' = VMID d \<or> own_range d (VMID d'))"

lemma same_machine_refl: "same_machine d d"
  by (simp add: same_machine_def)

lemma same_machine_trans: "same_machine d d' \<Longrightarrow> same_machine d' d'' \<Longrightarrow> same_machine d d''"
  unfolding same_machine_def using settings_own(1) by metis

lemma same_machine_step:
  assumes "machine_step d op r (abs_machine d) (abs_machine d')" and "settings d' = settings d"
  shows "same_machine d d'"
proof -
  have vm: "m_vm (abs_machine d') = m_vm (abs_machine d) \<or>
      (\<exists>i n. own_range d i \<and> m_vm (abs_machine d') = Some (i, n))"
    using assms(1) by (cases op) (auto split: if_splits)
  then show ?thesis using assms(2) by (auto simp: same_machine_def abs_machine_def split: if_splits)
qed

lemma may_send_machine:
  assumes "same_machine d d'" and "may_send P d' e"
  shows "may_send P d e"
proof -
  from assms(1) have st: "settings d' = settings d" by (simp add: same_machine_def)
  show ?thesis
  proof (cases "request_target e")
    case None
    with assms(2) settings_own(2) [OF st] show ?thesis by (simp add: may_send_def)
  next
    case (Some v)
    have "own_range d (vm_id v)" if "own_range d (VMID d')" "vm_id v = wrap64 (VMID d')"
      using that own_range_wrap(1) by simp
    with Some assms settings_own [OF st] show ?thesis by (auto simp: may_send_def same_machine_def)
  qed
qed

lemma session_machine:
  assumes rnd: "rand_in_range P" and lib: "clone_keeps_id P" "reads_requested P"
    and "session P s s'"
  shows "same_machine (drv s) (drv s') \<and> emits (may_send P (drv s)) s s'"
  using assms(4)
proof (induction rule: session.induct)
  case (call t op r s')
  have "same_machine (drv t) (drv s')"
    using same_machine_step run_op_step [OF rnd lib call.hyps(2)] by blast
  moreover have "emits (may_send P (drv s)) t s'"
    by (rule emits_mono [OF run_op_requests [OF rnd lib call.hyps(2)]])
       (rule may_send_machine [OF conjunct1 [OF call.IH]])
  ultimately show ?case using call.IH by (blast intro: same_machine_trans emits.R_trans)
next
  case (lost t op r u)
  have "emits (may_send P (drv s)) t u"
    by (rule emits_mono [OF run_op_requests [OF rnd lib lost.hyps(2)]])
       (rule may_send_machine [OF conjunct1 [OF lost.IH]])
  with lost.IH have "emits (may_send P (drv s)) s u" by (blast intro: emits.R_trans)
  with lost.IH show ?case by (simp add: emits_def)
qed (simp_all add: same_machine_refl emits.R_refl emits_def)

text \<open>
  C5. Over any sequence of calls, with results lost and the cluster changing in between, the
  settings never change, and the VMID is the one the sequence began with or one of the
  configured range.
\<close>

theorem session_invariant:
  assumes "rand_in_range P" and "clone_keeps_id P" and "reads_requested P" and "session P s s'"
  shows "settings (drv s') = settings (drv s)
    \<and> (VMID (drv s') = VMID (drv s) \<or> own_range (drv s) (VMID (drv s')))"
  using session_machine [OF assms] by (simp add: same_machine_def)

text \<open>
  C2. What the driver may do to the cluster over any such sequence: clone templates under its
  own machine name into the configured range; configure, resize, switch or delete VMs that carry
  the ownership tag or have an identifier of the range; and send power requests to the VM with
  the persisted identifier. Every other VM is left alone.
\<close>

theorem session_requests:
  assumes "rand_in_range P" and "clone_keeps_id P" and "reads_requested P" and "session P s s'"
  shows "emits (may_send P (drv s)) s s'"
  using session_machine [OF assms] by blast

section \<open>Witnesses\<close>

lemma sim_reads_requested: "reads_requested sim"
  by (auto simp: reads_requested_def sim_def vm_id_def wrap64_sint split: option.splits)

text \<open>A creation, after which the cluster loses the VM, and a removal.\<close>

lemma sim_session: "\<exists>s'. session sim named_dst s' \<and> VMID (drv s') = 10000"
proof -
  obtain t where "Create sim named_dst = Some (Ok (), t)" and id: "VMID (drv t) = 10000"
    using named_create by blast
  then have "session sim named_dst t" using session.call [OF session.begins, of sim DoCreate] by simp
  then have lost: "session sim named_dst (t\<lparr>world := sim0\<rparr>)" by (rule session.others)
  obtain r s' where run: "Remove sim (t\<lparr>world := sim0\<rparr>) = Some (r, s')"
    using proper_Remove unfolding proper_def by blast
  then have "drv s' = drv t" using same_ext_drv [OF keepsD [OF frame_Remove run]] by simp
  moreover have "session sim named_dst s'" using session.call [OF lost, of DoRemove] run by simp
  ultimately show ?thesis using id by auto
qed

theorem operation_refines_witness:
  "\<exists>s'. run_op sim DoCreate named_dst = Some (Ok (), s')
     \<and> machine_step (drv named_dst) DoCreate (Ok ()) (abs_machine (drv named_dst)) (abs_machine (drv s'))"
proof -
  obtain s' where "Create sim named_dst = Some (Ok (), s')" using named_create by blast
  then have run: "run_op sim DoCreate named_dst = Some (Ok (), s')" by simp
  from operation_refines [OF sim_rand_in_range sim_clone_keeps_id sim_reads_requested run] run
  show ?thesis by blast
qed

theorem session_invariant_witness:
  "own_range (drv named_dst) 10000 \<and> VMID (drv named_dst) = 0"
proof -
  obtain s' where s': "session sim named_dst s'" "VMID (drv s') = 10000" using sim_session by blast
  have "VMID (drv named_dst) = 0" by code_simp
  with session_invariant [OF sim_rand_in_range sim_clone_keeps_id sim_reads_requested s'(1)] s'(2)
  show ?thesis by simp
qed

theorem session_requests_witness:
  "\<exists>s'. VMID (drv s') = 10000 \<and> emits (may_send sim (drv named_dst)) named_dst s'"
proof -
  obtain s' where s': "session sim named_dst s'" "VMID (drv s') = 10000" using sim_session by blast
  with session_requests [OF sim_rand_in_range sim_clone_keeps_id sim_reads_requested s'(1)]
  show ?thesis by blast
qed

end
