(* ===== verification/Spec2Isabelle.thy ===== *)
theory Spec2Isabelle
  imports Session
begin

text \<open>
  Verification of \<open>pvenode\<close>, a Rancher node driver for Proxmox VE (PVE), written in Go.

  \<^bold>\<open>The program.\<close> \<open>rancher-machine\<close> starts the driver for each call (\<open>PreCreateCheck\<close>, \<open>Create\<close>,
  \<open>Start\<close>, \<open>Stop\<close>, \<open>Kill\<close>, \<open>Restart\<close>, \<open>Remove\<close>, \<open>GetState\<close>, \<open>GetIP\<close>, \<open>GetURL\<close>) in a process
  of its own; the fields of \<open>Driver\<close> are persisted between calls. Package \<open>driver\<close> resolves and
  checks the placement of a VM, clones a template, configures and starts the clone, waits for its
  address, and removes it. Package \<open>pve\<close> wraps the client library \<open>go-proxmox\<close> with retries, task
  waiting and lookups; package \<open>validate\<close> holds the pure checks.

  \<^bold>\<open>How it is modelled.\<close> A function of the code that talks to PVE is an \<open>eff\<close> (theory
  \<open>GoEffects\<close>): a state goes to an outcome and a state, where the outcome is a value, an error or a
  panic, and \<open>None\<close> stands for not returning. The state (\<open>st\<close> in \<open>Api\<close>, extended by the driver's
  fields to \<open>dst\<close> in \<open>Driver\<close>) holds the world, of arbitrary type, and a trace of the requests.
  Everything outside the repository is the parameter record \<open>px\<close>: the calls of \<open>go-proxmox\<close>, the
  clock, sleeping, the random source, TCP, the SSH key files and \<open>BaseDriver\<close>. Such a call may
  change the world in any way, so other users of the cluster are part of every theorem. Context
  cancellation is a possible answer of a sleep. Go's \<open>int\<close> and \<open>time.Duration\<close> are integers with
  \<open>wrap64\<close> where arithmetic can overflow; \<open>uint64\<close> identifiers and address bytes are words.

  \<^bold>\<open>Theories and code.\<close> The definitions have the names of the Go functions; helpers name the
  part of a function they stand for.

  \<^item> \<open>Prelude\<close>, \<open>GoString\<close>, \<open>GoNet\<close>, \<open>GoEffects\<close>: shared lemmas and what the code uses of Go's
    standard library (strings, \<open>Atoi\<close>, durations, \<open>net.ParseIP\<close>, errors), with the rules that
    walk through control structure: \<open>keepsI\<close> (relations kept by every run, locale \<open>step_rel\<close>),
    \<open>properI\<close> (always returns, never panics), \<open>calmI\<close> (never panics).
  \<^item> \<open>Api\<close>: the data and calls of the library, the trace and the relations \<open>emits\<close> (which requests
    are sent), \<open>same_ext\<close> (the driver's fields are kept) and \<open>grew\<close> (how many requests are sent).
    \<open>Sim\<close>: a small simulated cluster in which the witnesses run.
  \<^item> \<open>Errors\<close>: \<open>pkg/pve/errors.go\<close>. \<open>Retrying\<close>: \<open>retry.go\<close>, with the locale \<open>retried_op\<close>.
    \<open>Client\<close>: \<open>client.go\<close>, \<open>task.go\<close>, \<open>access.go\<close>. \<open>Resources\<close>: \<open>resources.go\<close>, with the locale
    \<open>owned_search\<close>. \<open>VmOps\<close>: \<open>vmops.go\<close>, with the locale \<open>task_op\<close>, the contract of a request
    followed by the wait for its task. \<open>Clone\<close>: \<open>clone.go\<close>. \<open>AgentIp\<close>: \<open>agentip.go\<close>.
  \<^item> \<open>Rules\<close>, \<open>Privileges\<close>, \<open>Template\<close>: \<open>pkg/validate/rules.go\<close>, \<open>privileges.go\<close>,
    \<open>template.go\<close>.
  \<^item> \<open>Driver\<close>, \<open>Flags\<close>, \<open>PreCreate\<close>, \<open>Removal\<close>, \<open>Lifecycle\<close>, \<open>Creation\<close>: \<open>pkg/driver/driver.go\<close>,
    \<open>flags.go\<close>, \<open>precreate.go\<close>, \<open>remove.go\<close>, \<open>lifecycle.go\<close> (with the locale \<open>vm_action\<close>, the
    contract of the functions given to \<open>withVM\<close>) and \<open>create.go\<close>.
  \<^item> \<open>Session\<close>: sequences of driver calls and the abstract machine that they refine.

  \<^bold>\<open>What is shown.\<close>

  \<^item> Safety: \<open>Remove\<close> touches only VMs with the ownership tag; a whole session touches only such
    VMs, VMs of the configured identifier range and, for power requests, the persisted VM; checks
    only read; a clone is at most ten requests of the given template into the range. Two theorems
    show where the code looks only at the identifier: the clean-up of a failed clone
    (\<open>bestEffortDelete\<close>) and the power requests (\<open>Stop\<close>) do not check the ownership tag.
  \<^item> Function: what a successful \<open>Create\<close>, \<open>CloneFromTemplate\<close>, \<open>resolvePlacement\<close>, \<open>WaitForIP\<close>,
    lookup or template check guarantees, and the order of the provisioning steps. \<open>lookupVM\<close>,
    \<open>resolvePlacement\<close>, \<open>PreCreateCheck\<close>, \<open>GetState\<close> and \<open>GetIP\<close> are characterised exactly, refusals
    included.
  \<^item> Errors: the exhaustive causes of failure of \<open>Create\<close>, \<open>CloneFromTemplate\<close> and \<open>WaitForIP\<close> with
    what each leaves behind: every clone that PVE accepted in a run that failed was followed by
    an attempt to delete it. Which errors \<open>CloneFromTemplate\<close> retries, and how.
  \<^item> Termination and bounds: \<open>WaitForIP\<close> returns when the clock advances with the sleeps;
    \<open>randomFreeVMID\<close> returns exactly when the range is full or a free identifier is ever drawn;
    retries are bounded and sleep on the backoff schedule.
  \<^item> Refinement and invariants: every call is a step of the abstract machine; settings and
    identifiers over sessions. Round trip and types: identifier ranges, options, machine names.

  \<^bold>\<open>Loops and bounds.\<close> The retry loop recurses on its remaining attempts (ten for a clone, five
  for a delete; delays capped at 30 s). \<open>pick_free\<close> and \<open>wait_loop\<close> can run forever in the code,
  so they are \<open>partial_function (option)\<close> without fuel, and their termination theorems say
  exactly when, or under which behaviour of the clock, they return.

  \<^bold>\<open>Named hypotheses.\<close> \<open>rand_in_range\<close>: \<open>rand.Intn(n)\<close> is in \<open>0..n-1\<close>. \<open>clone_keeps_id\<close>: a clone
  with an explicit \<open>NewID\<close> returns it. \<open>reads_requested\<close>: a VM read under an identifier has it.
  \<open>clock_advances\<close>: a sleep moves the clock by at least its length, and nothing moves it back.
  \<open>iteration_order\<close>: a map is visited in some order. The simulated cluster satisfies each.

  \<^bold>\<open>Not modelled.\<close> Log lines; \<open>cmd/.../main.go\<close> (one call of
  the plugin library); \<open>probe_seam.go\<close> and \<open>internal/pvetest\<close> (test support); the deployment and UI
  files. Letters beyond ASCII in case conversion, white space and quoting (options and PVE
  identifiers are ASCII). JSON decoding, TLS and certificate parsing, which the library or Go does.
  \<open>nil\<close> elements in the library's lists of pointers. A process killed in the middle of a call; a
  session has calls whose results are lost, not partial calls. \<open>drivers.MustBeRunning\<close> is
  a parameter of \<open>GetURL\<close>, and \<open>GetURL\<close> is not a call of a session. Of \<open>BaseDriver\<close> only the
  fields that the driver's code names are in the record \<open>drv\<close>; \<open>GetSSHKeyPath\<close>, which may return
  or store a path of its own, is a call on the world, and \<open>GetSSHUsername\<close> is a function of the
  user, since \<open>SetConfigFromFlags\<close> never leaves the user empty for it to fill in.
\<close>

end
